theory Spec2Isabelle
  imports Complex_Main
begin

section \<open>Conventions of the embedding\<close>

text \<open>
  The program is the Python package \<^verbatim>\<open>spy_agent\<close>. Its floats are modelled as real
  numbers, so rounding error, overflow and the values inf and nan are outside the model,
  except where a definition below says how a division by zero is represented.
  Timestamps are whole minutes counted from midnight of day 0: the calendar date of a
  timestamp is its quotient by 1440, and adding a timedelta is integer addition.
  Every \<^verbatim>\<open>raise\<close> of the source that a definition can reach is a value \<open>Inl e\<close> of the
  result.
\<close>

datatype error = ZeroDivisionError | ValueError | DetectorError

type_synonym timestamp = int

definition date_of :: "timestamp \<Rightarrow> int" where
  "date_of ts = ts div 1440"

text \<open>\<^verbatim>\<open>int(x)\<close> on a float truncates towards zero.\<close>

definition py_int :: "real \<Rightarrow> int" where
  "py_int x = (if 0 \<le> x then \<lfloor>x\<rfloor> else \<lceil>x\<rceil>)"

text \<open>\<^verbatim>\<open>round(x)\<close> with one argument rounds to the nearest integer, a tie going to the even one.\<close>

definition py_round :: "real \<Rightarrow> int" where
  "py_round x =
     (let f = \<lfloor>x\<rfloor>; d = x - of_int f
      in if d < 1 / 2 then f
         else if 1 / 2 < d then f + 1
         else if even f then f else f + 1)"

section \<open>options_model.py\<close>

datatype OptionType = CALL | PUT

text \<open>
  \<^verbatim>\<open>scipy.stats.norm.cdf\<close> is the distribution function of the standard normal law. It is
  given by its Maclaurin series,
  \<open>1/2 + (x / sqrt (2 pi)) * (\<Sum>m. (-1)^m x^(2m) / (m! 2^m (2m+1)))\<close>, which converges for
  every \<open>x\<close>.
\<close>

definition norm_cdf_coeff :: "nat \<Rightarrow> real" where
  "norm_cdf_coeff m = (- 1) ^ m / (fact m * 2 ^ m * real (2 * m + 1))"

definition norm_cdf_series :: "real \<Rightarrow> real" where
  "norm_cdf_series y = (\<Sum>m. norm_cdf_coeff m * y ^ m)"

definition norm_cdf :: "real \<Rightarrow> real" where
  "norm_cdf x = 1 / 2 + x * norm_cdf_series (x * x) / sqrt (2 * pi)"

text \<open>The density of the standard normal law, the derivative of \<open>norm_cdf\<close>.\<close>

definition norm_pdf :: "real \<Rightarrow> real" where
  "norm_pdf x = exp (- (x * x) / 2) / sqrt (2 * pi)"

text \<open>
  \<^verbatim>\<open>black_scholes_price\<close>. With \<open>T > 0\<close> the source divides by \<open>K\<close> (ZeroDivisionError when
  it is zero), takes \<^verbatim>\<open>math.log\<close> of the quotient (ValueError unless it is positive) and
  divides by \<open>sigma * sqrt_T\<close> (ZeroDivisionError when it is zero), in this order.
\<close>

definition black_scholes_price ::
  "real \<Rightarrow> real \<Rightarrow> real \<Rightarrow> real \<Rightarrow> real \<Rightarrow> OptionType \<Rightarrow> error + real" where
  "black_scholes_price S K T r sigma option_type =
     (if T \<le> 0 then
        (if option_type = CALL then Inr (max (S - K) 0) else Inr (max (K - S) 0))
      else if K = 0 then Inl ZeroDivisionError
      else if S / K \<le> 0 then Inl ValueError
      else if sigma * sqrt T = 0 then Inl ZeroDivisionError
      else
        (let sqrt_T = sqrt T;
             d1 = (ln (S / K) + (r + 0.5 * sigma ^ 2) * T) / (sigma * sqrt_T);
             d2 = d1 - sigma * sqrt_T;
             price = (if option_type = CALL
                      then S * norm_cdf d1 - K * exp (- r * T) * norm_cdf d2
                      else K * exp (- r * T) * norm_cdf (- d2) - S * norm_cdf (- d1))
         in Inr (max price 0.01)))"

text \<open>\<^verbatim>\<open>select_strike\<close>: the moneyness is a string, anything unknown falls through to ATM.\<close>

definition select_strike :: "real \<Rightarrow> OptionType \<Rightarrow> string \<Rightarrow> real" where
  "select_strike underlying_price option_type moneyness =
     (let rounded = of_int (py_round underlying_price)
      in if moneyness = ''ATM'' then rounded
         else if moneyness = ''OTM1'' then (if option_type = CALL then rounded + 1 else rounded - 1)
         else if moneyness = ''OTM2'' then (if option_type = CALL then rounded + 2 else rounded - 2)
         else if moneyness = ''ITM1'' then (if option_type = CALL then rounded - 1 else rounded + 1)
         else rounded)"

definition estimate_iv_from_time :: "real \<Rightarrow> real \<Rightarrow> real" where
  "estimate_iv_from_time minutes_to_close base_iv =
     (let hours = minutes_to_close / 60;
          multiplier = (if hours > 5 then 2.5
                        else if hours > 3 then 2.0
                        else if hours > 1 then 1.5
                        else 1.2)
      in base_iv * multiplier)"

record OptionTrade =
  entry_time :: timestamp
  exit_time :: "timestamp option"
  option_type :: OptionType
  strike :: real
  entry_underlying :: real
  exit_underlying :: "real option"
  entry_premium :: real
  exit_premium :: "real option"
  contracts :: int
  trade_pattern :: string
  trade_direction :: string
  iv :: real

definition pnl_per_contract :: "OptionTrade \<Rightarrow> real" where
  "pnl_per_contract t =
     (case exit_premium t of None \<Rightarrow> 0 | Some x \<Rightarrow> (x - entry_premium t) * 100)"

definition total_pnl :: "OptionTrade \<Rightarrow> real" where
  "total_pnl t = pnl_per_contract t * of_int (contracts t)"

text \<open>In \<^verbatim>\<open>pnl_pct\<close>, \<^verbatim>\<open>self.exit_premium or 0\<close> is 0 for None (and for 0.0).\<close>

definition pnl_pct :: "OptionTrade \<Rightarrow> real" where
  "pnl_pct t =
     (if entry_premium t \<le> 0 then 0
      else ((case exit_premium t of None \<Rightarrow> 0 | Some x \<Rightarrow> x) - entry_premium t)
             / entry_premium t * 100)"

section \<open>config.py\<close>

text \<open>The fields of \<^verbatim>\<open>AgentConfig\<close> that the modelled functions read.\<close>

record AgentConfig =
  orb_minutes :: int
  orb_breakout_buffer :: real
  adx_trend_threshold :: real
  risk_free_rate :: real
  default_iv :: real
  initial_capital :: real
  position_size_pct :: real
  max_loss_per_trade_pct :: real
  profit_target_pct :: real
  slippage_pct :: real
  commission_per_contract :: real
  min_pattern_confidence :: real
  enabled_patterns :: "string list"

text \<open>The defaults of the dataclass.\<close>

definition default_config :: AgentConfig where
  "default_config =
     \<lparr> orb_minutes = 15, orb_breakout_buffer = 0.10, adx_trend_threshold = 25.0,
       risk_free_rate = 0.05, default_iv = 0.15, initial_capital = 10000.0,
       position_size_pct = 5.0, max_loss_per_trade_pct = 50.0, profit_target_pct = 100.0,
       slippage_pct = 1.0, commission_per_contract = 0.65, min_pattern_confidence = 0.6,
       enabled_patterns =
         [''opening_range_breakout'', ''opening_range_breakdown'',
          ''vwap_rejection_long'', ''vwap_rejection_short'',
          ''vwap_crossover_long'', ''vwap_crossover_short'',
          ''macd_bullish_cross'', ''macd_bearish_cross'',
          ''rsi_oversold_bounce'', ''rsi_overbought_fade'',
          ''ema_bullish_cross'', ''ema_bearish_cross'',
          ''bollinger_squeeze_breakout'', ''volume_spike_continuation'',
          ''mean_reversion_long'', ''mean_reversion_short'',
          ''gap_fill_long'', ''gap_fill_short'',
          ''previous_day_high_break'', ''previous_day_low_break'',
          ''midday_reversal'', ''power_hour_momentum'',
          ''double_bottom'', ''double_top'',
          ''support_bounce'', ''resistance_rejection''] \<rparr>"

section \<open>backtester.py: BacktestResult\<close>

record BacktestResult =
  trades :: "OptionTrade list"
  result_initial_capital :: real
  final_capital :: real
  config :: AgentConfig

definition total_trades :: "BacktestResult \<Rightarrow> nat" where
  "total_trades res = length (trades res)"

definition winners :: "BacktestResult \<Rightarrow> OptionTrade list" where
  "winners res = filter (\<lambda>t. total_pnl t > 0) (trades res)"

definition losers :: "BacktestResult \<Rightarrow> OptionTrade list" where
  "losers res = filter (\<lambda>t. total_pnl t \<le> 0) (trades res)"

definition win_rate :: "BacktestResult \<Rightarrow> real" where
  "win_rate res =
     (if total_trades res = 0 then 0
      else real (length (winners res)) / real (total_trades res) * 100)"

definition result_total_pnl :: "BacktestResult \<Rightarrow> real" where
  "result_total_pnl res = sum_list (map total_pnl (trades res))"

text \<open>
  \<^verbatim>\<open>max_drawdown\<close>. The equity list starts at the initial capital and grows by one entry
  per trade; \<^verbatim>\<open>np.maximum.accumulate\<close> is the running maximum; the drawdown array is
  \<open>(eq - peak) / peak * 100\<close> elementwise and the result is its minimum. numpy does not
  raise on a division by zero: an entry whose peak is zero is nan or -inf, and so is the
  minimum then. The model returns \<open>None\<close> for such a result that is not a finite number.
\<close>

fun equity_from :: "real \<Rightarrow> OptionTrade list \<Rightarrow> real list" where
  "equity_from e [] = [e]"
| "equity_from e (t # ts) = e # equity_from (e + total_pnl t) ts"

fun accumulate_from :: "real \<Rightarrow> real list \<Rightarrow> real list" where
  "accumulate_from m [] = []"
| "accumulate_from m (x # xs) = max m x # accumulate_from (max m x) xs"

fun maximum_accumulate :: "real list \<Rightarrow> real list" where
  "maximum_accumulate [] = []"
| "maximum_accumulate (x # xs) = x # accumulate_from x xs"

fun array_min :: "real list \<Rightarrow> real" where
  "array_min [] = 0"
| "array_min (x # xs) = fold min xs x"

definition drawdown_array :: "real list \<Rightarrow> real list \<Rightarrow> real list" where
  "drawdown_array eq peak = map (\<lambda>(e, p). (e - p) / p * 100) (zip eq peak)"

definition max_drawdown :: "BacktestResult \<Rightarrow> real option" where
  "max_drawdown res =
     (if trades res = [] then Some 0
      else
        (let eq = equity_from (result_initial_capital res) (trades res);
             peak = maximum_accumulate eq
         in if 0 \<in> set peak then None
            else Some (array_min (drawdown_array eq peak))))"

text \<open>\<^verbatim>\<open>sharpe_ratio\<close>: \<^verbatim>\<open>np.std\<close> is the population standard deviation.\<close>

definition np_mean :: "real list \<Rightarrow> real" where
  "np_mean xs = sum_list xs / real (length xs)"

definition np_std :: "real list \<Rightarrow> real" where
  "np_std xs = sqrt (np_mean (map (\<lambda>x. (x - np_mean xs) ^ 2) xs))"

definition sharpe_ratio :: "BacktestResult \<Rightarrow> real" where
  "sharpe_ratio res =
     (if length (trades res) < 2 then 0
      else
        (let returns = map pnl_pct (trades res);
             avg_ret = np_mean returns;
             std_ret = np_std returns
         in if std_ret = 0 then 0 else avg_ret / std_ret * sqrt 252))"

section \<open>patterns.py: Signal\<close>

datatype Direction = LONG | SHORT

text \<open>\<^verbatim>\<open>Direction.value\<close>, the string stored in a trade.\<close>

definition direction_value :: "Direction \<Rightarrow> string" where
  "direction_value d = (if d = LONG then ''LONG'' else ''SHORT'')"

text \<open>
  The dataclass \<^verbatim>\<open>Signal\<close>; its description and metadata are text for the reader of an
  alert and are left out.
\<close>

record Signal =
  timestamp :: timestamp
  pattern :: string
  direction :: Direction
  confidence :: real
  entry_price :: real
  stop_price :: real
  target_price :: real

definition risk_reward :: "Signal \<Rightarrow> real" where
  "risk_reward s =
     (let risk = \<bar>entry_price s - stop_price s\<bar>;
          reward = \<bar>target_price s - entry_price s\<bar>
      in if risk > 0 then reward / risk else 0)"

section \<open>The intraday frame\<close>

text \<open>
  A row of the OHLCV DataFrame with its index entry. A cell that is nan is \<open>None\<close>. The
  previous-day columns exist only when their names are among the frame's columns.
\<close>

record Bar =
  index :: timestamp
  bar_open :: real
  high :: real
  low :: real
  close :: real
  volume :: real
  prev_high :: "real option"
  prev_low :: "real option"
  prev_close :: "real option"

record DataFrame =
  rows :: "Bar list"
  columns :: "string list"

section \<open>backtester.py: Backtester\<close>

record ExitResult =
  exit_result_time :: timestamp
  exit_result_price :: real
  exit_result_premium :: real
  exit_reason :: string

text \<open>
  The loop of \<^verbatim>\<open>_find_exit\<close> over the forward bars: the first bar whose repriced premium
  reaches the stop (checked first) or the target ends it; \<open>Inr None\<close> is a loop that ran
  to its end.
\<close>

fun exit_loop ::
  "AgentConfig \<Rightarrow> OptionType \<Rightarrow> real \<Rightarrow> real \<Rightarrow> real \<Rightarrow> real \<Rightarrow> timestamp \<Rightarrow> Bar list
     \<Rightarrow> error + ExitResult option" where
  "exit_loop cfg opt_type strk vol stop_premium target_premium market_close [] = Inr None"
| "exit_loop cfg opt_type strk vol stop_premium target_premium market_close (b # bs) =
     (let bar_time = index b;
          bar_price = close b;
          minutes_left = max (real_of_int (market_close - bar_time)) 0.1;
          T = minutes_left / 60 / (252 * 6.5)
      in case black_scholes_price bar_price strk T (risk_free_rate cfg) vol opt_type of
           Inl e \<Rightarrow> Inl e
         | Inr current_premium \<Rightarrow>
             if current_premium \<le> stop_premium then
               Inr (Some \<lparr> exit_result_time = bar_time, exit_result_price = bar_price,
                           exit_result_premium = stop_premium, exit_reason = ''stop_loss'' \<rparr>)
             else if current_premium \<ge> target_premium then
               Inr (Some \<lparr> exit_result_time = bar_time, exit_result_price = bar_price,
                           exit_result_premium = target_premium,
                           exit_reason = ''profit_target'' \<rparr>)
             else exit_loop cfg opt_type strk vol stop_premium target_premium market_close bs)"

definition find_exit ::
  "AgentConfig \<Rightarrow> Signal \<Rightarrow> DataFrame \<Rightarrow> OptionType \<Rightarrow> real \<Rightarrow> real \<Rightarrow> real \<Rightarrow> real
     \<Rightarrow> error + ExitResult" where
  "find_exit cfg signal df opt_type strk vol entry_prem initial_minutes_to_close =
     (let stop_pct = max_loss_per_trade_pct cfg / 100;
          target_pct = profit_target_pct cfg / 100;
          stop_premium = entry_prem * (1 - stop_pct);
          target_premium = entry_prem * (1 + target_pct);
          signal_date = date_of (timestamp signal);
          forward = filter (\<lambda>b. date_of (index b) = signal_date)
                      (filter (\<lambda>b. index b > timestamp signal) (rows df));
          market_close = signal_date * 1440 + 960
      in case exit_loop cfg opt_type strk vol stop_premium target_premium market_close forward of
           Inl e \<Rightarrow> Inl e
         | Inr (Some r) \<Rightarrow> Inr r
         | Inr None \<Rightarrow>
             if forward \<noteq> [] then
               (let final_bar = last forward;
                    final_price = close final_bar;
                    final_premium = (if opt_type = CALL then max (final_price - strk) 0
                                     else max (strk - final_price) 0)
                in Inr \<lparr> exit_result_time = index final_bar, exit_result_price = final_price,
                          exit_result_premium = final_premium, exit_reason = ''expiration'' \<rparr>)
             else
               Inr \<lparr> exit_result_time = timestamp signal, exit_result_price = entry_price signal,
                       exit_result_premium = 0, exit_reason = ''no_data'' \<rparr>)"

text \<open>
  Position sizing, lines 277 to 285 of \<^verbatim>\<open>_simulate_trades\<close>. \<open>None\<close> is the
  \<^verbatim>\<open>continue\<close> under \<^verbatim>\<open>if contracts == 0\<close>.
\<close>

definition position_contracts :: "real \<Rightarrow> real \<Rightarrow> real \<Rightarrow> int option" where
  "position_contracts capital size_pct entry_prem =
     (let position_value = capital * size_pct / 100;
          n = max (py_int (position_value / (entry_prem * 100))) 1;
          cost = of_int n * entry_prem * 100
      in if cost > capital then
           (let n' = max (py_int (capital / (entry_prem * 100))) 1
            in if n' = 0 then None else Some n')
         else Some n)"

text \<open>
  The body of the loop of \<^verbatim>\<open>_simulate_trades\<close> for a signal that passed the date check,
  up to the construction of the trade: \<open>Inr None\<close> is a \<^verbatim>\<open>continue\<close>.
\<close>

definition open_trade :: "AgentConfig \<Rightarrow> DataFrame \<Rightarrow> real \<Rightarrow> Signal \<Rightarrow> error + OptionTrade option" where
  "open_trade cfg df capital signal =
     (let opt_type = (if direction signal = LONG then CALL else PUT);
          strk = select_strike (entry_price signal) opt_type ''ATM'';
          market_close = date_of (timestamp signal) * 1440 + 960;
          minutes_to_close = max (real_of_int (market_close - timestamp signal)) 1;
          vol = estimate_iv_from_time minutes_to_close (default_iv cfg);
          T = minutes_to_close / 60 / (252 * 6.5)
      in case black_scholes_price (entry_price signal) strk T (risk_free_rate cfg) vol opt_type of
           Inl e \<Rightarrow> Inl e
         | Inr entry_prem \<Rightarrow>
             if entry_prem < 0.05 then Inr None
             else
               (case position_contracts capital (position_size_pct cfg) entry_prem of
                  None \<Rightarrow> Inr None
                | Some n \<Rightarrow>
                    (case find_exit cfg signal df opt_type strk vol entry_prem minutes_to_close of
                       Inl e \<Rightarrow> Inl e
                     | Inr exit_result \<Rightarrow>
                         Inr (Some \<lparr> entry_time = timestamp signal,
                                     exit_time = Some (exit_result_time exit_result),
                                     option_type = opt_type,
                                     strike = strk,
                                     entry_underlying = entry_price signal,
                                     exit_underlying = Some (exit_result_price exit_result),
                                     entry_premium = entry_prem,
                                     exit_premium = Some (exit_result_premium exit_result),
                                     contracts = n,
                                     trade_pattern = pattern signal,
                                     trade_direction = direction_value (direction signal),
                                     iv = vol \<rparr>))))"

text \<open>The three updates of the running capital after a trade, lines 308 to 311.\<close>

definition settle :: "AgentConfig \<Rightarrow> real \<Rightarrow> OptionTrade \<Rightarrow> real" where
  "settle cfg capital trade =
     capital + total_pnl trade
       - of_int (contracts trade) * commission_per_contract cfg * 2
       - \<bar>total_pnl trade\<bar> * slippage_pct cfg / 100"

text \<open>
  The loop of \<^verbatim>\<open>_simulate_trades\<close>, with its three variables: the trades so far, the
  running capital and the date of the last trade. It returns the trades and the running
  capital at the end of the loop.
\<close>

fun simulate_loop ::
  "AgentConfig \<Rightarrow> DataFrame \<Rightarrow> OptionTrade list \<Rightarrow> real \<Rightarrow> int option \<Rightarrow> Signal list
     \<Rightarrow> error + (OptionTrade list \<times> real)" where
  "simulate_loop cfg df trds capital active_trade_date [] = Inr (trds, capital)"
| "simulate_loop cfg df trds capital active_trade_date (signal # rest) =
     (if active_trade_date = Some (date_of (timestamp signal)) then
        simulate_loop cfg df trds capital active_trade_date rest
      else
        (case open_trade cfg df capital signal of
           Inl e \<Rightarrow> Inl e
         | Inr None \<Rightarrow> simulate_loop cfg df trds capital active_trade_date rest
         | Inr (Some trade) \<Rightarrow>
             (let capital' = settle cfg capital trade
              in if capital' \<le> 0 then Inr (trds @ [trade], capital')
                 else simulate_loop cfg df (trds @ [trade]) capital'
                        (Some (date_of (timestamp signal))) rest)))"

definition simulate_trades :: "AgentConfig \<Rightarrow> Signal list \<Rightarrow> DataFrame \<Rightarrow> error + OptionTrade list" where
  "simulate_trades cfg signals df =
     (case simulate_loop cfg df [] (initial_capital cfg) None signals of
        Inl e \<Rightarrow> Inl e
      | Inr (trds, capital) \<Rightarrow> Inr trds)"

text \<open>The running capital that \<^verbatim>\<open>_simulate_trades\<close> holds when it returns.\<close>

definition running_capital :: "AgentConfig \<Rightarrow> Signal list \<Rightarrow> DataFrame \<Rightarrow> error + real" where
  "running_capital cfg signals df =
     (case simulate_loop cfg df [] (initial_capital cfg) None signals of
        Inl e \<Rightarrow> Inl e
      | Inr (trds, capital) \<Rightarrow> Inr capital)"

text \<open>
  \<^verbatim>\<open>Backtester.run\<close> from the list that \<^verbatim>\<open>scan\<close> returned: the confidence filter, the
  simulation and the final capital of the result.
\<close>

definition run :: "AgentConfig \<Rightarrow> Signal list \<Rightarrow> DataFrame \<Rightarrow> error + BacktestResult" where
  "run cfg scanned df =
     (let signals = filter (\<lambda>s. confidence s \<ge> min_pattern_confidence cfg) scanned
      in case simulate_trades cfg signals df of
           Inl e \<Rightarrow> Inl e
         | Inr trds \<Rightarrow>
             Inr \<lparr> trades = trds,
                   result_initial_capital = initial_capital cfg,
                   final_capital = initial_capital cfg + sum_list (map total_pnl trds),
                   config = cfg \<rparr>)"

section \<open>patterns.py: PatternDetector\<close>

text \<open>
  A pandas Series indexed by timestamp: no entry for a label that is not in the index,
  \<open>Some None\<close> for a nan cell. \<^verbatim>\<open>Series.get(idx, default)\<close> returns the default for a
  missing label only.
\<close>

type_synonym series = "timestamp \<Rightarrow> real option option"

definition series_get :: "series \<Rightarrow> timestamp \<Rightarrow> real option \<Rightarrow> real option" where
  "series_get s idx dflt = (case s idx of None \<Rightarrow> dflt | Some v \<Rightarrow> v)"

text \<open>The entries of the detection context \<^verbatim>\<open>ctx\<close> that the modelled detectors read.\<close>

record Context =
  ctx_df :: DataFrame
  ctx_volume :: series
  ctx_vol_sma :: series
  ctx_adx :: series
  ctx_atr :: series

text \<open>\<^verbatim>\<open>a = atr_val.get(idx, 1.0)\<close>, then 1.0 in place of nan.\<close>

definition atr_at :: "Context \<Rightarrow> timestamp \<Rightarrow> real" where
  "atr_at ctx idx = (case series_get (ctx_atr ctx) idx (Some 1.0) of None \<Rightarrow> 1.0 | Some a \<Rightarrow> a)"

text \<open>
  \<^verbatim>\<open>df.groupby("date")\<close>: one group per calendar date, the dates ascending, each group
  keeping the order of the rows.
\<close>

definition groupby_date :: "Bar list \<Rightarrow> (int \<times> Bar list) list" where
  "groupby_date bars =
     map (\<lambda>d. (d, filter (\<lambda>b. date_of (index b) = d) bars))
       (sort (remdups (map (\<lambda>b. date_of (index b)) bars)))"

fun array_max :: "real list \<Rightarrow> real" where
  "array_max [] = 0"
| "array_max (x # xs) = fold max xs x"

text \<open>
  \<^verbatim>\<open>_get_opening_range\<close>: the dictionary from a date to the high and the low of the bars
  up to \<^verbatim>\<open>orb_minutes\<close> after the day's first bar, as the list of its items in insertion
  order. A group is never empty.
\<close>

definition opening_range_of :: "AgentConfig \<Rightarrow> int \<times> Bar list \<Rightarrow> (int \<times> real \<times> real) option" where
  "opening_range_of cfg dg =
     (case snd dg of
        [] \<Rightarrow> None
      | first_bar # _ \<Rightarrow>
          (let cutoff = index first_bar + orb_minutes cfg;
               or_bars = filter (\<lambda>b. index b \<le> cutoff) (snd dg)
           in if length or_bars > 0
              then Some (fst dg, array_max (map high or_bars), array_min (map low or_bars))
              else None))"

definition get_opening_range :: "AgentConfig \<Rightarrow> DataFrame \<Rightarrow> (int \<times> real \<times> real) list" where
  "get_opening_range cfg df = List.map_filter (opening_range_of cfg) (groupby_date (rows df))"

definition orb_confidence :: "AgentConfig \<Rightarrow> Context \<Rightarrow> real \<Rightarrow> real \<Rightarrow> timestamp \<Rightarrow> real" where
  "orb_confidence cfg ctx or_high or_low idx =
     (let conf0 = 0.5;
          vol = series_get (ctx_volume ctx) idx (Some 0);
          vol_avg = series_get (ctx_vol_sma ctx) idx (Some 1);
          conf1 = (case vol of
                     None \<Rightarrow> conf0
                   | Some v \<Rightarrow>
                       (case vol_avg of
                          None \<Rightarrow> conf0
                        | Some a \<Rightarrow> if a > 0 then (if v > 1.5 * a then conf0 + 0.15 else conf0)
                                    else conf0));
          adx_at = series_get (ctx_adx ctx) idx (Some 0);
          conf2 = (case adx_at of
                     None \<Rightarrow> conf1
                   | Some x \<Rightarrow> if x > adx_trend_threshold cfg then conf1 + 0.15 else conf1);
          or_range = or_high - or_low;
          conf3 = (if or_range > 0 then
                     (case series_get (ctx_atr ctx) idx (Some or_range) of
                        None \<Rightarrow> conf2
                      | Some a \<Rightarrow> if or_range < a then conf2 + 0.1 else conf2)
                   else conf2)
      in min conf3 1.0)"

text \<open>
  The bars of one day after the opening range, as \<^verbatim>\<open>_detect_orb_long\<close> and
  \<^verbatim>\<open>_detect_orb_short\<close> compute them. The date comes from the frame, so the day has bars.
\<close>

definition post_opening_range :: "AgentConfig \<Rightarrow> DataFrame \<Rightarrow> int \<Rightarrow> Bar list" where
  "post_opening_range cfg df d =
     (let day_bars = filter (\<lambda>b. date_of (index b) = d) (rows df)
      in case day_bars of
           [] \<Rightarrow> []
         | first_bar # _ \<Rightarrow>
             (let cutoff_time = index first_bar + orb_minutes cfg
              in filter (\<lambda>b. index b > cutoff_time) day_bars))"

text \<open>
  The body of the loop over the days in \<^verbatim>\<open>_detect_orb_long\<close>: the inner loop runs over
  \<open>i = 1, ..., len(post_or) - 1\<close> and breaks at the first \<open>i\<close> whose bar closes above the
  threshold while the bar before it did not.
\<close>

definition orb_long_cross :: "real \<Rightarrow> Bar list \<Rightarrow> nat \<Rightarrow> bool" where
  "orb_long_cross threshold post_or i =
     (close (post_or ! (i - 1)) \<le> threshold \<and> close (post_or ! i) > threshold)"

definition orb_long_day :: "AgentConfig \<Rightarrow> Context \<Rightarrow> int \<times> real \<times> real \<Rightarrow> Signal list" where
  "orb_long_day cfg ctx item =
     (let d = fst item; or_high = fst (snd item); or_low = snd (snd item);
          post_or = post_opening_range cfg (ctx_df ctx) d;
          threshold = or_high + orb_breakout_buffer cfg
      in case find (orb_long_cross threshold post_or) [1 ..< length post_or] of
           None \<Rightarrow> []
         | Some i \<Rightarrow>
             [\<lparr> timestamp = index (post_or ! i),
                pattern = ''opening_range_breakout'',
                direction = LONG,
                confidence = orb_confidence cfg ctx or_high or_low (index (post_or ! i)),
                entry_price = close (post_or ! i),
                stop_price = or_high - 0.5 * (or_high - or_low),
                target_price = close (post_or ! i) + 1.5 * (or_high - or_low) \<rparr>])"

definition detect_orb_long :: "AgentConfig \<Rightarrow> Context \<Rightarrow> Signal list" where
  "detect_orb_long cfg ctx =
     concat (map (orb_long_day cfg ctx) (get_opening_range cfg (ctx_df ctx)))"

definition orb_short_cross :: "real \<Rightarrow> Bar list \<Rightarrow> nat \<Rightarrow> bool" where
  "orb_short_cross threshold post_or i =
     (close (post_or ! (i - 1)) \<ge> threshold \<and> close (post_or ! i) < threshold)"

definition orb_short_day :: "AgentConfig \<Rightarrow> Context \<Rightarrow> int \<times> real \<times> real \<Rightarrow> Signal list" where
  "orb_short_day cfg ctx item =
     (let d = fst item; or_high = fst (snd item); or_low = snd (snd item);
          post_or = post_opening_range cfg (ctx_df ctx) d;
          threshold = or_low - orb_breakout_buffer cfg
      in case find (orb_short_cross threshold post_or) [1 ..< length post_or] of
           None \<Rightarrow> []
         | Some i \<Rightarrow>
             [\<lparr> timestamp = index (post_or ! i),
                pattern = ''opening_range_breakdown'',
                direction = SHORT,
                confidence = orb_confidence cfg ctx or_high or_low (index (post_or ! i)),
                entry_price = close (post_or ! i),
                stop_price = or_low + 0.5 * (or_high - or_low),
                target_price = close (post_or ! i) - 1.5 * (or_high - or_low) \<rparr>])"

definition detect_orb_short :: "AgentConfig \<Rightarrow> Context \<Rightarrow> Signal list" where
  "detect_orb_short cfg ctx =
     concat (map (orb_short_day cfg ctx) (get_opening_range cfg (ctx_df ctx)))"

text \<open>
  The body of the loop over the days in \<^verbatim>\<open>_detect_gap_fill_long\<close>: after a gap down of
  more than 0.50 the inner loop runs over \<open>i = 2, ..., min(len(group), 12) - 1\<close> and breaks
  at the first bar that closes above the bar before it.
\<close>

definition close_rises :: "Bar list \<Rightarrow> nat \<Rightarrow> bool" where
  "close_rises grp i = (close (grp ! i) > close (grp ! (i - 1)))"

definition close_falls :: "Bar list \<Rightarrow> nat \<Rightarrow> bool" where
  "close_falls grp i = (close (grp ! i) < close (grp ! (i - 1)))"

definition gap_fill_long_day :: "Context \<Rightarrow> int \<times> Bar list \<Rightarrow> Signal list" where
  "gap_fill_long_day ctx dg =
     (let grp = snd dg
      in if length grp < 3 then []
         else
           (let first_bar = grp ! 0
            in case prev_close first_bar of
                 None \<Rightarrow> []
               | Some pc \<Rightarrow>
                   (let gap = bar_open first_bar - pc
                    in if gap < - 0.5 then
                         (case find (close_rises grp) [2 ..< min (length grp) 12] of
                            None \<Rightarrow> []
                          | Some i \<Rightarrow>
                              [\<lparr> timestamp = index (grp ! i),
                                 pattern = ''gap_fill_long'',
                                 direction = LONG,
                                 confidence = 0.6,
                                 entry_price = close (grp ! i),
                                 stop_price = array_min (map low (take (i + 1) grp)),
                                 target_price = pc \<rparr>])
                       else [])))"

definition detect_gap_fill_long :: "AgentConfig \<Rightarrow> Context \<Rightarrow> Signal list" where
  "detect_gap_fill_long cfg ctx =
     (if ''prev_close'' \<notin> set (columns (ctx_df ctx)) then []
      else concat (map (gap_fill_long_day ctx) (groupby_date (rows (ctx_df ctx)))))"

definition gap_fill_short_day :: "Context \<Rightarrow> int \<times> Bar list \<Rightarrow> Signal list" where
  "gap_fill_short_day ctx dg =
     (let grp = snd dg
      in if length grp < 3 then []
         else
           (let first_bar = grp ! 0
            in case prev_close first_bar of
                 None \<Rightarrow> []
               | Some pc \<Rightarrow>
                   (let gap = bar_open first_bar - pc
                    in if gap > 0.5 then
                         (case find (close_falls grp) [2 ..< min (length grp) 12] of
                            None \<Rightarrow> []
                          | Some i \<Rightarrow>
                              [\<lparr> timestamp = index (grp ! i),
                                 pattern = ''gap_fill_short'',
                                 direction = SHORT,
                                 confidence = 0.6,
                                 entry_price = close (grp ! i),
                                 stop_price = array_max (map high (take (i + 1) grp)),
                                 target_price = pc \<rparr>])
                       else [])))"

definition detect_gap_fill_short :: "AgentConfig \<Rightarrow> Context \<Rightarrow> Signal list" where
  "detect_gap_fill_short cfg ctx =
     (if ''prev_close'' \<notin> set (columns (ctx_df ctx)) then []
      else concat (map (gap_fill_short_day ctx) (groupby_date (rows (ctx_df ctx)))))"

text \<open>
  \<^verbatim>\<open>_detect_prev_high_break\<close> and \<^verbatim>\<open>_detect_prev_low_break\<close>: one loop over all rows of
  the frame, \<open>i = 1, ..., len(df) - 1\<close>, with no grouping by day and no \<^verbatim>\<open>break\<close>.
\<close>

definition prev_high_cross :: "Bar list \<Rightarrow> nat \<Rightarrow> bool" where
  "prev_high_cross bars i =
     (case prev_high (bars ! i) of
        None \<Rightarrow> False
      | Some ph \<Rightarrow> close (bars ! (i - 1)) \<le> ph \<and> close (bars ! i) > ph)"

definition prev_high_signal :: "Context \<Rightarrow> Bar list \<Rightarrow> nat \<Rightarrow> Signal" where
  "prev_high_signal ctx bars i =
     (let idx = index (bars ! i);
          ph = (case prev_high (bars ! i) of None \<Rightarrow> 0 | Some v \<Rightarrow> v);
          a = atr_at ctx idx
      in \<lparr> timestamp = idx,
           pattern = ''previous_day_high_break'',
           direction = LONG,
           confidence = 0.65,
           entry_price = close (bars ! i),
           stop_price = ph - a * 0.3,
           target_price = close (bars ! i) + a \<rparr>)"

definition detect_prev_high_break :: "AgentConfig \<Rightarrow> Context \<Rightarrow> Signal list" where
  "detect_prev_high_break cfg ctx =
     (let bars = rows (ctx_df ctx)
      in if ''prev_high'' \<notin> set (columns (ctx_df ctx)) then []
         else map (prev_high_signal ctx bars) (filter (prev_high_cross bars) [1 ..< length bars]))"

definition prev_low_cross :: "Bar list \<Rightarrow> nat \<Rightarrow> bool" where
  "prev_low_cross bars i =
     (case prev_low (bars ! i) of
        None \<Rightarrow> False
      | Some pl \<Rightarrow> close (bars ! (i - 1)) \<ge> pl \<and> close (bars ! i) < pl)"

definition prev_low_signal :: "Context \<Rightarrow> Bar list \<Rightarrow> nat \<Rightarrow> Signal" where
  "prev_low_signal ctx bars i =
     (let idx = index (bars ! i);
          pl = (case prev_low (bars ! i) of None \<Rightarrow> 0 | Some v \<Rightarrow> v);
          a = atr_at ctx idx
      in \<lparr> timestamp = idx,
           pattern = ''previous_day_low_break'',
           direction = SHORT,
           confidence = 0.65,
           entry_price = close (bars ! i),
           stop_price = pl + a * 0.3,
           target_price = close (bars ! i) - a \<rparr>)"

definition detect_prev_low_break :: "AgentConfig \<Rightarrow> Context \<Rightarrow> Signal list" where
  "detect_prev_low_break cfg ctx =
     (let bars = rows (ctx_df ctx)
      in if ''prev_low'' \<notin> set (columns (ctx_df ctx)) then []
         else map (prev_low_signal ctx bars) (filter (prev_low_cross bars) [1 ..< length bars]))"

text \<open>
  The two MACD detectors start from 0.55 and add 0.1 when the ADX at the bar is above the
  threshold; a nan compares false.
\<close>

definition macd_confidence :: "AgentConfig \<Rightarrow> Context \<Rightarrow> timestamp \<Rightarrow> real" where
  "macd_confidence cfg ctx idx =
     (let conf = 0.55
      in case series_get (ctx_adx ctx) idx (Some 0) of
           None \<Rightarrow> conf
         | Some x \<Rightarrow> if x > adx_trend_threshold cfg then conf + 0.1 else conf)"

text \<open>
  The \<^verbatim>\<open>confidence=\<close> argument of every \<^verbatim>\<open>Signal(...)\<close> call in patterns.py, by the pattern
  tag of the call: the two opening-range detectors call \<^verbatim>\<open>_orb_confidence\<close>, the two MACD
  detectors compute it as above, and the other 22 tags pass a literal. \<open>None\<close> is a tag
  that no detector emits.
\<close>

definition emitted_confidence ::
  "AgentConfig \<Rightarrow> Context \<Rightarrow> real \<Rightarrow> real \<Rightarrow> timestamp \<Rightarrow> string \<Rightarrow> real option" where
  "emitted_confidence cfg ctx or_high or_low idx tag =
     (if tag \<in> set [''opening_range_breakout'', ''opening_range_breakdown'']
      then Some (orb_confidence cfg ctx or_high or_low idx)
      else if tag \<in> set [''macd_bullish_cross'', ''macd_bearish_cross'']
      then Some (macd_confidence cfg ctx idx)
      else if tag \<in> set [''vwap_rejection_long'', ''vwap_rejection_short'',
                          ''bollinger_squeeze_breakout'', ''previous_day_high_break'',
                          ''previous_day_low_break'', ''double_bottom'', ''double_top'']
      then Some 0.65
      else if tag \<in> set [''vwap_crossover_long'', ''vwap_crossover_short'',
                          ''ema_bullish_cross'', ''ema_bearish_cross'']
      then Some 0.55
      else if tag \<in> set [''rsi_oversold_bounce'', ''rsi_overbought_fade'',
                          ''volume_spike_continuation'', ''mean_reversion_long'',
                          ''mean_reversion_short'', ''gap_fill_long'', ''gap_fill_short'',
                          ''midday_reversal'', ''power_hour_momentum'', ''support_bounce'',
                          ''resistance_rejection'']
      then Some 0.6
      else None)"

text \<open>
  \<^verbatim>\<open>scan\<close>. The indicator pre-computation of lines 78 to 106 stands outside the
  \<^verbatim>\<open>try\<close> and is the parameter \<open>build_ctx\<close>; the table of detectors is the parameter
  \<open>detectors\<close>. A detector returns its signals or raises an exception (\<open>Inl\<close>), which
  \<^verbatim>\<open>except Exception: pass\<close> drops. \<^verbatim>\<open>signals.sort(key=...)\<close> is a stable sort.
\<close>

fun scan_loop ::
  "string list \<Rightarrow> Context \<Rightarrow> (string \<times> (Context \<Rightarrow> error + Signal list)) list \<Rightarrow> Signal list
     \<Rightarrow> Signal list" where
  "scan_loop enabled ctx [] signals = signals"
| "scan_loop enabled ctx ((name, detector) # rest) signals =
     (if name \<in> set enabled then
        (case detector ctx of
           Inr pattern_signals \<Rightarrow> scan_loop enabled ctx rest (signals @ pattern_signals)
         | Inl e \<Rightarrow> scan_loop enabled ctx rest signals)
      else scan_loop enabled ctx rest signals)"

definition scan ::
  "(DataFrame \<Rightarrow> series option \<Rightarrow> error + Context)
     \<Rightarrow> (string \<times> (Context \<Rightarrow> error + Signal list)) list
     \<Rightarrow> AgentConfig \<Rightarrow> DataFrame \<Rightarrow> series option \<Rightarrow> error + Signal list" where
  "scan build_ctx detectors cfg df vwap =
     (case build_ctx df vwap of
        Inl e \<Rightarrow> Inl e
      | Inr ctx \<Rightarrow>
          Inr (sort_key timestamp (scan_loop (enabled_patterns cfg) ctx detectors [])))"

text \<open>What one entry of the detector table contributes to a scan of \<open>ctx\<close>.\<close>

definition detector_output ::
  "Context \<Rightarrow> string \<times> (Context \<Rightarrow> error + Signal list) \<Rightarrow> Signal list" where
  "detector_output ctx nd = (case snd nd ctx of Inl e \<Rightarrow> [] | Inr sigs \<Rightarrow> sigs)"

section \<open>Inputs for the examples\<close>

text \<open>
  A signal at 09:30 of the day that \<open>ts\<close> lies in, a frame without bars, the premium the
  pricer quotes for that signal under the default configuration, and the trade the
  simulator opens on it.
\<close>

definition example_signal :: "timestamp \<Rightarrow> Signal" where
  "example_signal ts =
     \<lparr> timestamp = ts, pattern = ''opening_range_breakout'', direction = LONG,
       confidence = 0.7, entry_price = 450, stop_price = 449.5, target_price = 451.5 \<rparr>"

definition empty_frame :: DataFrame where
  "empty_frame = \<lparr> rows = [], columns = [''open'', ''high'', ''low'', ''close'', ''volume''] \<rparr>"

definition example_premium :: real where
  "example_premium = projr (black_scholes_price 450 450 (1 / 252) 0.05 0.375 CALL)"

definition example_trade :: "timestamp \<Rightarrow> OptionTrade" where
  "example_trade ts =
     \<lparr> entry_time = ts, exit_time = Some ts, option_type = CALL, strike = 450,
       entry_underlying = 450, exit_underlying = Some 450,
       entry_premium = example_premium, exit_premium = Some 0, contracts = 1,
       trade_pattern = ''opening_range_breakout'', trade_direction = ''LONG'',
       iv = 0.375 \<rparr>"

definition closed_trade :: "real \<Rightarrow> real \<Rightarrow> int \<Rightarrow> OptionTrade" where
  "closed_trade p q n =
     \<lparr> entry_time = 570, exit_time = Some 600, option_type = CALL, strike = 450,
       entry_underlying = 450, exit_underlying = Some 451, entry_premium = p,
       exit_premium = Some q, contracts = n, trade_pattern = ''opening_range_breakout'',
       trade_direction = ''LONG'', iv = 0.375 \<rparr>"

definition example_result :: "OptionTrade list \<Rightarrow> BacktestResult" where
  "example_result ts =
     \<lparr> trades = ts, result_initial_capital = 10000, final_capital = 10000,
       config = default_config \<rparr>"

text \<open>
  Bars of day 0 at five-minute steps from 09:30, with a previous day of high 100, low 98
  and close 99, and a context over them: volume 2000 against an average of 1000, an ADX
  that is nan and an ATR of 1. In \<open>crossing_bars\<close> the close crosses 100 upwards twice. In
  \<open>breakout_bars\<close> the opening range is 450.50 to 451.00 and the close crosses
  451.10 upwards at 09:55 and again at 10:05. In \<open>gap_bars\<close> the day opens 0.80 under the
  previous close and the third bar closes at that close.
\<close>

definition example_bar :: "timestamp \<Rightarrow> real \<Rightarrow> real \<Rightarrow> real \<Rightarrow> Bar" where
  "example_bar ts h l c =
     \<lparr> index = ts, bar_open = c, high = h, low = l, close = c, volume = 2000,
       prev_high = Some 100, prev_low = Some 98, prev_close = Some 99 \<rparr>"

definition example_context :: "Bar list \<Rightarrow> Context" where
  "example_context bars =
     \<lparr> ctx_df = \<lparr> rows = bars,
                   columns = [''open'', ''high'', ''low'', ''close'', ''volume'',
                              ''prev_open'', ''prev_high'', ''prev_low'', ''prev_close''] \<rparr>,
       ctx_volume = (\<lambda>t. Some (Some 2000)),
       ctx_vol_sma = (\<lambda>t. Some (Some 1000)),
       ctx_adx = (\<lambda>t. Some None),
       ctx_atr = (\<lambda>t. Some (Some 1)) \<rparr>"

definition crossing_bars :: "Bar list" where
  "crossing_bars =
     [example_bar 570 99.5 98.5 99, example_bar 575 101.5 99 101,
      example_bar 580 101 98.5 99, example_bar 585 101.5 99 101]"

definition breakout_bars :: "Bar list" where
  "breakout_bars =
     [example_bar 570 451.0 450.6 450.8, example_bar 575 450.9 450.5 450.7,
      example_bar 580 450.9 450.6 450.8, example_bar 585 451.0 450.7 450.9,
      example_bar 590 451.1 450.8 451.0, example_bar 595 451.4 451.0 451.3,
      example_bar 600 451.3 450.9 451.0, example_bar 605 451.6 451.0 451.5]"

definition gap_bars :: "Bar list" where
  "gap_bars =
     [example_bar 570 98.3 97.9 98.2, example_bar 575 98.3 98.0 98.1,
      example_bar 580 99.1 98.1 99.0]"

definition breakout_signal :: Signal where
  "breakout_signal =
     \<lparr> timestamp = 595, pattern = ''opening_range_breakout'', direction = LONG,
       confidence = 0.75, entry_price = 451.3, stop_price = 450.75,
       target_price = 452.05 \<rparr>"

definition gap_signal :: Signal where
  "gap_signal =
     \<lparr> timestamp = 580, pattern = ''gap_fill_long'', direction = LONG,
       confidence = 0.6, entry_price = 99, stop_price = 97.9, target_price = 99 \<rparr>"

definition example_build_ctx :: "DataFrame \<Rightarrow> series option \<Rightarrow> error + Context" where
  "example_build_ctx df vwap = Inr (example_context (rows df))"

definition orb_detector :: "Context \<Rightarrow> error + Signal list" where
  "orb_detector ctx = Inr (detect_orb_long default_config ctx)"

definition failing_detector :: "Context \<Rightarrow> error + Signal list" where
  "failing_detector ctx = Inl DetectorError"

text \<open>A detector that reports a given list of signals, in the order given.\<close>

definition fixed_detector :: "Signal list \<Rightarrow> Context \<Rightarrow> error + Signal list" where
  "fixed_detector sigs ctx = Inr sigs"

text \<open>
  The mirror images: in \<open>breakdown_bars\<close> the close crosses 450.40 downwards at 09:55 and
  again at 10:05; in \<open>gap_up_bars\<close> the day opens 1.00 above the previous close and the
  third bar is the first to close lower.
\<close>

definition breakdown_bars :: "Bar list" where
  "breakdown_bars =
     [example_bar 570 451.0 450.6 450.8, example_bar 575 450.9 450.5 450.7,
      example_bar 580 450.9 450.6 450.8, example_bar 585 451.0 450.7 450.9,
      example_bar 590 450.8 450.5 450.6, example_bar 595 450.6 450.2 450.3,
      example_bar 600 450.6 450.3 450.5, example_bar 605 450.5 450.1 450.2]"

definition breakdown_signal :: Signal where
  "breakdown_signal =
     \<lparr> timestamp = 595, pattern = ''opening_range_breakdown'', direction = SHORT,
       confidence = 0.75, entry_price = 450.3, stop_price = 450.75,
       target_price = 449.55 \<rparr>"

definition gap_up_bars :: "Bar list" where
  "gap_up_bars =
     [example_bar 570 100.2 99.8 100, example_bar 575 100.3 100 100.2,
      example_bar 580 100.2 100 100.1]"

definition gap_up_signal :: Signal where
  "gap_up_signal =
     \<lparr> timestamp = 580, pattern = ''gap_fill_short'', direction = SHORT,
       confidence = 0.6, entry_price = 100.1, stop_price = 100.3, target_price = 99 \<rparr>"

section \<open>Integrals of powers of the cosine\<close>

text \<open>
  \<open>cos_int m t\<close> is the integral of \<open>cos ^ m\<close> from \<open>0\<close> to \<open>t\<close>, given by the reduction
  formula, and \<open>wallis m\<close> is its value at \<open>pi / 2\<close>. They bound the distribution function
  of the normal law in the study of the pricer.
\<close>

fun cos_int :: "nat \<Rightarrow> real \<Rightarrow> real" where
  "cos_int 0 t = t"
| "cos_int (Suc 0) t = sin t"
| "cos_int (Suc (Suc m)) t =
     (cos t ^ Suc m * sin t + real (Suc m) * cos_int m t) / real (Suc (Suc m))"

definition wallis :: "nat \<Rightarrow> real" where
  "wallis m = cos_int m (pi / 2)"

section \<open>Pricing at and before expiry\<close>

lemma black_scholes_price_expired:
  "T \<le> 0 \<Longrightarrow>
   black_scholes_price S K T r sigma ot =
     Inr (if ot = CALL then max (S - K) 0 else max (K - S) 0)"
  by (simp add: black_scholes_price_def)

lemma black_scholes_price_floor:
  assumes "black_scholes_price S K T r sigma ot = Inr p" and "0 < T"
  shows "0.01 \<le> p"
  using assms
  by (auto simp: black_scholes_price_def Let_def split: if_splits)

lemma black_scholes_price_returns:
  assumes "0 < T" and "0 < S" and "0 < K" and "sigma \<noteq> 0"
  shows "\<exists>p. black_scholes_price S K T r sigma ot = Inr p"
proof -
  have "0 < S / K" using assms by simp
  then have "\<not> S / K \<le> 0" by simp
  moreover have "sqrt T \<noteq> 0" using assms by simp
  ultimately show ?thesis
    using assms by (simp add: black_scholes_price_def Let_def)
qed

text \<open>
  C6. For every S, K, r, sigma and option kind: with \<open>T \<le> 0\<close> the pricer returns the
  intrinsic value exactly, \<open>max (S - K) 0\<close> for a call and \<open>max (K - S) 0\<close> for a put (for
  S = 450 and K = 445 a call is worth 5 and a put 0); with \<open>T > 0\<close> every price it
  returns is at least 0.01, and it does return one whenever S and K are positive and
  sigma is not zero.
\<close>

theorem C6_intrinsic_at_expiry_and_floor:
  "(T \<le> 0 \<longrightarrow> black_scholes_price S K T r sigma CALL = Inr (max (S - K) 0)
          \<and> black_scholes_price S K T r sigma PUT = Inr (max (K - S) 0))
   \<and> black_scholes_price 450 445 0 r sigma CALL = Inr 5
   \<and> black_scholes_price 450 445 0 r sigma PUT = Inr 0
   \<and> (0 < T \<longrightarrow> (\<forall>p. black_scholes_price S K T r sigma ot = Inr p \<longrightarrow> 0.01 \<le> p))
   \<and> (0 < T \<and> 0 < S \<and> 0 < K \<and> sigma \<noteq> 0 \<longrightarrow>
        (\<exists>p. black_scholes_price S K T r sigma ot = Inr p \<and> 0.01 \<le> p))"
proof -
  have a: "T \<le> 0 \<longrightarrow> black_scholes_price S K T r sigma CALL = Inr (max (S - K) 0)
          \<and> black_scholes_price S K T r sigma PUT = Inr (max (K - S) 0)"
    by (simp add: black_scholes_price_expired)
  have b: "black_scholes_price 450 445 0 r sigma CALL = Inr 5"
    by (simp add: black_scholes_price_expired)
  have c: "black_scholes_price 450 445 0 r sigma PUT = Inr 0"
    by (simp add: black_scholes_price_expired)
  have d: "0 < T \<longrightarrow> (\<forall>p. black_scholes_price S K T r sigma ot = Inr p \<longrightarrow> 0.01 \<le> p)"
    using black_scholes_price_floor by blast
  have e: "0 < T \<and> 0 < S \<and> 0 < K \<and> sigma \<noteq> 0 \<longrightarrow>
        (\<exists>p. black_scholes_price S K T r sigma ot = Inr p \<and> 0.01 \<le> p)"
    using black_scholes_price_returns black_scholes_price_floor by blast
  from a b c d e show ?thesis by blast
qed

theorem C6_intrinsic_at_expiry_and_floor_witness:
  "black_scholes_price 450 445 (- 1) 0.05 0.2 CALL = Inr 5
   \<and> black_scholes_price 450 445 (- 1) 0.05 0.2 PUT = Inr 0
   \<and> (\<exists>p. black_scholes_price 450 445 (1 / 252) 0.05 0.2 PUT = Inr p \<and> 0.01 \<le> p)"
  using C6_intrinsic_at_expiry_and_floor [of "- 1" 450 445 "0.05" "0.2" PUT]
        C6_intrinsic_at_expiry_and_floor [of "1 / 252" 450 445 "0.05" "0.2" PUT]
  by simp

section \<open>The result aggregator\<close>

lemma fold_min_le: "fold min xs (x::real) \<le> x"
proof (induction xs arbitrary: x)
  case Nil then show ?case by simp
next
  case (Cons y ys)
  have "fold min ys (min y x) \<le> min y x" using Cons.IH .
  then show ?case by simp
qed

lemma drawdown_head:
  "drawdown_array (equity_from e ts) (maximum_accumulate (equity_from e ts)) \<noteq> [] \<and>
   hd (drawdown_array (equity_from e ts) (maximum_accumulate (equity_from e ts))) = 0"
  by (cases ts) (simp_all add: drawdown_array_def)

lemma array_min_le_hd: "xs \<noteq> [] \<Longrightarrow> array_min xs \<le> hd xs"
  by (cases xs) (simp_all add: fold_min_le)

lemma max_drawdown_nonpos:
  assumes "max_drawdown res = Some v" shows "v \<le> 0"
proof (cases "trades res = []")
  case True
  with assms show ?thesis by (simp add: max_drawdown_def)
next
  case False
  let ?eq = "equity_from (result_initial_capital res) (trades res)"
  from assms False have "v = array_min (drawdown_array ?eq (maximum_accumulate ?eq))"
    by (simp add: max_drawdown_def Let_def split: if_splits)
  also have "\<dots> \<le> hd (drawdown_array ?eq (maximum_accumulate ?eq))"
    using drawdown_head array_min_le_hd by blast
  also have "\<dots> = 0" using drawdown_head by blast
  finally show ?thesis .
qed

lemma accumulate_from_ge: "x \<in> set (accumulate_from m xs) \<Longrightarrow> m \<le> x"
proof (induction xs arbitrary: m)
  case Nil then show ?case by simp
next
  case (Cons y ys)
  from Cons.prems have "x = max m y \<or> x \<in> set (accumulate_from (max m y) ys)" by simp
  then show ?case
  proof
    assume "x = max m y" then show ?thesis by simp
  next
    assume "x \<in> set (accumulate_from (max m y) ys)"
    from Cons.IH[OF this] show ?thesis by simp
  qed
qed

lemma peak_ge_initial:
  "x \<in> set (maximum_accumulate (equity_from e ts)) \<Longrightarrow> e \<le> x"
  by (cases ts) (auto dest: accumulate_from_ge)

lemma max_drawdown_defined:
  assumes "0 < result_initial_capital res"
  shows "\<exists>v. max_drawdown res = Some v"
proof -
  have "0 \<notin> set (maximum_accumulate (equity_from (result_initial_capital res) (trades res)))"
    using peak_ge_initial assms by fastforce
  then show ?thesis by (simp add: max_drawdown_def Let_def)
qed

text \<open>
  C9. For a BacktestResult whose trade list is empty, win_rate, total_pnl, max_drawdown
  and sharpe_ratio are all 0: each of them returns before its division (the sum of
  \<^verbatim>\<open>total_pnl\<close> over no trades is 0).
\<close>

theorem C9_empty_result_is_all_zero:
  assumes "trades res = []"
  shows "win_rate res = 0 \<and> result_total_pnl res = 0 \<and> max_drawdown res = Some 0
         \<and> sharpe_ratio res = 0"
  using assms
  by (simp add: win_rate_def total_trades_def result_total_pnl_def max_drawdown_def
      sharpe_ratio_def)

theorem C9_empty_result_is_all_zero_witness:
  "trades (example_result []) = []
   \<and> win_rate (example_result []) = 0 \<and> result_total_pnl (example_result []) = 0
   \<and> max_drawdown (example_result []) = Some 0 \<and> sharpe_ratio (example_result []) = 0"
proof -
  have e: "trades (example_result []) = []" by (simp add: example_result_def)
  from e C9_empty_result_is_all_zero[OF e] show ?thesis by blast
qed

text \<open>
  C10. For every trade list the max_drawdown of a BacktestResult is at most 0: it is the
  minimum of (equity - running peak) / running peak * 100 over the equity curve, whose
  first entry is 0. It is a number whenever the initial capital is positive; with an
  initial capital of 10000, a trade that wins 100 and one that loses 200 give -200/101.
\<close>

theorem C10_max_drawdown_nonpositive:
  "(\<forall>v. max_drawdown res = Some v \<longrightarrow> v \<le> 0)
   \<and> (0 < result_initial_capital res \<longrightarrow> (\<exists>v. max_drawdown res = Some v \<and> v \<le> 0))"
proof -
  have a: "\<forall>v. max_drawdown res = Some v \<longrightarrow> v \<le> 0"
    using max_drawdown_nonpos by blast
  have b: "0 < result_initial_capital res \<longrightarrow> (\<exists>v. max_drawdown res = Some v \<and> v \<le> 0)"
    using max_drawdown_nonpos max_drawdown_defined by blast
  from a b show ?thesis by blast
qed

theorem C10_max_drawdown_nonpositive_witness:
  "0 < result_initial_capital (example_result [closed_trade 2 3 1, closed_trade 2 0 1])
   \<and> max_drawdown (example_result [closed_trade 2 3 1, closed_trade 2 0 1]) = Some (- (200 / 101))
   \<and> (\<exists>v. max_drawdown (example_result [closed_trade 2 3 1, closed_trade 2 0 1]) = Some v
            \<and> v \<le> 0)"
proof -
  let ?r = "example_result [closed_trade 2 3 1, closed_trade 2 0 1]"
  have pos: "0 < result_initial_capital ?r" by (simp add: example_result_def)
  have val: "max_drawdown ?r = Some (- (200 / 101))"
    by (simp add: max_drawdown_def example_result_def closed_trade_def total_pnl_def
        pnl_per_contract_def drawdown_array_def)
  from C10_max_drawdown_nonpositive[of ?r] pos
  have "\<exists>v. max_drawdown ?r = Some v \<and> v \<le> 0" by blast
  with pos val show ?thesis by blast
qed

section \<open>Position sizing\<close>

text \<open>
  C3, at a capital of 100 with a position size of 5 percent and an entry premium of 2.00.
  One contract costs 200, more than the capital, and the largest affordable count is 0;
  the count is still 1, because the code takes the maximum with 1 after the shrink as
  well. No input makes the sizing reject a signal.
\<close>

theorem C3_unaffordable_signal_not_rejected:
  "position_contracts 100 5 2 = Some 1
   \<and> py_int (100 / (2 * 100)) = 0
   \<and> (100::real) < of_int 1 * 2 * 100
   \<and> (\<forall>capital size_pct entry_prem. position_contracts capital size_pct entry_prem \<noteq> None)"
proof -
  have a: "position_contracts 100 5 2 = Some 1"
    by (simp add: position_contracts_def py_int_def Let_def)
  have b: "py_int (100 / (2 * 100)) = 0" by (simp add: py_int_def)
  have c: "\<forall>capital size_pct entry_prem. position_contracts capital size_pct entry_prem \<noteq> None"
    by (auto simp: position_contracts_def Let_def max_def)
  from a b c show ?thesis by simp
qed

section \<open>The simulation loop\<close>

lemma position_contracts_some: "position_contracts capital pct premium \<noteq> None"
  by (auto simp: position_contracts_def Let_def max_def)

lemma open_trade_entry_time:
  "open_trade cfg df capital signal = Inr (Some trade) \<Longrightarrow> entry_time trade = timestamp signal"
  by (auto simp: open_trade_def Let_def split: sum.splits if_splits option.splits)

lemma simulate_loop_capital:
  "simulate_loop cfg df trds capital active sigs = Inr (ts, c) \<Longrightarrow>
   \<exists>new. ts = trds @ new \<and> c = foldl (settle cfg) capital new"
proof (induction sigs arbitrary: trds capital active)
  case Nil
  then show ?case by simp
next
  case (Cons signal rest)
  show ?case
  proof (cases "active = Some (date_of (timestamp signal))")
    case True
    with Cons.prems have "simulate_loop cfg df trds capital active rest = Inr (ts, c)" by simp
    from Cons.IH[OF this] show ?thesis .
  next
    case False
    show ?thesis
    proof (cases "open_trade cfg df capital signal")
      case (Inl e)
      with False Cons.prems show ?thesis by simp
    next
      case (Inr r)
      show ?thesis
      proof (cases r)
        case None
        with Inr False Cons.prems
        have "simulate_loop cfg df trds capital active rest = Inr (ts, c)" by simp
        from Cons.IH[OF this] show ?thesis .
      next
        case (Some trade)
        show ?thesis
        proof (cases "settle cfg capital trade \<le> 0")
          case True
          with Some Inr False Cons.prems
          have "ts = trds @ [trade]" and "c = settle cfg capital trade"
            by (simp_all add: Let_def)
          then show ?thesis by simp
        next
          case neg: False
          with Some Inr False Cons.prems
          have "simulate_loop cfg df (trds @ [trade]) (settle cfg capital trade)
                  (Some (date_of (timestamp signal))) rest = Inr (ts, c)"
            by (simp add: Let_def)
          from Cons.IH[OF this] obtain new where
            "ts = (trds @ [trade]) @ new" "c = foldl (settle cfg) (settle cfg capital trade) new"
            by blast
          then have "ts = trds @ (trade # new) \<and> c = foldl (settle cfg) capital (trade # new)"
            by simp
          then show ?thesis by blast
        qed
      qed
    qed
  qed
qed

lemma simulate_loop_dates:
  assumes "simulate_loop cfg df trds capital active sigs = Inr (ts, c)"
      and "sorted (map (\<lambda>s. date_of (timestamp s)) sigs)"
      and "distinct (map (\<lambda>t. date_of (entry_time t)) trds)"
      and "\<forall>t\<in>set trds. \<exists>a. active = Some a \<and> date_of (entry_time t) \<le> a"
      and "\<forall>a. active = Some a \<longrightarrow> (\<forall>s\<in>set sigs. a \<le> date_of (timestamp s))"
  shows "distinct (map (\<lambda>t. date_of (entry_time t)) ts)"
  using assms
proof (induction sigs arbitrary: trds capital active)
  case Nil
  then show ?case by simp
next
  case (Cons signal rest)
  let ?d = "date_of (timestamp signal)"
  have sorted_rest: "sorted (map (\<lambda>s. date_of (timestamp s)) rest)"
    and ge_rest: "\<forall>s\<in>set rest. ?d \<le> date_of (timestamp s)"
    using Cons.prems(2) by simp_all
  have act_rest: "\<forall>a. active = Some a \<longrightarrow> (\<forall>s\<in>set rest. a \<le> date_of (timestamp s))"
    using Cons.prems(5) by simp
  show ?case
  proof (cases "active = Some ?d")
    case True
    with Cons.prems(1) have "simulate_loop cfg df trds capital active rest = Inr (ts, c)" by simp
    from Cons.IH[OF this sorted_rest Cons.prems(3) Cons.prems(4) act_rest] show ?thesis .
  next
    case False
    show ?thesis
    proof (cases "open_trade cfg df capital signal")
      case (Inl e)
      with False Cons.prems(1) show ?thesis by simp
    next
      case (Inr r)
      show ?thesis
      proof (cases r)
        case None
        with Inr False Cons.prems(1)
        have "simulate_loop cfg df trds capital active rest = Inr (ts, c)" by simp
        from Cons.IH[OF this sorted_rest Cons.prems(3) Cons.prems(4) act_rest] show ?thesis .
      next
        case (Some trade)
        have et: "date_of (entry_time trade) = ?d"
          using open_trade_entry_time Inr Some by metis
        have lt: "\<forall>t\<in>set trds. date_of (entry_time t) < ?d"
        proof
          fix t assume t: "t \<in> set trds"
          with Cons.prems(4) obtain a where a: "active = Some a" "date_of (entry_time t) \<le> a"
            by blast
          with Cons.prems(5) have "a \<le> ?d" by simp
          moreover from a False have "a \<noteq> ?d" by simp
          ultimately show "date_of (entry_time t) < ?d" using a by simp
        qed
        have dist': "distinct (map (\<lambda>t. date_of (entry_time t)) (trds @ [trade]))"
          using Cons.prems(3) lt et by auto
        show ?thesis
        proof (cases "settle cfg capital trade \<le> 0")
          case True
          with Some Inr False Cons.prems(1) have "ts = trds @ [trade]" by (simp add: Let_def)
          with dist' show ?thesis by simp
        next
          case neg: False
          with Some Inr False Cons.prems(1)
          have run: "simulate_loop cfg df (trds @ [trade]) (settle cfg capital trade)
                  (Some ?d) rest = Inr (ts, c)"
            by (simp add: Let_def)
          have inv4: "\<forall>t\<in>set (trds @ [trade]). \<exists>a. Some ?d = Some a \<and> date_of (entry_time t) \<le> a"
            using lt et by auto
          have inv5: "\<forall>a. Some ?d = Some a \<longrightarrow> (\<forall>s\<in>set rest. a \<le> date_of (timestamp s))"
            using ge_rest by simp
          from Cons.IH[OF run sorted_rest dist' inv4 inv5] show ?thesis .
        qed
      qed
    qed
  qed
qed

lemma simulate_trades_distinct_dates:
  assumes "sorted (map (\<lambda>s. date_of (timestamp s)) signals)"
      and "simulate_trades cfg signals df = Inr ts"
  shows "distinct (map (\<lambda>t. date_of (entry_time t)) ts)"
proof -
  from assms(2) obtain c where
    "simulate_loop cfg df [] (initial_capital cfg) None signals = Inr (ts, c)"
    by (auto simp: simulate_trades_def split: sum.splits)
  from simulate_loop_dates[OF this assms(1)] show ?thesis by simp
qed

lemma sorted_timestamps_sorted_dates:
  "sorted (map timestamp signals) \<Longrightarrow> sorted (map (date_of \<circ> timestamp) signals)"
proof (induction signals)
  case Nil
  then show ?case by simp
next
  case (Cons s rest)
  have "date_of (timestamp s) \<le> date_of (timestamp x)" if "x \<in> set rest" for x
  proof -
    from Cons.prems that have "timestamp s \<le> timestamp x" by auto
    then show ?thesis unfolding date_of_def by (rule zdiv_mono1) simp
  qed
  with Cons show ?case by auto
qed

text \<open>
  The running capital follows the recurrence of the settlement step: after each trade it
  is the capital before it plus the trade's P&L, minus the round-trip commission and the
  slippage.
\<close>

lemma running_capital_recurrence:
  assumes "simulate_trades cfg signals df = Inr ts"
  shows "running_capital cfg signals df = Inr (foldl (settle cfg) (initial_capital cfg) ts)"
proof -
  from assms obtain c where
    r: "simulate_loop cfg df [] (initial_capital cfg) None signals = Inr (ts, c)"
    by (auto simp: simulate_trades_def split: sum.splits)
  from simulate_loop_capital[OF r] have "c = foldl (settle cfg) (initial_capital cfg) ts"
    by simp
  with r show ?thesis by (simp add: running_capital_def)
qed

text \<open>
  \<^verbatim>\<open>scan\<close> returns its signals sorted by timestamp, and \<^verbatim>\<open>run\<close> hands the simulator what
  is left of that list after the confidence filter, which keeps the order.
\<close>

lemma scan_sorted:
  assumes "scan build_ctx detectors cfg df vwap = Inr scanned"
  shows "sorted (map timestamp scanned)"
  using assms by (auto simp: scan_def split: sum.splits)

lemma run_trades:
  assumes "run cfg scanned df = Inr res"
  shows "simulate_trades cfg
           (filter (\<lambda>s. confidence s \<ge> min_pattern_confidence cfg) scanned) df
         = Inr (trades res)"
  using assms by (auto simp: run_def Let_def split: sum.splits)

text \<open>
  C5. In every backtest the signal stream that reaches the simulator is the output of
  \<^verbatim>\<open>scan\<close>, filtered by confidence. Whatever the frame, the detectors and the two
  configurations, the trades of the result have pairwise different entry dates: a
  signal on a day that already has a trade is ignored.
\<close>

theorem C5_one_trade_per_date:
  assumes "scan build_ctx detectors scan_cfg df vwap = Inr scanned"
      and "run cfg scanned df = Inr res"
  shows "distinct (map (date_of \<circ> entry_time) (trades res))"
proof -
  let ?signals = "filter (\<lambda>s. confidence s \<ge> min_pattern_confidence cfg) scanned"
  have "sorted (map timestamp scanned)" using assms(1) by (rule scan_sorted)
  then have "sorted (map timestamp ?signals)" by (rule sorted_filter)
  then have "sorted (map (date_of \<circ> timestamp) ?signals)"
    by (rule sorted_timestamps_sorted_dates)
  then have s: "sorted (map (\<lambda>s. date_of (timestamp s)) ?signals)" by (simp add: comp_def)
  from simulate_trades_distinct_dates[OF s run_trades[OF assms(2)]] show ?thesis
    by (simp add: comp_def)
qed

section \<open>Bounds on the normal distribution function\<close>

lemma norm_cdf_coeff_abs_le: "\<bar>norm_cdf_coeff m\<bar> \<le> 1 / fact m"
proof -
  have "(1::real) * 1 \<le> 2 ^ m * real (2 * m + 1)"
    by (intro mult_mono) simp_all
  then have "fact m * 1 \<le> fact m * (2 ^ m * real (2 * m + 1))"
    by (intro mult_left_mono) simp_all
  then have "(fact m :: real) \<le> fact m * 2 ^ m * real (2 * m + 1)"
    by (simp add: mult.assoc)
  moreover have "\<bar>norm_cdf_coeff m\<bar> = 1 / (fact m * 2 ^ m * real (2 * m + 1))"
    by (simp add: norm_cdf_coeff_def abs_divide)
  ultimately show ?thesis
    by (simp add: frac_le)
qed

lemma norm_cdf_series_summable: "summable (\<lambda>m. norm_cdf_coeff m * y ^ m)"
proof (rule summable_comparison_test')
  show "summable (\<lambda>m. norm (y ^ m /\<^sub>R fact m))" by (rule summable_norm_exp)
next
  fix m :: nat
  have "norm (norm_cdf_coeff m * y ^ m) = \<bar>norm_cdf_coeff m\<bar> * \<bar>y\<bar> ^ m"
    by (simp add: abs_mult power_abs)
  also have "\<dots> \<le> (1 / fact m) * \<bar>y\<bar> ^ m"
    by (intro mult_right_mono norm_cdf_coeff_abs_le) simp
  also have "\<dots> = norm (y ^ m /\<^sub>R fact m)"
    by (simp add: abs_mult power_abs divide_inverse)
  finally show "norm (norm_cdf_coeff m * y ^ m) \<le> norm (y ^ m /\<^sub>R fact m)" .
qed

lemma norm_cdf_0: "norm_cdf 0 = 1 / 2"
  by (simp add: norm_cdf_def)

lemma norm_cdf_coeff_Suc_abs_le: "\<bar>norm_cdf_coeff (Suc m)\<bar> \<le> 1 / (6 * fact m)"
proof -
  have a: "(fact m :: real) \<le> fact (Suc m)" by (simp add: fact_mono)
  have b: "(2::real) \<le> 2 ^ Suc m" by simp
  have c: "(3::real) \<le> real (2 * Suc m + 1)" by simp
  have "(fact m :: real) * 2 \<le> fact (Suc m) * 2 ^ Suc m"
    using a b by (intro mult_mono) simp_all
  then have "(fact m :: real) * 2 * 3 \<le> fact (Suc m) * 2 ^ Suc m * real (2 * Suc m + 1)"
    using c by (intro mult_mono) simp_all
  then have "6 * (fact m :: real) \<le> fact (Suc m) * 2 ^ Suc m * real (2 * Suc m + 1)"
    by simp
  moreover have "\<bar>norm_cdf_coeff (Suc m)\<bar>
      = 1 / (fact (Suc m) * 2 ^ Suc m * real (2 * Suc m + 1))"
    unfolding norm_cdf_coeff_def by (simp add: abs_divide del: fact_Suc power_Suc)
  ultimately show ?thesis
    by (simp add: frac_le del: fact_Suc power_Suc)
qed

lemma norm_cdf_series_near_1: "\<bar>norm_cdf_series y - 1\<bar> \<le> \<bar>y\<bar> * exp \<bar>y\<bar> / 6"
proof -
  let ?f = "\<lambda>m. norm_cdf_coeff m * y ^ m"
  let ?h = "\<lambda>m. \<bar>y\<bar> / 6 * (\<bar>y\<bar> ^ m /\<^sub>R fact m)"
  have sf: "summable ?f" by (rule norm_cdf_series_summable)
  have f0: "?f 0 = 1" by (simp add: norm_cdf_coeff_def)
  have split: "(\<Sum>m. ?f (Suc m)) = norm_cdf_series y - 1"
    using suminf_split_head[OF sf] f0 by (simp add: norm_cdf_series_def)
  have hs: "?h sums (\<bar>y\<bar> / 6 * exp \<bar>y\<bar>)"
    by (intro sums_mult exp_converges)
  have le: "\<bar>?f (Suc m)\<bar> \<le> ?h m" for m
  proof -
    have "\<bar>?f (Suc m)\<bar> = \<bar>norm_cdf_coeff (Suc m)\<bar> * (\<bar>y\<bar> * \<bar>y\<bar> ^ m)"
      by (simp add: abs_mult power_abs)
    also have "\<dots> \<le> 1 / (6 * fact m) * (\<bar>y\<bar> * \<bar>y\<bar> ^ m)"
      by (intro mult_right_mono norm_cdf_coeff_Suc_abs_le) simp
    also have "\<dots> = ?h m" by (simp add: field_simps)
    finally show ?thesis .
  qed
  have sh: "summable ?h" using hs by (rule sums_summable)
  have sa: "summable (\<lambda>m. \<bar>?f (Suc m)\<bar>)"
  proof (rule summable_comparison_test')
    show "summable ?h" by (rule sh)
  next
    fix n :: nat
    show "norm \<bar>?f (Suc n)\<bar> \<le> ?h n" using le[of n] by simp
  qed
  have "\<bar>\<Sum>m. ?f (Suc m)\<bar> \<le> (\<Sum>m. \<bar>?f (Suc m)\<bar>)"
    by (rule summable_rabs[OF sa])
  also have "\<dots> \<le> suminf ?h"
    using le sa sh by (rule suminf_le)
  also have "\<dots> = \<bar>y\<bar> / 6 * exp \<bar>y\<bar>" using hs by (rule sums_unique[symmetric])
  finally show ?thesis using split by simp
qed

lemma norm_cdf_near_half:
  assumes "\<bar>x\<bar> \<le> 1"
  shows "\<bar>norm_cdf x - 1 / 2 - x / sqrt (2 * pi)\<bar> \<le> \<bar>x\<bar> * (x * x) / 4"
proof -
  have "\<bar>x\<bar> * \<bar>x\<bar> \<le> 1 * 1" using assms by (intro mult_mono) simp_all
  then have y1: "\<bar>x * x\<bar> \<le> 1" by (simp add: abs_mult)
  have "exp \<bar>x * x\<bar> \<le> exp 1" using y1 by simp
  also have "\<dots> \<le> 3" by (rule exp_le)
  finally have e3: "exp \<bar>x * x\<bar> \<le> 3" .
  have g: "\<bar>norm_cdf_series (x * x) - 1\<bar> \<le> \<bar>x * x\<bar> * 3 / 6"
  proof -
    have "\<bar>norm_cdf_series (x * x) - 1\<bar> \<le> \<bar>x * x\<bar> * exp \<bar>x * x\<bar> / 6"
      by (rule norm_cdf_series_near_1)
    also have "\<dots> \<le> \<bar>x * x\<bar> * 3 / 6"
      using e3 by (intro divide_right_mono mult_left_mono) simp_all
    finally show ?thesis .
  qed
  have s2: "2 \<le> sqrt (2 * pi)"
  proof -
    have "sqrt 4 \<le> sqrt (2 * pi)" using pi_ge_two by (intro real_sqrt_le_mono) simp
    then show ?thesis by simp
  qed
  have "norm_cdf x - 1 / 2 - x / sqrt (2 * pi) = x * (norm_cdf_series (x * x) - 1) / sqrt (2 * pi)"
    by (simp add: norm_cdf_def field_simps)
  then have "\<bar>norm_cdf x - 1 / 2 - x / sqrt (2 * pi)\<bar>
      = \<bar>x\<bar> * \<bar>norm_cdf_series (x * x) - 1\<bar> / sqrt (2 * pi)"
    by (simp add: abs_mult)
  also have "\<dots> \<le> \<bar>x\<bar> * (\<bar>x * x\<bar> * 3 / 6) / sqrt (2 * pi)"
    using g by (intro divide_right_mono mult_left_mono) simp_all
  also have "\<dots> \<le> \<bar>x\<bar> * (\<bar>x * x\<bar> * 3 / 6) / 2"
    using s2 by (intro divide_left_mono) (simp_all add: abs_mult)
  also have "\<dots> = \<bar>x\<bar> * (x * x) / 4" by (simp add: abs_mult)
  finally show ?thesis .
qed

lemma sqrt_2pi_bounds: "2 \<le> sqrt (2 * pi)" "sqrt (2 * pi) \<le> 3"
proof -
  have "sqrt (2 ^ 2) \<le> sqrt (2 * pi)" using pi_ge_two by (intro real_sqrt_le_mono) simp
  then show "2 \<le> sqrt (2 * pi)" by (simp only: real_sqrt_abs abs_numeral)
  have "sqrt (2 * pi) \<le> sqrt (3 ^ 2)" using pi_less_4 by (intro real_sqrt_le_mono) simp
  then show "sqrt (2 * pi) \<le> 3" by (simp only: real_sqrt_abs abs_numeral)
qed

lemma sqrt_252_bounds: "1 / 16 \<le> sqrt (1 / 252)" "sqrt (1 / 252) \<le> 1 / 15"
proof -
  show "1 / 16 \<le> sqrt (1 / 252)" by (rule real_le_rsqrt) (simp add: power2_eq_square)
  show "sqrt (1 / 252) \<le> 1 / 15" by (rule real_le_lsqrt) (simp_all add: power2_eq_square)
qed

lemma norm_cdf_small:
  assumes "\<bar>x\<bar> \<le> 1 / 40"
  shows "\<bar>norm_cdf x - 1 / 2 - x / sqrt (2 * pi)\<bar> \<le> 1 / 256000"
proof -
  have x1: "\<bar>x\<bar> \<le> 1" using assms by linarith
  have a0: "0 \<le> \<bar>x\<bar>" by simp
  have "\<bar>x\<bar> * \<bar>x\<bar> \<le> (1 / 40) * (1 / 40)" using assms by (intro mult_mono) simp_all
  then have sq: "x * x \<le> 1 / 1600" by simp
  have sq0: "0 \<le> x * x" by simp
  have "\<bar>x\<bar> * (x * x) \<le> (1 / 40) * (1 / 1600)"
    using assms sq by (intro mult_mono) simp_all
  then have cube: "\<bar>x\<bar> * (x * x) / 4 \<le> 1 / 256000" by simp
  from norm_cdf_near_half[OF x1] cube show ?thesis by (rule order_trans)
qed

lemma norm_cdf_small_pos:
  assumes "0 \<le> x" and "x \<le> 1 / 40"
  shows "1 / 2 + x / 3 - 1 / 256000 \<le> norm_cdf x" and "norm_cdf x \<le> 1 / 2 + x / 2 + 1 / 256000"
proof -
  define s where "s = sqrt (2 * pi)"
  have s: "2 \<le> s" "s \<le> 3" using sqrt_2pi_bounds by (simp_all add: s_def)
  have lo: "x / 3 \<le> x / s"
    using assms(1) s by (intro divide_left_mono) simp_all
  have hi: "x / s \<le> x / 2"
    using assms(1) s by (intro divide_left_mono) simp_all
  have "\<bar>x\<bar> \<le> 1 / 40" using assms by simp
  from norm_cdf_small[OF this]
  have b: "\<bar>norm_cdf x - 1 / 2 - x / s\<bar> \<le> 1 / 256000" by (simp only: s_def)
  from b lo show "1 / 2 + x / 3 - 1 / 256000 \<le> norm_cdf x" by linarith
  from b hi show "norm_cdf x \<le> 1 / 2 + x / 2 + 1 / 256000" by linarith
qed

lemma norm_cdf_small_neg:
  assumes "x \<le> 0" and "- (1 / 40) \<le> x"
  shows "1 / 2 + x / 2 - 1 / 256000 \<le> norm_cdf x" and "norm_cdf x \<le> 1 / 2 + x / 3 + 1 / 256000"
proof -
  define s where "s = sqrt (2 * pi)"
  have s: "2 \<le> s" "s \<le> 3" using sqrt_2pi_bounds by (simp_all add: s_def)
  have ax: "0 \<le> - x" using assms by simp
  have "(- x) / 3 \<le> (- x) / s"
    using ax s by (intro divide_left_mono) simp_all
  then have lo: "x / s \<le> x / 3" by simp
  have "(- x) / s \<le> (- x) / 2"
    using ax s by (intro divide_left_mono) simp_all
  then have hi: "x / 2 \<le> x / s" by simp
  have "\<bar>x\<bar> \<le> 1 / 40" using assms by simp
  from norm_cdf_small[OF this]
  have b: "\<bar>norm_cdf x - 1 / 2 - x / s\<bar> \<le> 1 / 256000" by (simp only: s_def)
  from b hi show "1 / 2 + x / 2 - 1 / 256000 \<le> norm_cdf x" by linarith
  from b lo show "norm_cdf x \<le> 1 / 2 + x / 3 + 1 / 256000" by linarith
qed

lemma bs_concrete:
  "black_scholes_price 450 450 (1 / 252) 0.05 0.375 CALL =
     Inr (max (450 * norm_cdf (77 / 240 * sqrt (1 / 252))
               - 450 * exp (- 0.05 * (1 / 252)) * norm_cdf (- (13 / 240) * sqrt (1 / 252))) 0.01)"
proof -
  define q :: real where "q = sqrt (1 / 252)"
  have q_pos: "0 < q" by (simp add: q_def)
  have q_sq: "q * q = 1 / 252" by (simp add: q_def)
  have "(ln (450 / 450) + (0.05 + 0.5 * 0.375 ^ 2) * (1 / 252)) / (0.375 * q)
       = (77 / 640) * (q * q) / ((3 / 8) * q)"
    by (simp add: q_sq power2_eq_square)
  also have "\<dots> = 77 / 240 * q" using q_pos by simp
  finally have d1: "(ln (450 / 450) + (0.05 + 0.5 * 0.375 ^ 2) * (1 / 252)) / (0.375 * q) = 77 / 240 * q" .
  have d2: "77 / 240 * q - 0.375 * q = - (13 / 240) * q" by simp
  have c1: "\<not> (1 / 252 :: real) \<le> 0" by simp
  have c2: "(450::real) \<noteq> 0" by simp
  have c3: "\<not> (450 / 450 :: real) \<le> 0" by simp
  have c4: "0.375 * q \<noteq> 0" using q_pos by simp
  show ?thesis
    unfolding black_scholes_price_def Let_def q_def[symmetric]
    unfolding d1 d2 if_not_P[OF c1] if_not_P[OF c2] if_not_P[OF c3] if_not_P[OF c4]
    by simp
qed

lemma entry_premium_bounds:
  "\<exists>p. black_scholes_price 450 450 (1 / 252) 0.05 0.375 CALL = Inr p \<and> 2.9 \<le> p \<and> p \<le> 6"
proof -
  define q :: real where "q = sqrt (1 / 252)"
  have q_lo: "1 / 16 \<le> q" and q_hi: "q \<le> 1 / 15"
    using sqrt_252_bounds by (simp_all add: q_def)
  define d1 :: real where "d1 = 77 / 240 * q"
  define d2 :: real where "d2 = - (13 / 240) * q"
  define E :: real where "E = exp (- 0.05 * (1 / 252))"
  define price :: real where "price = 450 * norm_cdf d1 - 450 * E * norm_cdf d2"
  have bs: "black_scholes_price 450 450 (1 / 252) 0.05 0.375 CALL = Inr (max price 0.01)"
    unfolding price_def E_def d1_def d2_def q_def by (rule bs_concrete)
  have d1_b: "77 / 3840 \<le> d1" "d1 \<le> 77 / 3600" using q_lo q_hi by (simp_all add: d1_def)
  have d2_b: "- (13 / 3600) \<le> d2" "d2 \<le> - (13 / 3840)" using q_lo q_hi by (simp_all add: d2_def)
  have n1: "1 / 2 + d1 / 3 - 1 / 256000 \<le> norm_cdf d1" "norm_cdf d1 \<le> 1 / 2 + d1 / 2 + 1 / 256000"
    using norm_cdf_small_pos[of d1] d1_b by simp_all
  have n2: "1 / 2 + d2 / 2 - 1 / 256000 \<le> norm_cdf d2" "norm_cdf d2 \<le> 1 / 2 + d2 / 3 + 1 / 256000"
    using norm_cdf_small_neg[of d2] d2_b by simp_all
  have N1: "5066 / 10000 \<le> norm_cdf d1" "norm_cdf d1 \<le> 5108 / 10000"
    using n1 d1_b by linarith+
  have N2: "498 / 1000 \<le> norm_cdf d2" "norm_cdf d2 \<le> 1 / 2"
    using n2 d2_b by linarith+
  have E_hi: "E \<le> 1" by (simp add: E_def)
  have E_lo: "9998 / 10000 \<le> E"
  proof -
    have "1 + (- 0.05 * (1 / 252)) \<le> E" unfolding E_def by (rule exp_ge_add_one_self)
    then show ?thesis by simp
  qed
  have E0: "0 \<le> E" using E_lo by linarith
  have n0: "0 \<le> norm_cdf d2" using N2 by linarith
  have "E * norm_cdf d2 \<le> 1 * (1 / 2)"
    using E_hi N2(2) n0 by (intro mult_mono) simp_all
  then have prod_hi: "E * norm_cdf d2 \<le> 1 / 2" by simp
  have "(9998 / 10000) * (498 / 1000) \<le> E * norm_cdf d2"
    using E_lo N2(1) E0 by (intro mult_mono) simp_all
  then have prod_lo: "4978 / 10000 \<le> E * norm_cdf d2" by simp
  define P where "P = E * norm_cdf d2"
  have pr: "price = 450 * norm_cdf d1 - 450 * P" by (simp add: price_def P_def)
  from N1 prod_hi prod_lo have "29 / 10 \<le> price" "price \<le> 6"
    unfolding pr P_def[symmetric] by linarith+
  then have "2.9 \<le> max price 0.01" "max price 0.01 \<le> 6" by simp_all
  with bs show ?thesis by blast
qed

section \<open>The simulator on the example signal\<close>

lemma example_premium_facts:
  "black_scholes_price 450 450 (1 / 252) 0.05 0.375 CALL = Inr example_premium"
  "2.9 \<le> example_premium" "example_premium \<le> 6"
  using entry_premium_bounds by (auto simp: example_premium_def)

lemma date_of_open: "date_of (1440 * d + 570) = d"
  by (simp add: date_of_def)

lemma position_contracts_example:
  assumes "600 \<le> c" and "c \<le> 10000"
  shows "position_contracts c 5 example_premium = Some 1"
proof -
  let ?p = example_premium
  have p: "2.9 \<le> ?p" "?p \<le> 6" by (rule example_premium_facts)+
  have ppos: "0 < ?p * 100" using p by simp
  have nonneg: "0 \<le> c * 5 / 100 / (?p * 100)" using assms p by simp
  have "c * 5 / 100 < 2 * (?p * 100)" using assms p by simp
  then have lt2: "c * 5 / 100 / (?p * 100) < 2" using ppos by (simp add: pos_divide_less_eq)
  have "\<lfloor>c * 5 / 100 / (?p * 100)\<rfloor> < 2" using lt2 by (simp add: floor_less_iff)
  then have n: "max (py_int (c * 5 / 100 / (?p * 100))) 1 = 1"
    using nonneg by (simp add: py_int_def)
  have cost: "\<not> (of_int (1::int) * ?p * 100 > c)" using assms p by simp
  show ?thesis
    unfolding position_contracts_def Let_def n using cost by simp
qed

lemma find_exit_no_data:
  "find_exit cfg signal empty_frame ot k v p m =
     Inr \<lparr> exit_result_time = timestamp signal, exit_result_price = entry_price signal,
           exit_result_premium = 0, exit_reason = ''no_data'' \<rparr>"
  by (simp add: find_exit_def empty_frame_def Let_def)

lemma open_trade_example:
  assumes "600 \<le> c" and "c \<le> 10000"
  shows "open_trade default_config empty_frame c (example_signal (1440 * d + 570))
           = Inr (Some (example_trade (1440 * d + 570)))"
proof -
  have bsn: "black_scholes_price 450 450 (1 / 252) (1 / 20) (3 / 8) CALL = Inr example_premium"
    using example_premium_facts(1) by simp
  have big: "\<not> example_premium * 20 < 1" using example_premium_facts(2) by simp
  show ?thesis
    unfolding open_trade_def Let_def
    by (simp add: example_signal_def default_config_def date_of_open select_strike_def
        py_round_def estimate_iv_from_time_def Let_def bsn big
        position_contracts_example[OF assms] find_exit_no_data example_trade_def
        direction_value_def)
qed

lemma settle_example:
  "settle default_config c (example_trade ts) = c - 101 * example_premium - 1.3"
  by (simp add: settle_def example_trade_def total_pnl_def pnl_per_contract_def
      default_config_def abs_mult) (use example_premium_facts(2) in simp)

lemma simulate_step_example:
  assumes "700 \<le> c" and "c \<le> 10000" and "active \<noteq> Some d"
  shows "simulate_loop default_config empty_frame trds c active
           (example_signal (1440 * d + 570) # rest)
         = simulate_loop default_config empty_frame (trds @ [example_trade (1440 * d + 570)])
             (c - 101 * example_premium - 1.3) (Some d) rest"
proof -
  have c600: "600 \<le> c" using assms by simp
  have ts: "timestamp (example_signal (1440 * d + 570)) = 1440 * d + 570"
    by (simp add: example_signal_def)
  have pos: "\<not> c - 101 * example_premium - 1.3 \<le> 0"
    using assms example_premium_facts(3) by simp
  show ?thesis
    using assms(3) pos
    by (simp add: ts date_of_open open_trade_example[OF c600 assms(2)] settle_example Let_def)
qed

lemma simulate_loop_three:
  "simulate_loop default_config empty_frame [] 10000 None
     [example_signal 570, example_signal 2010, example_signal 570]
   = Inr ([example_trade 570, example_trade 2010, example_trade 570],
          10000 - 101 * example_premium - 1.3 - 101 * example_premium - 1.3
            - 101 * example_premium - 1.3)"
proof -
  let ?c1 = "10000 - 101 * example_premium - 1.3"
  let ?c2 = "?c1 - 101 * example_premium - 1.3"
  have p: "2.9 \<le> example_premium" "example_premium \<le> 6" by (rule example_premium_facts)+
  have b1: "700 \<le> ?c1" "?c1 \<le> 10000" using p by simp_all
  have b2: "700 \<le> ?c2" "?c2 \<le> 10000" using p by simp_all
  have s1: "simulate_loop default_config empty_frame [] 10000 None
              (example_signal 570 # [example_signal 2010, example_signal 570])
            = simulate_loop default_config empty_frame ([] @ [example_trade 570]) ?c1 (Some 0)
                [example_signal 2010, example_signal 570]"
    using simulate_step_example[of 10000 None 0 "[]" "[example_signal 2010, example_signal 570]"]
    by simp
  have s2: "simulate_loop default_config empty_frame [example_trade 570] ?c1 (Some 0)
              (example_signal 2010 # [example_signal 570])
            = simulate_loop default_config empty_frame ([example_trade 570] @ [example_trade 2010])
                ?c2 (Some 1) [example_signal 570]"
    using simulate_step_example[of ?c1 "Some 0" 1 "[example_trade 570]" "[example_signal 570]"] b1
    by simp
  have s3: "simulate_loop default_config empty_frame [example_trade 570, example_trade 2010] ?c2
              (Some 1) (example_signal 570 # [])
            = simulate_loop default_config empty_frame
                ([example_trade 570, example_trade 2010] @ [example_trade 570])
                (?c2 - 101 * example_premium - 1.3) (Some 0) []"
    using simulate_step_example[of ?c2 "Some 1" 0 "[example_trade 570, example_trade 2010]" "[]"] b2
    by simp
  show ?thesis using s1 s2 s3 by simp
qed

lemma simulate_loop_chronological:
  "simulate_loop default_config empty_frame [] 10000 None
     [example_signal 570, example_signal 600, example_signal 2010]
   = Inr ([example_trade 570, example_trade 2010],
          10000 - 101 * example_premium - 1.3 - 101 * example_premium - 1.3)"
proof -
  let ?c1 = "10000 - 101 * example_premium - 1.3"
  have p: "2.9 \<le> example_premium" "example_premium \<le> 6" by (rule example_premium_facts)+
  have b1: "700 \<le> ?c1" "?c1 \<le> 10000" using p by simp_all
  have s1: "simulate_loop default_config empty_frame [] 10000 None
              (example_signal 570 # [example_signal 600, example_signal 2010])
            = simulate_loop default_config empty_frame ([] @ [example_trade 570]) ?c1 (Some 0)
                [example_signal 600, example_signal 2010]"
    using simulate_step_example[of 10000 None 0 "[]" "[example_signal 600, example_signal 2010]"]
    by simp
  have skip: "simulate_loop default_config empty_frame [example_trade 570] ?c1 (Some 0)
              (example_signal 600 # [example_signal 2010])
            = simulate_loop default_config empty_frame [example_trade 570] ?c1 (Some 0)
                [example_signal 2010]"
    by (simp add: example_signal_def date_of_def)
  have s2: "simulate_loop default_config empty_frame [example_trade 570] ?c1 (Some 0)
              (example_signal 2010 # [])
            = simulate_loop default_config empty_frame ([example_trade 570] @ [example_trade 2010])
                (?c1 - 101 * example_premium - 1.3) (Some 1) []"
    using simulate_step_example[of ?c1 "Some 0" 1 "[example_trade 570]" "[]"] b1
    by simp
  show ?thesis using s1 skip s2 by simp
qed

lemma simulate_loop_one:
  "simulate_loop default_config empty_frame [] 10000 None [example_signal 570]
   = Inr ([example_trade 570], 10000 - 101 * example_premium - 1.3)"
  using simulate_step_example[of 10000 None 0 "[]" "[]"] by simp

text \<open>
  The order matters. The loop remembers the date of its last trade only, so on a stream
  that returns to an earlier day, which \<^verbatim>\<open>scan\<close> never produces, it would open a second
  trade on that day.
\<close>

lemma simulate_trades_needs_order:
  "simulate_trades default_config
     [example_signal 570, example_signal 2010, example_signal 570] empty_frame
   = Inr [example_trade 570, example_trade 2010, example_trade 570]
   \<and> map (date_of \<circ> entry_time) [example_trade 570, example_trade 2010, example_trade 570]
       = [0, 1, 0]
   \<and> \<not> distinct (map (date_of \<circ> entry_time)
                    [example_trade 570, example_trade 2010, example_trade 570])"
proof -
  have ic: "initial_capital default_config = 10000" by (simp add: default_config_def)
  have a: "simulate_trades default_config
     [example_signal 570, example_signal 2010, example_signal 570] empty_frame
   = Inr [example_trade 570, example_trade 2010, example_trade 570]"
    unfolding simulate_trades_def ic simulate_loop_three by simp
  have b: "map (date_of \<circ> entry_time) [example_trade 570, example_trade 2010, example_trade 570]
       = [0, 1, 0]"
    by (simp add: example_trade_def date_of_def)
  have c: "\<not> distinct (map (date_of \<circ> entry_time)
                    [example_trade 570, example_trade 2010, example_trade 570])"
    unfolding b by simp
  from a b c show ?thesis by blast
qed

theorem C5_one_trade_per_date_witness:
  "scan example_build_ctx
     [(''opening_range_breakout'',
       fixed_detector [example_signal 2010, example_signal 570, example_signal 600])]
     default_config empty_frame None
   = Inr [example_signal 570, example_signal 600, example_signal 2010]
   \<and> run default_config [example_signal 570, example_signal 600, example_signal 2010] empty_frame
     = Inr \<lparr> trades = [example_trade 570, example_trade 2010], result_initial_capital = 10000,
             final_capital = 10000 - 100 * example_premium - 100 * example_premium,
             config = default_config \<rparr>
   \<and> distinct (map (date_of \<circ> entry_time) [example_trade 570, example_trade 2010])"
proof -
  have ic: "initial_capital default_config = 10000" by (simp add: default_config_def)
  have mc: "min_pattern_confidence default_config = 0.6" by (simp add: default_config_def)
  have en: "''opening_range_breakout'' \<in> set (enabled_patterns default_config)"
    by (simp add: default_config_def)
  have a: "scan example_build_ctx
     [(''opening_range_breakout'',
       fixed_detector [example_signal 2010, example_signal 570, example_signal 600])]
     default_config empty_frame None
   = Inr [example_signal 570, example_signal 600, example_signal 2010]"
    using en by (simp add: scan_def example_build_ctx_def fixed_detector_def example_signal_def)
  have keep: "filter (\<lambda>s. confidence s \<ge> min_pattern_confidence default_config)
                [example_signal 570, example_signal 600, example_signal 2010]
              = [example_signal 570, example_signal 600, example_signal 2010]"
    by (simp add: mc example_signal_def)
  have pnl: "total_pnl (example_trade ts) = - 100 * example_premium" for ts
    by (simp add: total_pnl_def pnl_per_contract_def example_trade_def)
  have b: "run default_config [example_signal 570, example_signal 600, example_signal 2010]
             empty_frame
     = Inr \<lparr> trades = [example_trade 570, example_trade 2010], result_initial_capital = 10000,
             final_capital = 10000 - 100 * example_premium - 100 * example_premium,
             config = default_config \<rparr>"
    unfolding run_def Let_def keep simulate_trades_def ic simulate_loop_chronological
    by (simp add: pnl)
  from C5_one_trade_per_date[OF a b] a b show ?thesis by simp
qed

text \<open>
  C1, at one signal under the default configuration. The simulator opens one trade of one
  contract that loses its whole premium. Its running capital ends at the initial capital
  plus the P&L, minus the commission 1 * 0.65 * 2 and minus the slippage of 1 percent of
  the absolute P&L. The final capital that \<^verbatim>\<open>run\<close> records is the initial capital plus the
  P&L only, so the two differ.
\<close>

theorem C1_final_capital_omits_costs:
  "run default_config [example_signal 570] empty_frame
     = Inr \<lparr> trades = [example_trade 570], result_initial_capital = 10000,
             final_capital = 10000 - 100 * example_premium, config = default_config \<rparr>
   \<and> running_capital default_config [example_signal 570] empty_frame
     = Inr (10000 - 100 * example_premium - 1 * 0.65 * 2 - \<bar>- 100 * example_premium\<bar> * 1.0 / 100)
   \<and> 10000 - 100 * example_premium
     \<noteq> 10000 - 100 * example_premium - 1 * 0.65 * 2 - \<bar>- 100 * example_premium\<bar> * 1.0 / 100"
proof -
  have ic: "initial_capital default_config = 10000" by (simp add: default_config_def)
  have mc: "min_pattern_confidence default_config = 0.6" by (simp add: default_config_def)
  have keep: "filter (\<lambda>s. confidence s \<ge> min_pattern_confidence default_config)
                [example_signal 570] = [example_signal 570]"
    by (simp add: mc example_signal_def)
  have pnl: "total_pnl (example_trade 570) = - 100 * example_premium"
    by (simp add: total_pnl_def pnl_per_contract_def example_trade_def)
  have p: "2.9 \<le> example_premium" by (rule example_premium_facts)
  have a: "run default_config [example_signal 570] empty_frame
     = Inr \<lparr> trades = [example_trade 570], result_initial_capital = 10000,
             final_capital = 10000 - 100 * example_premium, config = default_config \<rparr>"
    unfolding run_def Let_def keep simulate_trades_def ic simulate_loop_one
    by (simp add: pnl)
  have b: "running_capital default_config [example_signal 570] empty_frame
     = Inr (10000 - 100 * example_premium - 1 * 0.65 * 2 - \<bar>- 100 * example_premium\<bar> * 1.0 / 100)"
    unfolding running_capital_def ic simulate_loop_one using p by simp
  have c: "10000 - 100 * example_premium
     \<noteq> 10000 - 100 * example_premium - 1 * 0.65 * 2 - \<bar>- 100 * example_premium\<bar> * 1.0 / 100"
    using p by simp
  from a b c show ?thesis by blast
qed

section \<open>The range-break detectors\<close>

lemma find_upt_first:
  assumes "find P [a ..< n] = Some i"
  shows "a \<le> i \<and> i < n \<and> P i \<and> (\<forall>j. a \<le> j \<and> j < i \<longrightarrow> \<not> P j)"
proof -
  from assms obtain k where k: "k < length [a ..< n]" "P ([a ..< n] ! k)" "i = [a ..< n] ! k"
    and first: "\<forall>j<k. \<not> P ([a ..< n] ! j)"
    unfolding find_Some_iff by blast
  from k have i: "i = a + k" "k < n - a" by simp_all
  have "\<not> P j" if "a \<le> j" "j < i" for j
  proof -
    from that i have "j - a < k" by simp
    with first have "\<not> P ([a ..< n] ! (j - a))" by blast
    moreover have "[a ..< n] ! (j - a) = j" using that i by simp
    ultimately show ?thesis by simp
  qed
  with k i show ?thesis by auto
qed

lemma find_upt_some:
  assumes "a \<le> j" and "j < n" and "P j"
  shows "\<exists>i. find P [a ..< n] = Some i"
proof -
  have "j \<in> set [a ..< n]" using assms by simp
  with assms(3) have "find P [a ..< n] \<noteq> None" unfolding find_None_iff by blast
  then show ?thesis by auto
qed

lemma groupby_date_keys: "distinct (map fst (groupby_date bars))"
  by (simp add: groupby_date_def comp_def)

lemma groupby_date_group:
  assumes "dg \<in> set (groupby_date bars)" and "b \<in> set (snd dg)"
  shows "date_of (index b) = fst dg"
  using assms by (auto simp: groupby_date_def)

lemma opening_range_of_key: "opening_range_of cfg dg = Some item \<Longrightarrow> fst item = fst dg"
  by (auto simp: opening_range_of_def Let_def split: list.splits if_splits)

lemma map_filter_keys:
  assumes "\<And>x y. f x = Some y \<Longrightarrow> fst y = fst x"
  shows "map fst (List.map_filter f xs) = map fst (filter (\<lambda>x. f x \<noteq> None) xs)"
proof (induction xs)
  case Nil
  then show ?case by (simp add: List.map_filter_simps)
next
  case (Cons x xs)
  then show ?case using assms by (cases "f x") (auto simp: List.map_filter_simps)
qed

lemma get_opening_range_keys: "distinct (map fst (get_opening_range cfg df))"
proof -
  have "map fst (get_opening_range cfg df)
        = map fst (filter (\<lambda>x. opening_range_of cfg x \<noteq> None) (groupby_date (rows df)))"
    unfolding get_opening_range_def by (rule map_filter_keys) (rule opening_range_of_key)
  then show ?thesis using groupby_date_keys[of "rows df"] by (simp add: distinct_map_filter)
qed

lemma post_opening_range_date:
  assumes "b \<in> set (post_opening_range cfg df d)"
  shows "date_of (index b) = d"
  using assms by (auto simp: post_opening_range_def Let_def split: list.splits)

lemma no_key_no_signal:
  assumes "\<And>it s. it \<in> set items \<Longrightarrow> s \<in> set (f it) \<Longrightarrow> date_of (timestamp s) = key it"
      and "d \<notin> key ` set items"
  shows "filter (\<lambda>s. date_of (timestamp s) = d) (concat (map f items)) = []"
  using assms by (auto simp: filter_empty_conv)

lemma at_most_one_per_key:
  assumes "distinct (map key items)"
      and "\<And>it. it \<in> set items \<Longrightarrow> length (f it) \<le> 1"
      and "\<And>it s. it \<in> set items \<Longrightarrow> s \<in> set (f it) \<Longrightarrow> date_of (timestamp s) = key it"
  shows "length (filter (\<lambda>s. date_of (timestamp s) = d) (concat (map f items))) \<le> 1"
  using assms
proof (induction items)
  case Nil
  then show ?case by simp
next
  case (Cons it rest)
  have len: "length (filter (\<lambda>s. date_of (timestamp s) = d) (f it)) \<le> 1"
  proof -
    have "length (filter (\<lambda>s. date_of (timestamp s) = d) (f it)) \<le> length (f it)" by simp
    also have "\<dots> \<le> 1" using Cons.prems(2) by simp
    finally show ?thesis .
  qed
  have ih: "length (filter (\<lambda>s. date_of (timestamp s) = d) (concat (map f rest))) \<le> 1"
    using Cons.IH Cons.prems by simp
  show ?case
  proof (cases "key it = d")
    case True
    then have "d \<notin> key ` set rest" using Cons.prems(1) by auto
    then have "filter (\<lambda>s. date_of (timestamp s) = d) (concat (map f rest)) = []"
      using no_key_no_signal[of rest f key d] Cons.prems(3) by simp
    with len show ?thesis by simp
  next
    case False
    have "filter (\<lambda>s. date_of (timestamp s) = d) (f it) = []"
      using Cons.prems(3)[of it] False by (auto simp: filter_empty_conv)
    with ih show ?thesis by simp
  qed
qed

lemma orb_long_day_length: "length (orb_long_day cfg ctx item) \<le> 1"
  by (simp add: orb_long_day_def Let_def split: option.split)

lemma orb_long_day_date:
  assumes "s \<in> set (orb_long_day cfg ctx item)"
  shows "date_of (timestamp s) = fst item"
proof -
  let ?post = "post_opening_range cfg (ctx_df ctx) (fst item)"
  from assms have "\<exists>i. find (orb_long_cross (fst (snd item) + orb_breakout_buffer cfg) ?post)
                     [1 ..< length ?post] = Some i \<and> timestamp s = index (?post ! i)"
    unfolding orb_long_day_def Let_def
    by (cases "find (orb_long_cross (fst (snd item) + orb_breakout_buffer cfg) ?post)
                 [1 ..< length ?post]") auto
  then obtain i where
    f: "find (orb_long_cross (fst (snd item) + orb_breakout_buffer cfg) ?post) [1 ..< length ?post] = Some i"
    and s: "timestamp s = index (?post ! i)" by blast
  from find_upt_first[OF f] have "i < length ?post" by simp
  then have "?post ! i \<in> set ?post" by simp
  from post_opening_range_date[OF this] s show ?thesis by simp
qed

lemma orb_short_day_length: "length (orb_short_day cfg ctx item) \<le> 1"
  by (simp add: orb_short_day_def Let_def split: option.split)

lemma orb_short_day_date:
  assumes "s \<in> set (orb_short_day cfg ctx item)"
  shows "date_of (timestamp s) = fst item"
proof -
  let ?post = "post_opening_range cfg (ctx_df ctx) (fst item)"
  from assms have "\<exists>i. find (orb_short_cross (snd (snd item) - orb_breakout_buffer cfg) ?post)
                     [1 ..< length ?post] = Some i \<and> timestamp s = index (?post ! i)"
    unfolding orb_short_day_def Let_def
    by (cases "find (orb_short_cross (snd (snd item) - orb_breakout_buffer cfg) ?post)
                 [1 ..< length ?post]") auto
  then obtain i where
    f: "find (orb_short_cross (snd (snd item) - orb_breakout_buffer cfg) ?post) [1 ..< length ?post] = Some i"
    and s: "timestamp s = index (?post ! i)" by blast
  from find_upt_first[OF f] have "i < length ?post" by simp
  then have "?post ! i \<in> set ?post" by simp
  from post_opening_range_date[OF this] s show ?thesis by simp
qed

lemma gap_fill_long_day_length: "length (gap_fill_long_day ctx dg) \<le> 1"
  by (simp add: gap_fill_long_day_def Let_def split: option.split)

lemma gap_fill_long_day_index:
  assumes "s \<in> set (gap_fill_long_day ctx dg)"
  shows "\<exists>i. i < length (snd dg) \<and> timestamp s = index (snd dg ! i)"
proof -
  from assms have "\<exists>i. find (close_rises (snd dg)) [2 ..< min (length (snd dg)) 12] = Some i
                     \<and> timestamp s = index (snd dg ! i)"
    unfolding gap_fill_long_day_def Let_def
    by (cases "find (close_rises (snd dg)) [2 ..< min (length (snd dg)) 12]")
       (auto split: option.splits if_splits)
  then obtain i where
    f: "find (close_rises (snd dg)) [2 ..< min (length (snd dg)) 12] = Some i"
    and s: "timestamp s = index (snd dg ! i)" by blast
  from find_upt_first[OF f] have "i < length (snd dg)" by simp
  with s show ?thesis by blast
qed

lemma gap_fill_short_day_length: "length (gap_fill_short_day ctx dg) \<le> 1"
  by (simp add: gap_fill_short_day_def Let_def split: option.split)

lemma gap_fill_short_day_index:
  assumes "s \<in> set (gap_fill_short_day ctx dg)"
  shows "\<exists>i. i < length (snd dg) \<and> timestamp s = index (snd dg ! i)"
proof -
  from assms have "\<exists>i. find (close_falls (snd dg)) [2 ..< min (length (snd dg)) 12] = Some i
                     \<and> timestamp s = index (snd dg ! i)"
    unfolding gap_fill_short_day_def Let_def
    by (cases "find (close_falls (snd dg)) [2 ..< min (length (snd dg)) 12]")
       (auto split: option.splits if_splits)
  then obtain i where
    f: "find (close_falls (snd dg)) [2 ..< min (length (snd dg)) 12] = Some i"
    and s: "timestamp s = index (snd dg ! i)" by blast
  from find_upt_first[OF f] have "i < length (snd dg)" by simp
  with s show ?thesis by blast
qed

lemma detect_orb_long_once:
  "length (filter (\<lambda>s. date_of (timestamp s) = d) (detect_orb_long cfg ctx)) \<le> 1"
  unfolding detect_orb_long_def
proof (rule at_most_one_per_key[where key = fst])
  show "distinct (map fst (get_opening_range cfg (ctx_df ctx)))"
    by (rule get_opening_range_keys)
next
  fix it show "length (orb_long_day cfg ctx it) \<le> 1" by (rule orb_long_day_length)
next
  fix it s
  assume "s \<in> set (orb_long_day cfg ctx it)"
  then show "date_of (timestamp s) = fst it" by (rule orb_long_day_date)
qed

lemma detect_orb_short_once:
  "length (filter (\<lambda>s. date_of (timestamp s) = d) (detect_orb_short cfg ctx)) \<le> 1"
  unfolding detect_orb_short_def
proof (rule at_most_one_per_key[where key = fst])
  show "distinct (map fst (get_opening_range cfg (ctx_df ctx)))"
    by (rule get_opening_range_keys)
next
  fix it show "length (orb_short_day cfg ctx it) \<le> 1" by (rule orb_short_day_length)
next
  fix it s
  assume "s \<in> set (orb_short_day cfg ctx it)"
  then show "date_of (timestamp s) = fst it" by (rule orb_short_day_date)
qed

lemma detect_gap_fill_long_once:
  "length (filter (\<lambda>s. date_of (timestamp s) = d) (detect_gap_fill_long cfg ctx)) \<le> 1"
proof (cases "''prev_close'' \<notin> set (columns (ctx_df ctx))")
  case True
  then show ?thesis by (simp add: detect_gap_fill_long_def)
next
  case False
  have "length (filter (\<lambda>s. date_of (timestamp s) = d)
          (concat (map (gap_fill_long_day ctx) (groupby_date (rows (ctx_df ctx)))))) \<le> 1"
  proof (rule at_most_one_per_key[where key = fst])
    show "distinct (map fst (groupby_date (rows (ctx_df ctx))))" by (rule groupby_date_keys)
  next
    fix it show "length (gap_fill_long_day ctx it) \<le> 1" by (rule gap_fill_long_day_length)
  next
    fix it s
    assume it: "it \<in> set (groupby_date (rows (ctx_df ctx)))" and s: "s \<in> set (gap_fill_long_day ctx it)"
    from gap_fill_long_day_index[OF s] obtain i where
      i: "i < length (snd it)" "timestamp s = index (snd it ! i)" by blast
    then have "snd it ! i \<in> set (snd it)" by simp
    from groupby_date_group[OF it this] i show "date_of (timestamp s) = fst it" by simp
  qed
  with False show ?thesis by (simp add: detect_gap_fill_long_def)
qed

lemma detect_gap_fill_short_once:
  "length (filter (\<lambda>s. date_of (timestamp s) = d) (detect_gap_fill_short cfg ctx)) \<le> 1"
proof (cases "''prev_close'' \<notin> set (columns (ctx_df ctx))")
  case True
  then show ?thesis by (simp add: detect_gap_fill_short_def)
next
  case False
  have "length (filter (\<lambda>s. date_of (timestamp s) = d)
          (concat (map (gap_fill_short_day ctx) (groupby_date (rows (ctx_df ctx)))))) \<le> 1"
  proof (rule at_most_one_per_key[where key = fst])
    show "distinct (map fst (groupby_date (rows (ctx_df ctx))))" by (rule groupby_date_keys)
  next
    fix it show "length (gap_fill_short_day ctx it) \<le> 1" by (rule gap_fill_short_day_length)
  next
    fix it s
    assume it: "it \<in> set (groupby_date (rows (ctx_df ctx)))" and s: "s \<in> set (gap_fill_short_day ctx it)"
    from gap_fill_short_day_index[OF s] obtain i where
      i: "i < length (snd it)" "timestamp s = index (snd it ! i)" by blast
    then have "snd it ! i \<in> set (snd it)" by simp
    from groupby_date_group[OF it this] i show "date_of (timestamp s) = fst it" by simp
  qed
  with False show ?thesis by (simp add: detect_gap_fill_short_def)
qed

lemma upt_1_4: "[1 ..< 4] = [1, 2, 3::nat]"
  by (simp add: upt_rec)

lemma crossing_signals:
  "map timestamp (detect_prev_high_break default_config (example_context crossing_bars)) = [575, 585]"
  by (simp add: detect_prev_high_break_def example_context_def crossing_bars_def Let_def
      upt_1_4 prev_high_cross_def prev_high_signal_def example_bar_def)

lemma breakout_groups: "groupby_date breakout_bars = [(0, breakout_bars)]"
  by (simp add: groupby_date_def breakout_bars_def example_bar_def date_of_def)

lemma breakout_range:
  "get_opening_range default_config (ctx_df (example_context breakout_bars)) = [(0, 451, 901 / 2)]"
  by (simp add: get_opening_range_def example_context_def breakout_groups
      List.map_filter_simps opening_range_of_def)
     (simp add: breakout_bars_def example_bar_def default_config_def)

lemma breakout_post:
  "post_opening_range default_config (ctx_df (example_context breakout_bars)) 0
     = [example_bar 590 451.1 450.8 451.0, example_bar 595 451.4 451.0 451.3,
        example_bar 600 451.3 450.9 451.0, example_bar 605 451.6 451.0 451.5]"
  by (simp add: post_opening_range_def example_context_def breakout_bars_def example_bar_def
      default_config_def date_of_def)

lemma breakout_day:
  "orb_long_day default_config (example_context breakout_bars) (0, 451, 901 / 2)
     = [breakout_signal]"
  unfolding orb_long_day_def Let_def fst_conv snd_conv breakout_post
  by (simp add: upt_1_4 orb_long_cross_def example_bar_def default_config_def
      orb_confidence_def series_get_def example_context_def breakout_signal_def)

lemma breakout_detect:
  "detect_orb_long default_config (example_context breakout_bars) = [breakout_signal]"
  by (simp add: detect_orb_long_def breakout_range breakout_day)

lemma orb_long_day_first:
  assumes "s \<in> set (orb_long_day cfg ctx item)"
  shows "\<exists>i. 1 \<le> i \<and> i < length (post_opening_range cfg (ctx_df ctx) (fst item))
           \<and> timestamp s = index (post_opening_range cfg (ctx_df ctx) (fst item) ! i)
           \<and> orb_long_cross (fst (snd item) + orb_breakout_buffer cfg)
                (post_opening_range cfg (ctx_df ctx) (fst item)) i
           \<and> (\<forall>j. 1 \<le> j \<and> j < i \<longrightarrow>
                 \<not> orb_long_cross (fst (snd item) + orb_breakout_buffer cfg)
                      (post_opening_range cfg (ctx_df ctx) (fst item)) j)"
proof -
  let ?post = "post_opening_range cfg (ctx_df ctx) (fst item)"
  let ?P = "orb_long_cross (fst (snd item) + orb_breakout_buffer cfg) ?post"
  from assms have "\<exists>i. find ?P [1 ..< length ?post] = Some i \<and> timestamp s = index (?post ! i)"
    unfolding orb_long_day_def Let_def
    by (cases "find ?P [1 ..< length ?post]") auto
  then obtain i where f: "find ?P [1 ..< length ?post] = Some i"
    and s: "timestamp s = index (?post ! i)" by blast
  from find_upt_first[OF f] s show ?thesis by blast
qed

lemma orb_short_day_first:
  assumes "s \<in> set (orb_short_day cfg ctx item)"
  shows "\<exists>i. 1 \<le> i \<and> i < length (post_opening_range cfg (ctx_df ctx) (fst item))
           \<and> timestamp s = index (post_opening_range cfg (ctx_df ctx) (fst item) ! i)
           \<and> orb_short_cross (snd (snd item) - orb_breakout_buffer cfg)
                (post_opening_range cfg (ctx_df ctx) (fst item)) i
           \<and> (\<forall>j. 1 \<le> j \<and> j < i \<longrightarrow>
                 \<not> orb_short_cross (snd (snd item) - orb_breakout_buffer cfg)
                      (post_opening_range cfg (ctx_df ctx) (fst item)) j)"
proof -
  let ?post = "post_opening_range cfg (ctx_df ctx) (fst item)"
  let ?P = "orb_short_cross (snd (snd item) - orb_breakout_buffer cfg) ?post"
  from assms have "\<exists>i. find ?P [1 ..< length ?post] = Some i \<and> timestamp s = index (?post ! i)"
    unfolding orb_short_day_def Let_def
    by (cases "find ?P [1 ..< length ?post]") auto
  then obtain i where f: "find ?P [1 ..< length ?post] = Some i"
    and s: "timestamp s = index (?post ! i)" by blast
  from find_upt_first[OF f] s show ?thesis by blast
qed

lemma gap_fill_long_day_first:
  assumes "s \<in> set (gap_fill_long_day ctx dg)"
  shows "\<exists>i. 2 \<le> i \<and> i < min (length (snd dg)) 12
           \<and> timestamp s = index (snd dg ! i)
           \<and> close_rises (snd dg) i
           \<and> (\<forall>j. 2 \<le> j \<and> j < i \<longrightarrow> \<not> close_rises (snd dg) j)"
proof -
  from assms have "\<exists>i. find (close_rises (snd dg)) [2 ..< min (length (snd dg)) 12] = Some i
                     \<and> timestamp s = index (snd dg ! i)"
    unfolding gap_fill_long_day_def Let_def
    by (cases "find (close_rises (snd dg)) [2 ..< min (length (snd dg)) 12]")
       (auto split: option.splits if_splits)
  then obtain i where
    f: "find (close_rises (snd dg)) [2 ..< min (length (snd dg)) 12] = Some i"
    and s: "timestamp s = index (snd dg ! i)" by blast
  from find_upt_first[OF f] s show ?thesis by blast
qed

lemma gap_fill_short_day_first:
  assumes "s \<in> set (gap_fill_short_day ctx dg)"
  shows "\<exists>i. 2 \<le> i \<and> i < min (length (snd dg)) 12
           \<and> timestamp s = index (snd dg ! i)
           \<and> close_falls (snd dg) i
           \<and> (\<forall>j. 2 \<le> j \<and> j < i \<longrightarrow> \<not> close_falls (snd dg) j)"
proof -
  from assms have "\<exists>i. find (close_falls (snd dg)) [2 ..< min (length (snd dg)) 12] = Some i
                     \<and> timestamp s = index (snd dg ! i)"
    unfolding gap_fill_short_day_def Let_def
    by (cases "find (close_falls (snd dg)) [2 ..< min (length (snd dg)) 12]")
       (auto split: option.splits if_splits)
  then obtain i where
    f: "find (close_falls (snd dg)) [2 ..< min (length (snd dg)) 12] = Some i"
    and s: "timestamp s = index (snd dg ! i)" by blast
  from find_upt_first[OF f] s show ?thesis by blast
qed

lemma detect_prev_high_break_timestamps:
  "map timestamp (detect_prev_high_break cfg ctx)
     = (if ''prev_high'' \<in> set (columns (ctx_df ctx))
        then map (\<lambda>i. index (rows (ctx_df ctx) ! i))
               (filter (prev_high_cross (rows (ctx_df ctx))) [1 ..< length (rows (ctx_df ctx))])
        else [])"
  by (simp add: detect_prev_high_break_def Let_def prev_high_signal_def comp_def)

lemma detect_prev_low_break_timestamps:
  "map timestamp (detect_prev_low_break cfg ctx)
     = (if ''prev_low'' \<in> set (columns (ctx_df ctx))
        then map (\<lambda>i. index (rows (ctx_df ctx) ! i))
               (filter (prev_low_cross (rows (ctx_df ctx))) [1 ..< length (rows (ctx_df ctx))])
        else [])"
  by (simp add: detect_prev_low_break_def Let_def prev_low_signal_def comp_def)

lemma gap_groups: "groupby_date gap_bars = [(0, gap_bars)]"
  by (simp add: groupby_date_def gap_bars_def example_bar_def date_of_def)

lemma upt_2_3: "[2 ..< 3] = [2::nat]"
  by (simp add: upt_rec)

lemma gap_day: "gap_fill_long_day (example_context gap_bars) (0, gap_bars) = [gap_signal]"
  unfolding gap_fill_long_day_def Let_def snd_conv
  by (simp add: gap_bars_def example_bar_def upt_2_3 close_rises_def gap_signal_def)

lemma gap_detect:
  "detect_gap_fill_long default_config (example_context gap_bars) = [gap_signal]"
proof -
  have "rows (ctx_df (example_context gap_bars)) = gap_bars"
    and "''prev_close'' \<in> set (columns (ctx_df (example_context gap_bars)))"
    by (simp_all add: example_context_def)
  then show ?thesis by (simp add: detect_gap_fill_long_def gap_groups gap_day)
qed

lemma breakdown_groups: "groupby_date breakdown_bars = [(0, breakdown_bars)]"
  by (simp add: groupby_date_def breakdown_bars_def example_bar_def date_of_def)

lemma breakdown_range:
  "get_opening_range default_config (ctx_df (example_context breakdown_bars)) = [(0, 451, 901 / 2)]"
  by (simp add: get_opening_range_def example_context_def breakdown_groups
      List.map_filter_simps opening_range_of_def)
     (simp add: breakdown_bars_def example_bar_def default_config_def)

lemma breakdown_post:
  "post_opening_range default_config (ctx_df (example_context breakdown_bars)) 0
     = [example_bar 590 450.8 450.5 450.6, example_bar 595 450.6 450.2 450.3,
        example_bar 600 450.6 450.3 450.5, example_bar 605 450.5 450.1 450.2]"
  by (simp add: post_opening_range_def example_context_def breakdown_bars_def example_bar_def
      default_config_def date_of_def)

lemma breakdown_day:
  "orb_short_day default_config (example_context breakdown_bars) (0, 451, 901 / 2)
     = [breakdown_signal]"
  unfolding orb_short_day_def Let_def fst_conv snd_conv breakdown_post
  by (simp add: upt_1_4 orb_short_cross_def example_bar_def default_config_def
      orb_confidence_def series_get_def example_context_def breakdown_signal_def)

lemma breakdown_detect:
  "detect_orb_short default_config (example_context breakdown_bars) = [breakdown_signal]"
  by (simp add: detect_orb_short_def breakdown_range breakdown_day)

lemma gap_up_groups: "groupby_date gap_up_bars = [(0, gap_up_bars)]"
  by (simp add: groupby_date_def gap_up_bars_def example_bar_def date_of_def)

lemma gap_up_day: "gap_fill_short_day (example_context gap_up_bars) (0, gap_up_bars) = [gap_up_signal]"
  unfolding gap_fill_short_day_def Let_def snd_conv
  by (simp add: gap_up_bars_def example_bar_def upt_2_3 close_falls_def gap_up_signal_def)

lemma gap_up_detect:
  "detect_gap_fill_short default_config (example_context gap_up_bars) = [gap_up_signal]"
proof -
  have "rows (ctx_df (example_context gap_up_bars)) = gap_up_bars"
    and "''prev_close'' \<in> set (columns (ctx_df (example_context gap_up_bars)))"
    by (simp_all add: example_context_def)
  then show ?thesis by (simp add: detect_gap_fill_short_def gap_up_groups gap_up_day)
qed

lemma breakout_crossings:
  "orb_long_cross (451 + orb_breakout_buffer default_config)
     (post_opening_range default_config (ctx_df (example_context breakout_bars)) 0) 1"
  "orb_long_cross (451 + orb_breakout_buffer default_config)
     (post_opening_range default_config (ctx_df (example_context breakout_bars)) 0) 3"
  unfolding breakout_post
  by (simp_all add: orb_long_cross_def example_bar_def default_config_def)

text \<open>
  C2 (as amended). The opening-range breakout and breakdown detectors and the two gap-fill
  detectors emit at most one signal per trading day, and the signal of a day stands at
  the first bar of that day's scan that qualifies (for the opening range, the first
  crossing of the range plus or minus the buffer after the range; for a gap, the first
  bar from the third on, within the first twelve, that closes towards the gap). The
  previous-day high and low detectors emit one signal at every bar of the frame whose
  close crosses the level of its row: they have no limit per day.
\<close>

theorem C2_range_break_signals_per_day:
  "length (filter (\<lambda>s. date_of (timestamp s) = d) (detect_orb_long cfg ctx)) \<le> 1
   \<and> length (filter (\<lambda>s. date_of (timestamp s) = d) (detect_orb_short cfg ctx)) \<le> 1
   \<and> length (filter (\<lambda>s. date_of (timestamp s) = d) (detect_gap_fill_long cfg ctx)) \<le> 1
   \<and> length (filter (\<lambda>s. date_of (timestamp s) = d) (detect_gap_fill_short cfg ctx)) \<le> 1
   \<and> (\<forall>s \<in> set (orb_long_day cfg ctx item).
        \<exists>i. 1 \<le> i \<and> i < length (post_opening_range cfg (ctx_df ctx) (fst item))
           \<and> timestamp s = index (post_opening_range cfg (ctx_df ctx) (fst item) ! i)
           \<and> orb_long_cross (fst (snd item) + orb_breakout_buffer cfg)
                (post_opening_range cfg (ctx_df ctx) (fst item)) i
           \<and> (\<forall>j. 1 \<le> j \<and> j < i \<longrightarrow>
                 \<not> orb_long_cross (fst (snd item) + orb_breakout_buffer cfg)
                      (post_opening_range cfg (ctx_df ctx) (fst item)) j))
   \<and> (\<forall>s \<in> set (orb_short_day cfg ctx item).
        \<exists>i. 1 \<le> i \<and> i < length (post_opening_range cfg (ctx_df ctx) (fst item))
           \<and> timestamp s = index (post_opening_range cfg (ctx_df ctx) (fst item) ! i)
           \<and> orb_short_cross (snd (snd item) - orb_breakout_buffer cfg)
                (post_opening_range cfg (ctx_df ctx) (fst item)) i
           \<and> (\<forall>j. 1 \<le> j \<and> j < i \<longrightarrow>
                 \<not> orb_short_cross (snd (snd item) - orb_breakout_buffer cfg)
                      (post_opening_range cfg (ctx_df ctx) (fst item)) j))
   \<and> (\<forall>s \<in> set (gap_fill_long_day ctx dg).
        \<exists>i. 2 \<le> i \<and> i < min (length (snd dg)) 12
           \<and> timestamp s = index (snd dg ! i)
           \<and> close_rises (snd dg) i
           \<and> (\<forall>j. 2 \<le> j \<and> j < i \<longrightarrow> \<not> close_rises (snd dg) j))
   \<and> (\<forall>s \<in> set (gap_fill_short_day ctx dg).
        \<exists>i. 2 \<le> i \<and> i < min (length (snd dg)) 12
           \<and> timestamp s = index (snd dg ! i)
           \<and> close_falls (snd dg) i
           \<and> (\<forall>j. 2 \<le> j \<and> j < i \<longrightarrow> \<not> close_falls (snd dg) j))
   \<and> map timestamp (detect_prev_high_break cfg ctx)
       = (if ''prev_high'' \<in> set (columns (ctx_df ctx))
          then map (\<lambda>i. index (rows (ctx_df ctx) ! i))
                 (filter (prev_high_cross (rows (ctx_df ctx))) [1 ..< length (rows (ctx_df ctx))])
          else [])
   \<and> map timestamp (detect_prev_low_break cfg ctx)
       = (if ''prev_low'' \<in> set (columns (ctx_df ctx))
          then map (\<lambda>i. index (rows (ctx_df ctx) ! i))
                 (filter (prev_low_cross (rows (ctx_df ctx))) [1 ..< length (rows (ctx_df ctx))])
          else [])"
  using detect_orb_long_once[of d cfg ctx] detect_orb_short_once[of d cfg ctx]
        detect_gap_fill_long_once[of d cfg ctx] detect_gap_fill_short_once[of d cfg ctx]
        orb_long_day_first[of _ cfg ctx item] orb_short_day_first[of _ cfg ctx item]
        gap_fill_long_day_first[of _ ctx dg] gap_fill_short_day_first[of _ ctx dg]
        detect_prev_high_break_timestamps[of cfg ctx] detect_prev_low_break_timestamps[of cfg ctx]
  by (intro conjI ballI) assumption+

theorem C2_range_break_signals_per_day_witness:
  "detect_orb_long default_config (example_context breakout_bars) = [breakout_signal]
   \<and> detect_orb_short default_config (example_context breakdown_bars) = [breakdown_signal]
   \<and> detect_gap_fill_long default_config (example_context gap_bars) = [gap_signal]
   \<and> detect_gap_fill_short default_config (example_context gap_up_bars) = [gap_up_signal]
   \<and> orb_long_cross (451 + orb_breakout_buffer default_config)
        (post_opening_range default_config (ctx_df (example_context breakout_bars)) 0) 1
   \<and> orb_long_cross (451 + orb_breakout_buffer default_config)
        (post_opening_range default_config (ctx_df (example_context breakout_bars)) 0) 3
   \<and> breakout_signal
        \<in> set (orb_long_day default_config (example_context breakout_bars) (0, 451, 901 / 2))
   \<and> length (filter (\<lambda>s. date_of (timestamp s) = 0)
        (detect_orb_long default_config (example_context breakout_bars))) \<le> 1
   \<and> (\<exists>i. 1 \<le> i
         \<and> i < length (post_opening_range default_config (ctx_df (example_context breakout_bars)) 0)
         \<and> timestamp breakout_signal
             = index (post_opening_range default_config
                        (ctx_df (example_context breakout_bars)) 0 ! i)
         \<and> orb_long_cross (451 + orb_breakout_buffer default_config)
              (post_opening_range default_config (ctx_df (example_context breakout_bars)) 0) i)"
proof -
  let ?ctx = "example_context breakout_bars"
  have m: "breakout_signal \<in> set (orb_long_day default_config ?ctx (0, 451, 901 / 2))"
    by (simp add: breakout_day)
  note t = C2_range_break_signals_per_day[of 0 default_config ?ctx "(0, 451, 901 / 2)"
      "(0, gap_bars)"]
  from t have n: "length (filter (\<lambda>s. date_of (timestamp s) = 0)
        (detect_orb_long default_config ?ctx)) \<le> 1" by (rule conjunct1)
  from t m have "\<exists>i. 1 \<le> i
         \<and> i < length (post_opening_range default_config (ctx_df ?ctx) (fst (0::int, 451::real, 901 / 2 :: real)))
         \<and> timestamp breakout_signal
             = index (post_opening_range default_config (ctx_df ?ctx) (fst (0::int, 451::real, 901 / 2 :: real)) ! i)
         \<and> orb_long_cross (fst (snd (0::int, 451::real, 901 / 2 :: real)) + orb_breakout_buffer default_config)
              (post_opening_range default_config (ctx_df ?ctx) (fst (0::int, 451::real, 901 / 2 :: real))) i"
    by blast
  then have e: "\<exists>i. 1 \<le> i
         \<and> i < length (post_opening_range default_config (ctx_df ?ctx) 0)
         \<and> timestamp breakout_signal
             = index (post_opening_range default_config (ctx_df ?ctx) 0 ! i)
         \<and> orb_long_cross (451 + orb_breakout_buffer default_config)
              (post_opening_range default_config (ctx_df ?ctx) 0) i"
    by simp
  from breakout_detect breakdown_detect gap_detect gap_up_detect breakout_crossings m n e
  show ?thesis by blast
qed

text \<open>
  C2, counterexample. On a day whose closes run 99, 101, 99, 101 against a previous-day
  high of 100, the previous-day high detector emits two signals, at 09:35 and at 09:45.
\<close>

theorem C2_prev_high_break_counterexample:
  "map timestamp (detect_prev_high_break default_config (example_context crossing_bars))
     = [575, 585]
   \<and> map (date_of \<circ> timestamp)
       (detect_prev_high_break default_config (example_context crossing_bars)) = [0, 0]
   \<and> length (filter (\<lambda>s. date_of (timestamp s) = 0)
        (detect_prev_high_break default_config (example_context crossing_bars))) = 2"
proof -
  have a: "map timestamp (detect_prev_high_break default_config (example_context crossing_bars))
     = [575, 585]" by (rule crossing_signals)
  have "map (date_of \<circ> timestamp)
       (detect_prev_high_break default_config (example_context crossing_bars))
      = map date_of (map timestamp
         (detect_prev_high_break default_config (example_context crossing_bars)))" by simp
  also have "\<dots> = [0, 0]" unfolding a by (simp add: date_of_def)
  finally have b: "map (date_of \<circ> timestamp)
       (detect_prev_high_break default_config (example_context crossing_bars)) = [0, 0]" .
  have "length (filter (\<lambda>s. date_of (timestamp s) = 0)
        (detect_prev_high_break default_config (example_context crossing_bars)))
      = length (filter (\<lambda>x. x = 0) (map (date_of \<circ> timestamp)
          (detect_prev_high_break default_config (example_context crossing_bars))))"
    by (simp add: filter_map comp_def)
  also have "\<dots> = 2" unfolding b by simp
  finally show ?thesis using a b by blast
qed

section \<open>The scan over the detectors\<close>

lemma scan_loop_concat:
  "scan_loop enabled ctx ds signals =
     signals @ concat (map (detector_output ctx) (filter (\<lambda>nd. fst nd \<in> set enabled) ds))"
proof (induction ds arbitrary: signals)
  case Nil
  then show ?case by simp
next
  case (Cons nd rest)
  obtain name detector where nd: "nd = (name, detector)" by (cases nd)
  show ?case
  proof (cases "name \<in> set enabled")
    case False
    with Cons.IH nd show ?thesis by simp
  next
    case True
    show ?thesis
    proof (cases "detector ctx")
      case (Inl e)
      with True Cons.IH nd show ?thesis by (simp add: detector_output_def)
    next
      case (Inr sigs)
      with True Cons.IH nd show ?thesis by (simp add: detector_output_def)
    qed
  qed
qed

lemma scan_loop_skips_failure:
  assumes "detector ctx = Inl e"
  shows "scan_loop enabled ctx (ds1 @ (name, detector) # ds2) signals
         = scan_loop enabled ctx (ds1 @ ds2) signals"
  using assms by (simp add: scan_loop_concat detector_output_def)

text \<open>
  C8. When the indicator context has been built and a detector of the table raises, the
  scan returns the same list as a scan over the table without that detector: the stable
  sort by timestamp of the signals of the enabled detectors that returned. The exception
  does not reach the caller.
\<close>

theorem C8_failing_detector_is_skipped:
  assumes "build_ctx df vwap = Inr ctx" and "detector ctx = Inl e"
  shows "scan build_ctx (ds1 @ (name, detector) # ds2) cfg df vwap
           = scan build_ctx (ds1 @ ds2) cfg df vwap
         \<and> scan build_ctx (ds1 @ (name, detector) # ds2) cfg df vwap
           = Inr (sort_key timestamp
                    (concat (map (detector_output ctx)
                       (filter (\<lambda>nd. fst nd \<in> set (enabled_patterns cfg)) (ds1 @ ds2)))))"
  using assms by (simp add: scan_def scan_loop_concat detector_output_def)

theorem C8_failing_detector_is_skipped_witness:
  "example_build_ctx (ctx_df (example_context breakout_bars)) None
     = Inr (example_context breakout_bars)
   \<and> failing_detector (example_context breakout_bars) = Inl DetectorError
   \<and> scan example_build_ctx
        ([(''opening_range_breakout'', orb_detector)]
           @ (''previous_day_high_break'', failing_detector) # [])
        default_config (ctx_df (example_context breakout_bars)) None
     = scan example_build_ctx ([(''opening_range_breakout'', orb_detector)] @ [])
        default_config (ctx_df (example_context breakout_bars)) None
   \<and> scan example_build_ctx
        ([(''opening_range_breakout'', orb_detector)]
           @ (''previous_day_high_break'', failing_detector) # [])
        default_config (ctx_df (example_context breakout_bars)) None
     = Inr [breakout_signal]"
proof -
  have b: "example_build_ctx (ctx_df (example_context breakout_bars)) None
     = Inr (example_context breakout_bars)"
    by (simp add: example_build_ctx_def example_context_def)
  have f: "failing_detector (example_context breakout_bars) = Inl DetectorError"
    by (simp add: failing_detector_def)
  have en: "''opening_range_breakout'' \<in> set (enabled_patterns default_config)"
    by (simp add: default_config_def)
  have out: "sort_key timestamp
       (concat (map (detector_output (example_context breakout_bars))
          (filter (\<lambda>nd. fst nd \<in> set (enabled_patterns default_config))
             ([(''opening_range_breakout'', orb_detector)] @ []))))
     = [breakout_signal]"
    using en by (simp add: detector_output_def orb_detector_def breakout_detect)
  note c = C8_failing_detector_is_skipped[where build_ctx = example_build_ctx
      and df = "ctx_df (example_context breakout_bars)" and vwap = None
      and ctx = "example_context breakout_bars" and detector = failing_detector
      and e = DetectorError and ?ds1.0 = "[(''opening_range_breakout'', orb_detector)]"
      and name = "''previous_day_high_break''" and ?ds2.0 = "[]" and cfg = default_config,
      OF b f]
  from c have c1: "scan example_build_ctx
        ([(''opening_range_breakout'', orb_detector)]
           @ (''previous_day_high_break'', failing_detector) # [])
        default_config (ctx_df (example_context breakout_bars)) None
     = scan example_build_ctx ([(''opening_range_breakout'', orb_detector)] @ [])
        default_config (ctx_df (example_context breakout_bars)) None"
    by (rule conjunct1)
  from c have c2: "scan example_build_ctx
        ([(''opening_range_breakout'', orb_detector)]
           @ (''previous_day_high_break'', failing_detector) # [])
        default_config (ctx_df (example_context breakout_bars)) None
     = Inr [breakout_signal]"
    unfolding out by (rule conjunct2)
  from b f c1 c2 show ?thesis by blast
qed

section \<open>Confidence and risk:reward of a signal\<close>

lemma orb_confidence_range: "0 \<le> orb_confidence cfg ctx h l idx \<and> orb_confidence cfg ctx h l idx \<le> 1"
  by (simp add: orb_confidence_def Let_def split: option.split)

lemma macd_confidence_range: "0 \<le> macd_confidence cfg ctx idx \<and> macd_confidence cfg ctx idx \<le> 1"
  by (simp add: macd_confidence_def Let_def split: option.split)

lemma first_some_cases:
  assumes "(if A then Some a else if B then Some b else if C then Some c1
            else if D then Some d else if E then Some e else None) = Some (c::real)"
  shows "c = a \<or> c = b \<or> c = c1 \<or> c = d \<or> c = e"
  using assms by (auto split: if_splits)

lemma emitted_confidence_range:
  assumes "emitted_confidence cfg ctx h l idx tag = Some c"
  shows "0 \<le> c \<and> c \<le> 1"
proof -
  from assms have "c = orb_confidence cfg ctx h l idx \<or> c = macd_confidence cfg ctx idx
      \<or> c = 0.65 \<or> c = 0.55 \<or> c = 0.6"
    unfolding emitted_confidence_def by (rule first_some_cases)
  then show ?thesis
    using orb_confidence_range[of cfg ctx h l idx] macd_confidence_range[of cfg ctx idx]
    by auto
qed

lemma emitted_confidence_defined:
  "list_all (\<lambda>tag. \<not> Option.is_none (emitted_confidence cfg ctx h l idx tag))
     (enabled_patterns default_config)"
  by (simp add: default_config_def emitted_confidence_def)

lemma risk_reward_nonneg: "0 \<le> risk_reward s"
  by (simp add: risk_reward_def Let_def)

lemma risk_reward_zero_iff:
  "risk_reward s = 0 \<longleftrightarrow> entry_price s = stop_price s \<or> target_price s = entry_price s"
  by (auto simp: risk_reward_def Let_def)

lemma orb_long_day_confidence:
  assumes "s \<in> set (orb_long_day cfg ctx item)"
  shows "0 \<le> confidence s \<and> confidence s \<le> 1"
proof -
  let ?post = "post_opening_range cfg (ctx_df ctx) (fst item)"
  from assms have "\<exists>idx. confidence s = orb_confidence cfg ctx (fst (snd item)) (snd (snd item)) idx"
    unfolding orb_long_day_def Let_def
    by (cases "find (orb_long_cross (fst (snd item) + orb_breakout_buffer cfg) ?post)
                 [1 ..< length ?post]") auto
  then show ?thesis using orb_confidence_range by metis
qed

lemma orb_short_day_confidence:
  assumes "s \<in> set (orb_short_day cfg ctx item)"
  shows "0 \<le> confidence s \<and> confidence s \<le> 1"
proof -
  let ?post = "post_opening_range cfg (ctx_df ctx) (fst item)"
  from assms have "\<exists>idx. confidence s = orb_confidence cfg ctx (fst (snd item)) (snd (snd item)) idx"
    unfolding orb_short_day_def Let_def
    by (cases "find (orb_short_cross (snd (snd item) - orb_breakout_buffer cfg) ?post)
                 [1 ..< length ?post]") auto
  then show ?thesis using orb_confidence_range by metis
qed

lemma gap_fill_long_day_confidence:
  assumes "s \<in> set (gap_fill_long_day ctx dg)"
  shows "confidence s = 0.6"
  using assms unfolding gap_fill_long_day_def Let_def
  by (cases "find (close_rises (snd dg)) [2 ..< min (length (snd dg)) 12]")
     (auto split: option.splits if_splits)

lemma gap_fill_short_day_confidence:
  assumes "s \<in> set (gap_fill_short_day ctx dg)"
  shows "confidence s = 0.6"
  using assms unfolding gap_fill_short_day_def Let_def
  by (cases "find (close_falls (snd dg)) [2 ..< min (length (snd dg)) 12]")
     (auto split: option.splits if_splits)

lemma modelled_detectors_confidence:
  assumes "s \<in> set (detect_orb_long cfg ctx @ detect_orb_short cfg ctx
                    @ detect_gap_fill_long cfg ctx @ detect_gap_fill_short cfg ctx
                    @ detect_prev_high_break cfg ctx @ detect_prev_low_break cfg ctx)"
  shows "0 \<le> confidence s \<and> confidence s \<le> 1"
proof -
  from assms consider
      (a) "s \<in> set (detect_orb_long cfg ctx)" | (b) "s \<in> set (detect_orb_short cfg ctx)"
    | (c) "s \<in> set (detect_gap_fill_long cfg ctx)" | (d) "s \<in> set (detect_gap_fill_short cfg ctx)"
    | (e) "s \<in> set (detect_prev_high_break cfg ctx)" | (f) "s \<in> set (detect_prev_low_break cfg ctx)"
    by auto
  then show ?thesis
  proof cases
    case a
    then obtain item where "s \<in> set (orb_long_day cfg ctx item)"
      by (auto simp: detect_orb_long_def)
    then show ?thesis by (rule orb_long_day_confidence)
  next
    case b
    then obtain item where "s \<in> set (orb_short_day cfg ctx item)"
      by (auto simp: detect_orb_short_def)
    then show ?thesis by (rule orb_short_day_confidence)
  next
    case c
    then obtain dg where "s \<in> set (gap_fill_long_day ctx dg)"
      by (auto simp: detect_gap_fill_long_def split: if_splits)
    then have "confidence s = 0.6" by (rule gap_fill_long_day_confidence)
    then show ?thesis by simp
  next
    case d
    then obtain dg where "s \<in> set (gap_fill_short_day ctx dg)"
      by (auto simp: detect_gap_fill_short_def split: if_splits)
    then have "confidence s = 0.6" by (rule gap_fill_short_day_confidence)
    then show ?thesis by simp
  next
    case e
    then have "confidence s = 0.65"
      by (auto simp: detect_prev_high_break_def prev_high_signal_def Let_def split: if_splits)
    then show ?thesis by simp
  next
    case f
    then have "confidence s = 0.65"
      by (auto simp: detect_prev_low_break_def prev_low_signal_def Let_def split: if_splits)
    then show ?thesis by simp
  qed
qed

text \<open>
  C7 (as amended). Every confidence that a \<^verbatim>\<open>Signal(...)\<close> call of the 26 detectors passes
  lies in [0,1], and so does the confidence of every signal that the six modelled
  detectors emit. The risk:reward of any signal is at least 0; it is 0 when entry equals
  stop, and it is 0 exactly when entry equals stop or target equals entry (there is no
  division by zero).
\<close>

theorem C7_confidence_and_risk_reward:
  "(\<forall>c. emitted_confidence cfg ctx h l idx tag = Some c \<longrightarrow> 0 \<le> c \<and> c \<le> 1)
   \<and> list_all (\<lambda>tag. \<not> Option.is_none (emitted_confidence cfg ctx h l idx tag))
        (enabled_patterns default_config)
   \<and> (\<forall>s \<in> set (detect_orb_long cfg ctx @ detect_orb_short cfg ctx
                    @ detect_gap_fill_long cfg ctx @ detect_gap_fill_short cfg ctx
                    @ detect_prev_high_break cfg ctx @ detect_prev_low_break cfg ctx).
         0 \<le> confidence s \<and> confidence s \<le> 1)
   \<and> 0 \<le> risk_reward sig
   \<and> (entry_price sig = stop_price sig \<longrightarrow> risk_reward sig = 0)
   \<and> (risk_reward sig = 0 \<longleftrightarrow>
        entry_price sig = stop_price sig \<or> target_price sig = entry_price sig)"
proof -
  have a: "\<forall>c. emitted_confidence cfg ctx h l idx tag = Some c \<longrightarrow> 0 \<le> c \<and> c \<le> 1"
    using emitted_confidence_range by blast
  have b: "list_all (\<lambda>tag. \<not> Option.is_none (emitted_confidence cfg ctx h l idx tag))
        (enabled_patterns default_config)"
    by (rule emitted_confidence_defined)
  have c: "\<forall>s \<in> set (detect_orb_long cfg ctx @ detect_orb_short cfg ctx
                    @ detect_gap_fill_long cfg ctx @ detect_gap_fill_short cfg ctx
                    @ detect_prev_high_break cfg ctx @ detect_prev_low_break cfg ctx).
         0 \<le> confidence s \<and> confidence s \<le> 1"
    using modelled_detectors_confidence by blast
  have d: "0 \<le> risk_reward sig" by (rule risk_reward_nonneg)
  have e: "risk_reward sig = 0 \<longleftrightarrow>
        entry_price sig = stop_price sig \<or> target_price sig = entry_price sig"
    by (rule risk_reward_zero_iff)
  from a b c d e show ?thesis by blast
qed

theorem C7_confidence_and_risk_reward_witness:
  "emitted_confidence default_config (example_context breakout_bars) 451 450.5 595
       ''opening_range_breakout'' = Some 0.75
   \<and> breakout_signal \<in> set (detect_orb_long default_config (example_context breakout_bars)
        @ detect_orb_short default_config (example_context breakout_bars)
        @ detect_gap_fill_long default_config (example_context breakout_bars)
        @ detect_gap_fill_short default_config (example_context breakout_bars)
        @ detect_prev_high_break default_config (example_context breakout_bars)
        @ detect_prev_low_break default_config (example_context breakout_bars))
   \<and> 0 \<le> confidence breakout_signal \<and> confidence breakout_signal \<le> 1
   \<and> 0 \<le> risk_reward breakout_signal
   \<and> risk_reward gap_signal = 0 \<and> target_price gap_signal = entry_price gap_signal
   \<and> entry_price (gap_signal\<lparr>stop_price := 99\<rparr>) = stop_price (gap_signal\<lparr>stop_price := 99\<rparr>)
   \<and> risk_reward (gap_signal\<lparr>stop_price := 99\<rparr>) = 0"
proof -
  let ?ctx = "example_context breakout_bars"
  have m: "breakout_signal \<in> set (detect_orb_long default_config ?ctx
        @ detect_orb_short default_config ?ctx
        @ detect_gap_fill_long default_config ?ctx
        @ detect_gap_fill_short default_config ?ctx
        @ detect_prev_high_break default_config ?ctx
        @ detect_prev_low_break default_config ?ctx)"
    by (simp add: breakout_detect)
  have ec: "emitted_confidence default_config ?ctx 451 450.5 595 ''opening_range_breakout''
      = Some 0.75"
    by (simp add: emitted_confidence_def orb_confidence_def series_get_def example_context_def
        default_config_def)
  have g: "target_price gap_signal = entry_price gap_signal" by (simp add: gap_signal_def)
  have g2: "entry_price (gap_signal\<lparr>stop_price := 99\<rparr>) = stop_price (gap_signal\<lparr>stop_price := 99\<rparr>)"
    by (simp add: gap_signal_def)
  note t1 = C7_confidence_and_risk_reward[of default_config ?ctx 451 "450.5" 595
      "''opening_range_breakout''" breakout_signal]
  note t2 = C7_confidence_and_risk_reward[of default_config ?ctx 451 "450.5" 595
      "''opening_range_breakout''" gap_signal]
  note t3 = C7_confidence_and_risk_reward[of default_config ?ctx 451 "450.5" 595
      "''opening_range_breakout''" "gap_signal\<lparr>stop_price := 99\<rparr>"]
  from t1 m have c: "0 \<le> confidence breakout_signal \<and> confidence breakout_signal \<le> 1" by blast
  from t1 have r: "0 \<le> risk_reward breakout_signal" by blast
  from t2 g have z: "risk_reward gap_signal = 0" by blast
  from t3 g2 have z2: "risk_reward (gap_signal\<lparr>stop_price := 99\<rparr>) = 0" by blast
  from ec m c r z g g2 z2 show ?thesis by blast
qed

text \<open>
  C7, counterexample. After a gap down of 0.80 the gap-fill detector emits a signal whose
  target, the previous close, equals its entry: its risk:reward is 0 although its entry
  (99) differs from its stop (97.9).
\<close>

theorem C7_zero_reward_counterexample:
  "detect_gap_fill_long default_config (example_context gap_bars) = [gap_signal]
   \<and> risk_reward gap_signal = 0
   \<and> entry_price gap_signal \<noteq> stop_price gap_signal"
  by (simp add: gap_detect) (simp add: risk_reward_def gap_signal_def)

section \<open>Time value of the Black-Scholes price\<close>

subsection \<open>The distribution function and its density\<close>

text \<open>
  The series of \<open>norm_cdf\<close> can be differentiated term by term; its derivative is the
  density, so \<open>norm_cdf\<close> is non-decreasing.
\<close>

lemma norm_cdf_series_deriv:
  "DERIV norm_cdf_series y :> (\<Sum>m. diffs norm_cdf_coeff m * y ^ m)"
proof -
  have "DERIV (\<lambda>x. \<Sum>n. norm_cdf_coeff n * x ^ n) y :> (\<Sum>n. diffs norm_cdf_coeff n * y ^ n)"
  proof (rule termdiffs_strong)
    show "summable (\<lambda>n. norm_cdf_coeff n * (\<bar>y\<bar> + 1) ^ n)" by (rule norm_cdf_series_summable)
    show "norm y < norm (\<bar>y\<bar> + 1)" by simp
  qed
  moreover have "norm_cdf_series = (\<lambda>x. \<Sum>n. norm_cdf_coeff n * x ^ n)"
    by (rule ext) (simp add: norm_cdf_series_def)
  ultimately show ?thesis by simp
qed

lemma norm_cdf_coeff_term:
  "norm_cdf_coeff n * y ^ n + 2 * y * (of_nat n * norm_cdf_coeff n * y ^ (n - Suc 0))
   = (- y / 2) ^ n /\<^sub>R fact n"
proof -
  have k: "norm_cdf_coeff n * (1 + 2 * of_nat n) = (- 1) ^ n / (fact n * 2 ^ n)"
    by (simp add: norm_cdf_coeff_def add.commute)
  have p: "y * y ^ (n - Suc 0) * of_nat n = y ^ n * of_nat n"
    by (cases n) simp_all
  have "norm_cdf_coeff n * y ^ n + 2 * y * (of_nat n * norm_cdf_coeff n * y ^ (n - Suc 0))
        = norm_cdf_coeff n * y ^ n + 2 * norm_cdf_coeff n * (y * y ^ (n - Suc 0) * of_nat n)"
    by simp
  also have "\<dots> = (norm_cdf_coeff n * (1 + 2 * of_nat n)) * y ^ n"
    unfolding p by (simp add: algebra_simps)
  also have "\<dots> = (- 1) ^ n / (fact n * 2 ^ n) * y ^ n" unfolding k ..
  also have "\<dots> = (- y / 2) ^ n /\<^sub>R fact n"
  proof -
    have "(- (y / 2)) ^ n = (- 1) ^ n * (y / 2) ^ n" by (rule power_minus)
    then have "(- y / 2) ^ n = (- 1) ^ n * y ^ n / 2 ^ n"
      by (simp add: power_divide)
    then have "(- y / 2) ^ n /\<^sub>R fact n = inverse (fact n) * ((- 1) ^ n * y ^ n / 2 ^ n)"
      by (simp only: real_scaleR_def)
    also have "\<dots> = (- 1) ^ n / (fact n * 2 ^ n) * y ^ n"
      by (simp add: field_simps)
    finally show ?thesis by simp
  qed
  finally show ?thesis .
qed

lemma norm_cdf_series_ode:
  "norm_cdf_series y + 2 * y * (\<Sum>m. diffs norm_cdf_coeff m * y ^ m) = exp (- y / 2)"
proof -
  have sd: "summable (\<lambda>n. diffs norm_cdf_coeff n * y ^ n)"
    by (rule termdiff_converges_all) (rule norm_cdf_series_summable)
  have A: "(\<lambda>n. norm_cdf_coeff n * y ^ n) sums norm_cdf_series y"
    unfolding norm_cdf_series_def by (rule summable_sums) (rule norm_cdf_series_summable)
  have B: "(\<lambda>n. of_nat n * norm_cdf_coeff n * y ^ (n - Suc 0))
             sums (\<Sum>n. diffs norm_cdf_coeff n * y ^ n)"
    by (rule diffs_equiv) (rule sd)
  have B': "(\<lambda>n. 2 * y * (of_nat n * norm_cdf_coeff n * y ^ (n - Suc 0)))
             sums (2 * y * (\<Sum>n. diffs norm_cdf_coeff n * y ^ n))"
    by (rule sums_mult) (rule B)
  have C: "(\<lambda>n. norm_cdf_coeff n * y ^ n
                 + 2 * y * (of_nat n * norm_cdf_coeff n * y ^ (n - Suc 0)))
             sums (norm_cdf_series y + 2 * y * (\<Sum>n. diffs norm_cdf_coeff n * y ^ n))"
    by (rule sums_add) (rule A, rule B')
  have D: "(\<lambda>n. (- y / 2) ^ n /\<^sub>R fact n)
             sums (norm_cdf_series y + 2 * y * (\<Sum>n. diffs norm_cdf_coeff n * y ^ n))"
    using C unfolding norm_cdf_coeff_term .
  have E: "(\<lambda>n. (- y / 2) ^ n /\<^sub>R fact n) sums exp (- y / 2)" by (rule exp_converges)
  from D E show ?thesis by (rule sums_unique2)
qed

lemma norm_cdf_deriv: "DERIV norm_cdf x :> norm_pdf x"
proof -
  let ?G = "\<lambda>y. (\<Sum>m. diffs norm_cdf_coeff m * y ^ m)"
  have sq: "DERIV (\<lambda>x. x * x) x :> 1 * x + 1 * x"
    by (rule DERIV_mult[OF DERIV_ident DERIV_ident])
  have comp: "DERIV (\<lambda>x. norm_cdf_series (x * x)) x :> ?G (x * x) * (1 * x + 1 * x)"
    by (rule DERIV_chain'[OF sq norm_cdf_series_deriv])
  have m: "DERIV (\<lambda>x. x * norm_cdf_series (x * x)) x
             :> 1 * norm_cdf_series (x * x) + ?G (x * x) * (1 * x + 1 * x) * x"
    by (rule DERIV_mult[OF DERIV_ident comp])
  have d: "DERIV (\<lambda>x. x * norm_cdf_series (x * x) / sqrt (2 * pi)) x
             :> (1 * norm_cdf_series (x * x) + ?G (x * x) * (1 * x + 1 * x) * x) / sqrt (2 * pi)"
    by (rule DERIV_cdivide[OF m])
  have a: "DERIV (\<lambda>x. 1 / 2 + x * norm_cdf_series (x * x) / sqrt (2 * pi)) x
             :> 0 + (1 * norm_cdf_series (x * x) + ?G (x * x) * (1 * x + 1 * x) * x) / sqrt (2 * pi)"
    by (rule DERIV_add[OF DERIV_const d])
  have e: "1 * norm_cdf_series (x * x) + ?G (x * x) * (1 * x + 1 * x) * x = exp (- (x * x) / 2)"
    using norm_cdf_series_ode[of "x * x"] by (simp add: algebra_simps)
  have f: "norm_cdf = (\<lambda>x. 1 / 2 + x * norm_cdf_series (x * x) / sqrt (2 * pi))"
    by (rule ext) (simp add: norm_cdf_def)
  show ?thesis using a unfolding e f norm_pdf_def by simp
qed

lemma norm_pdf_pos: "0 < norm_pdf x"
  by (simp add: norm_pdf_def)

lemma norm_cdf_minus: "norm_cdf (- x) = 1 - norm_cdf x"
  by (simp add: norm_cdf_def)

lemma norm_cdf_mono:
  assumes "x \<le> y"
  shows "norm_cdf x \<le> norm_cdf y"
proof (rule DERIV_nonneg_imp_nondecreasing[of x y norm_cdf])
  show "x \<le> y" by (rule assms)
next
  fix z
  show "\<exists>D. DERIV norm_cdf z :> D \<and> 0 \<le> D"
    using norm_cdf_deriv[of z] norm_pdf_pos[of z] by (intro exI[of _ "norm_pdf z"]) simp
qed

lemma norm_pdf_ratio:
  assumes "0 < S" "0 < K" "0 < b"
  shows "S * norm_pdf ((ln (S / K) + r * T + b * b / 2) / b)
         = K * exp (- r * T) * norm_pdf ((ln (S / K) + r * T + b * b / 2) / b - b)"
proof -
  define L where "L = ln (S / K)"
  define d1 where "d1 = (L + r * T + b * b / 2) / b"
  have d2: "d1 - b = (L + r * T - b * b / 2) / b"
    using assms(3) by (simp add: d1_def field_simps)
  have "d1 * d1 - (d1 - b) * (d1 - b) = 2 * (L + r * T)"
    unfolding d2 using assms(3) unfolding d1_def by (simp add: field_simps)
  then have e: "- (d1 * d1) / 2 = - ((d1 - b) * (d1 - b)) / 2 - L - r * T" by simp
  have SK: "S = K * exp L" using assms by (simp add: L_def)
  have "S * exp (- (d1 * d1) / 2) = K * (exp L * exp (- ((d1 - b) * (d1 - b)) / 2 - L - r * T))"
    unfolding e by (subst SK) simp
  also have "exp L * exp (- ((d1 - b) * (d1 - b)) / 2 - L - r * T)
             = exp (- r * T) * exp (- ((d1 - b) * (d1 - b)) / 2)"
    unfolding exp_add[symmetric] by simp
  finally have "S * exp (- (d1 * d1) / 2) = K * exp (- r * T) * exp (- ((d1 - b) * (d1 - b)) / 2)"
    by simp
  then show ?thesis unfolding norm_pdf_def d1_def[symmetric] L_def[symmetric] by simp
qed

lemma call_value_deriv:
  assumes d1: "DERIV d1 T :> D1" and b: "DERIV b T :> B"
      and idn: "S * norm_pdf (d1 T) = K * exp (- r * T) * norm_pdf (d1 T - b T)"
  shows "DERIV (\<lambda>T. S * norm_cdf (d1 T) - K * exp (- r * T) * norm_cdf (d1 T - b T)) T
           :> K * exp (- r * T) * (norm_pdf (d1 T - b T) * B + r * norm_cdf (d1 T - b T))"
proof -
  have n1: "DERIV (\<lambda>T. norm_cdf (d1 T)) T :> norm_pdf (d1 T) * D1"
    by (rule DERIV_chain'[OF d1 norm_cdf_deriv])
  have d2: "DERIV (\<lambda>T. d1 T - b T) T :> D1 - B" by (rule DERIV_diff[OF d1 b])
  have n2: "DERIV (\<lambda>T. norm_cdf (d1 T - b T)) T :> norm_pdf (d1 T - b T) * (D1 - B)"
    by (rule DERIV_chain'[OF d2 norm_cdf_deriv])
  have lin: "DERIV (\<lambda>T. - r * T) T :> - r * 1" by (rule DERIV_cmult[OF DERIV_ident])
  have e: "DERIV (\<lambda>T. exp (- r * T)) T :> exp (- r * T) * (- r * 1)"
    by (rule DERIV_chain'[OF lin DERIV_exp])
  have t1: "DERIV (\<lambda>T. S * norm_cdf (d1 T)) T :> S * (norm_pdf (d1 T) * D1)"
    by (rule DERIV_cmult[OF n1])
  have t2: "DERIV (\<lambda>T. exp (- r * T) * norm_cdf (d1 T - b T)) T
              :> exp (- r * T) * (- r * 1) * norm_cdf (d1 T - b T)
                 + norm_pdf (d1 T - b T) * (D1 - B) * exp (- r * T)"
    by (rule DERIV_mult[OF e n2])
  have t3: "DERIV (\<lambda>T. K * (exp (- r * T) * norm_cdf (d1 T - b T))) T
              :> K * (exp (- r * T) * (- r * 1) * norm_cdf (d1 T - b T)
                 + norm_pdf (d1 T - b T) * (D1 - B) * exp (- r * T))"
    by (rule DERIV_cmult[OF t2])
  have t4: "DERIV (\<lambda>T. S * norm_cdf (d1 T) - K * (exp (- r * T) * norm_cdf (d1 T - b T))) T
              :> S * (norm_pdf (d1 T) * D1)
                 - K * (exp (- r * T) * (- r * 1) * norm_cdf (d1 T - b T)
                 + norm_pdf (d1 T - b T) * (D1 - B) * exp (- r * T))"
    by (rule DERIV_diff[OF t1 t3])
  have "S * (norm_pdf (d1 T) * D1) = K * exp (- r * T) * norm_pdf (d1 T - b T) * D1"
    using idn by simp
  then have eq: "S * (norm_pdf (d1 T) * D1)
                 - K * (exp (- r * T) * (- r * 1) * norm_cdf (d1 T - b T)
                 + norm_pdf (d1 T - b T) * (D1 - B) * exp (- r * T))
        = K * exp (- r * T) * (norm_pdf (d1 T - b T) * B + r * norm_cdf (d1 T - b T))"
    by (simp add: algebra_simps)
  show ?thesis using t4 unfolding eq by (simp add: mult.assoc)
qed

subsection \<open>The range of the distribution function\<close>

text \<open>
  The integrals of the powers of the cosine over a quarter period satisfy
  \<open>(m + 1) * wallis m * wallis (m + 1) = pi / 2\<close> and decrease with \<open>m\<close>. Compared with
  \<open>exp (- x * x / 2)\<close> through \<open>x = c * tan t\<close> and \<open>x = c * sin t\<close>, they give
  \<open>0 \<le> norm_cdf x \<le> 1\<close>, a tail below any positive bound, and the bound
  \<open>1 - norm_cdf y \<le> norm_pdf y / y\<close> for \<open>y > 0\<close>.
\<close>

lemma cos_int_0: "cos_int m 0 = 0"
  by (rule cos_int.induct[of "\<lambda>m t. cos_int m 0 = 0" m 0]) simp_all

lemma cos_int_deriv: "DERIV (cos_int m) t :> cos t ^ m"
proof (induction m t rule: cos_int.induct)
  case (1 t)
  have "DERIV (\<lambda>t. t) t :> 1" by (rule DERIV_ident)
  moreover have "cos_int 0 = (\<lambda>t. t)" by (rule ext) simp
  ultimately show ?case by simp
next
  case (2 t)
  have "DERIV sin t :> cos t" by (rule DERIV_sin)
  moreover have "cos_int (Suc 0) = sin" by (rule ext) simp
  ultimately show ?case by simp
next
  case (3 m t)
  have c0: "DERIV (\<lambda>t. cos t ^ Suc m) t :> real (Suc m) * (- sin t * cos t ^ (Suc m - Suc 0))"
    by (rule DERIV_power[OF DERIV_cos])
  have ceq: "real (Suc m) * (- sin t * cos t ^ (Suc m - Suc 0)) = real (Suc m) * cos t ^ m * (- sin t)"
    by simp
  have c: "DERIV (\<lambda>t. cos t ^ Suc m) t :> real (Suc m) * cos t ^ m * (- sin t)"
    using c0 unfolding ceq .
  have p: "DERIV (\<lambda>t. cos t ^ Suc m * sin t) t
             :> real (Suc m) * cos t ^ m * (- sin t) * sin t + cos t * cos t ^ Suc m"
    by (rule DERIV_mult[OF c DERIV_sin])
  have i: "DERIV (\<lambda>t. real (Suc m) * cos_int m t) t :> real (Suc m) * cos t ^ m"
    by (rule DERIV_cmult[OF "3.IH"])
  have s: "DERIV (\<lambda>t. cos t ^ Suc m * sin t + real (Suc m) * cos_int m t) t
             :> real (Suc m) * cos t ^ m * (- sin t) * sin t + cos t * cos t ^ Suc m
                + real (Suc m) * cos t ^ m"
    by (rule DERIV_add[OF p i])
  have d: "DERIV (\<lambda>t. (cos t ^ Suc m * sin t + real (Suc m) * cos_int m t) / real (Suc (Suc m))) t
             :> (real (Suc m) * cos t ^ m * (- sin t) * sin t + cos t * cos t ^ Suc m
                + real (Suc m) * cos t ^ m) / real (Suc (Suc m))"
    by (rule DERIV_cdivide[OF s])
  have s2: "sin t * sin t = 1 - cos t * cos t"
    using sin_cos_squared_add[of t] by (simp add: power2_eq_square)
  have alg: "k * a * (- s) * s + c * (c * a) + k * a = (1 + k) * (c * (c * a))"
    if "s * s = 1 - c * c" for k a s c :: real
  proof -
    have 1: "k * a * (- s) * s = - (k * a) * (s * s)" by simp
    have 2: "- (k * a) * (1 - c * c) + c * (c * a) + k * a = (1 + k) * (c * (c * a))"
      by (simp add: algebra_simps)
    show ?thesis unfolding 1 that by (rule 2)
  qed
  have "real (Suc m) * cos t ^ m * (- sin t) * sin t + cos t * cos t ^ Suc m
                + real (Suc m) * cos t ^ m
              = real (Suc (Suc m)) * cos t ^ Suc (Suc m)"
    using alg[OF s2, of "real (Suc m)" "cos t ^ m"] by (simp only: power_Suc of_nat_Suc)
  then have e: "(real (Suc m) * cos t ^ m * (- sin t) * sin t + cos t * cos t ^ Suc m
                + real (Suc m) * cos t ^ m) / real (Suc (Suc m)) = cos t ^ Suc (Suc m)"
    by simp
  have f: "cos_int (Suc (Suc m))
           = (\<lambda>t. (cos t ^ Suc m * sin t + real (Suc m) * cos_int m t) / real (Suc (Suc m)))"
    by (rule ext) simp
  show ?case using d unfolding e f .
qed

lemma wallis_0: "wallis 0 = pi / 2" by (simp add: wallis_def)

lemma wallis_1: "wallis (Suc 0) = 1" by (simp add: wallis_def)

lemma wallis_Suc_Suc: "wallis (Suc (Suc m)) = real (Suc m) / real (Suc (Suc m)) * wallis m"
  by (simp add: wallis_def)

lemma wallis_pos: "0 < wallis m"
proof (rule cos_int.induct[of "\<lambda>m t. 0 < wallis m" m 0])
  show "0 < wallis 0" by (simp add: wallis_0)
  show "0 < wallis (Suc 0)" by (simp add: wallis_1)
  show "0 < wallis (Suc (Suc m))" if "0 < wallis m" for m
    unfolding wallis_Suc_Suc using that by (intro mult_pos_pos divide_pos_pos) simp_all
qed

lemma wallis_product: "real (Suc m) * wallis m * wallis (Suc m) = pi / 2"
proof (induction m)
  case 0
  show ?case by (simp add: wallis_0 wallis_1)
next
  case (Suc m)
  have nz: "real (Suc (Suc m)) \<noteq> 0" by simp
  have "real (Suc (Suc m)) * wallis (Suc m) * wallis (Suc (Suc m))
        = real (Suc (Suc m)) * (real (Suc m) / real (Suc (Suc m))) * wallis m * wallis (Suc m)"
    unfolding wallis_Suc_Suc by (simp only: mult_ac)
  also have "real (Suc (Suc m)) * (real (Suc m) / real (Suc (Suc m))) = real (Suc m)"
    using nz by simp
  finally show ?case unfolding Suc .
qed

lemma wallis_antimono: "wallis (Suc m) \<le> wallis m"
proof -
  let ?f = "\<lambda>t. cos_int m t - cos_int (Suc m) t"
  have "?f 0 \<le> ?f (pi / 2)"
  proof (rule DERIV_nonneg_imp_nondecreasing[of 0 "pi / 2" ?f])
    show "0 \<le> pi / 2" by simp
  next
    fix t :: real assume t: "0 \<le> t" "t \<le> pi / 2"
    have d: "DERIV ?f t :> cos t ^ m - cos t ^ Suc m"
      by (rule DERIV_diff[OF cos_int_deriv cos_int_deriv])
    have c0: "0 \<le> cos t" using t by (intro cos_ge_zero) simp_all
    have "cos t ^ Suc m = cos t ^ m * cos t" by simp
    also have "\<dots> \<le> cos t ^ m * 1" using c0 by (intro mult_left_mono) simp_all
    finally have "0 \<le> cos t ^ m - cos t ^ Suc m" by simp
    with d show "\<exists>D. DERIV ?f t :> D \<and> 0 \<le> D" by blast
  qed
  then show ?thesis by (simp add: cos_int_0 wallis_def)
qed

lemma wallis_square_le: "wallis (Suc m) * wallis (Suc m) \<le> pi / (2 * real (Suc m))"
proof -
  have "wallis (Suc m) * wallis (Suc m) \<le> wallis m * wallis (Suc m)"
    using wallis_antimono[of m] wallis_pos[of "Suc m"] by (intro mult_right_mono) simp_all
  also have "\<dots> = pi / (2 * real (Suc m))"
    using wallis_product[of m] by (simp add: field_simps)
  finally show ?thesis .
qed

lemma wallis_square_ge: "pi / (2 * real (Suc (Suc m))) \<le> wallis (Suc m) * wallis (Suc m)"
proof -
  have "pi / (2 * real (Suc (Suc m))) = wallis (Suc m) * wallis (Suc (Suc m))"
    using wallis_product[of "Suc m"] by (simp add: field_simps)
  also have "\<dots> \<le> wallis (Suc m) * wallis (Suc m)"
    using wallis_antimono[of "Suc m"] wallis_pos[of "Suc m"] by (intro mult_left_mono) simp_all
  finally show ?thesis .
qed

lemma exp_neg_tan_le:
  assumes "cos t \<noteq> 0"
  shows "exp (- (real N * (tan t * tan t))) \<le> (cos t * cos t) ^ N"
proof -
  have s: "1 + tan t * tan t = inverse (cos t * cos t)"
    using tan_sec[OF assms] by (simp add: power2_eq_square)
  have "0 < (cos t)\<^sup>2" using assms by simp
  then have pos: "0 < cos t * cos t" by (simp add: power2_eq_square)
  have "1 + tan t * tan t \<le> exp (tan t * tan t)" by (rule exp_ge_add_one_self)
  then have "inverse (cos t * cos t) \<le> exp (tan t * tan t)" unfolding s .
  moreover have "0 < inverse (cos t * cos t)"
    using pos by (rule positive_imp_inverse_positive)
  ultimately have "inverse (exp (tan t * tan t)) \<le> inverse (inverse (cos t * cos t))"
    by (rule le_imp_inverse_le)
  then have e1: "exp (- (tan t * tan t)) \<le> cos t * cos t" by (simp add: exp_minus)
  have "exp (real N * (- (tan t * tan t))) = exp (- (tan t * tan t)) ^ N"
    by (rule exp_of_nat_mult)
  also have "\<dots> \<le> (cos t * cos t) ^ N" using e1 by (intro power_mono) simp_all
  finally show ?thesis by simp
qed

lemma gauss_upper_step:
  assumes c: "0 < c" "c * c = 2 * real (Suc n)" and t: "0 < cos t"
  shows "\<exists>D. DERIV (\<lambda>t. norm_cdf (c * tan t) - c / sqrt (2 * pi) * cos_int (2 * n) t) t :> D
             \<and> D \<le> 0"
proof -
  have ct: "cos t \<noteq> 0" using t by simp
  have d1: "DERIV (\<lambda>t. c * tan t) t :> c * inverse ((cos t)\<^sup>2)"
    by (rule DERIV_cmult[OF DERIV_tan[OF ct]])
  have d2: "DERIV (\<lambda>t. norm_cdf (c * tan t)) t
              :> norm_pdf (c * tan t) * (c * inverse ((cos t)\<^sup>2))"
    by (rule DERIV_chain'[OF d1 norm_cdf_deriv])
  have d3: "DERIV (\<lambda>t. c / sqrt (2 * pi) * cos_int (2 * n) t) t
              :> c / sqrt (2 * pi) * cos t ^ (2 * n)"
    by (rule DERIV_cmult[OF cos_int_deriv])
  have d: "DERIV (\<lambda>t. norm_cdf (c * tan t) - c / sqrt (2 * pi) * cos_int (2 * n) t) t
             :> norm_pdf (c * tan t) * (c * inverse ((cos t)\<^sup>2))
                - c / sqrt (2 * pi) * cos t ^ (2 * n)"
    by (rule DERIV_diff[OF d2 d3])
  have "c * tan t * (c * tan t) = (c * c) * (tan t * tan t)" by (simp only: mult_ac)
  also have "\<dots> = 2 * real (Suc n) * (tan t * tan t)" by (simp only: c(2))
  finally have sqr: "c * tan t * (c * tan t) = 2 * real (Suc n) * (tan t * tan t)" .
  have "c * tan t * (c * tan t) / 2 = real (Suc n) * (tan t * tan t)"
    unfolding sqr by simp
  then have pdf: "norm_pdf (c * tan t)
                  = exp (- (real (Suc n) * (tan t * tan t))) / sqrt (2 * pi)"
    unfolding norm_pdf_def by simp
  have a: "norm_pdf (c * tan t) \<le> (cos t * cos t) ^ Suc n / sqrt (2 * pi)"
    unfolding pdf using exp_neg_tan_le[OF ct, of "Suc n"] by (intro divide_right_mono) simp_all
  have i0: "0 \<le> c * inverse ((cos t)\<^sup>2)" using c(1) by simp
  have b: "norm_pdf (c * tan t) * (c * inverse ((cos t)\<^sup>2))
           \<le> (cos t * cos t) ^ Suc n / sqrt (2 * pi) * (c * inverse ((cos t)\<^sup>2))"
    using a i0 by (rule mult_right_mono)
  have p: "(cos t * cos t) ^ Suc n * inverse ((cos t)\<^sup>2) = cos t ^ (2 * n)"
  proof -
    have q: "(cos t)\<^sup>2 = cos t * cos t" by (rule power2_eq_square)
    have nz: "cos t * cos t \<noteq> 0" using ct by simp
    have "(cos t * cos t) ^ Suc n * inverse (cos t * cos t)
          = (cos t * cos t) ^ n * ((cos t * cos t) * inverse (cos t * cos t))"
      by (simp only: power_Suc mult_ac)
    also have "\<dots> = (cos t * cos t) ^ n" by (simp only: right_inverse[OF nz] mult_1_right)
    also have "\<dots> = cos t ^ (2 * n)" by (simp add: power_mult power2_eq_square)
    finally show ?thesis unfolding q .
  qed
  have r1: "A / s * (c * I) = c / s * (A * I)" for A s I :: real by simp
  from b have "norm_pdf (c * tan t) * (c * inverse ((cos t)\<^sup>2))
               \<le> c / sqrt (2 * pi) * cos t ^ (2 * n)"
    unfolding r1 p .
  then have "norm_pdf (c * tan t) * (c * inverse ((cos t)\<^sup>2))
                - c / sqrt (2 * pi) * cos t ^ (2 * n) \<le> 0"
    by (simp only: diff_le_0_iff_le)
  with d show ?thesis by blast
qed

lemma cos_int_even_mono:
  assumes "a \<le> b"
  shows "cos_int (2 * n) a \<le> cos_int (2 * n) b"
proof (rule DERIV_nonneg_imp_nondecreasing[of a b "cos_int (2 * n)"])
  show "a \<le> b" by (rule assms)
next
  fix t :: real
  have "cos t ^ (2 * n) = (cos t * cos t) ^ n" by (simp add: power_mult power2_eq_square)
  then have "0 \<le> cos t ^ (2 * n)" by simp
  with cos_int_deriv[of "2 * n" t] show "\<exists>y. DERIV (cos_int (2 * n)) t :> y \<and> 0 \<le> y"
    by blast
qed

lemma gauss_upper_n:
  assumes "0 \<le> x"
  shows "norm_cdf x - 1 / 2 \<le> sqrt (2 * real (Suc n)) / sqrt (2 * pi) * wallis (2 * n)"
proof -
  define c where "c = sqrt (2 * real (Suc n))"
  have c: "0 < c" "c * c = 2 * real (Suc n)" by (simp_all add: c_def)
  define t0 where "t0 = arctan (x / c)"
  have t0: "0 \<le> t0" "t0 < pi / 2"
  proof -
    show "0 \<le> t0" using assms c(1) by (simp add: t0_def)
    show "t0 < pi / 2" unfolding t0_def by (rule arctan_ubound)
  qed
  let ?U = "\<lambda>t. norm_cdf (c * tan t) - c / sqrt (2 * pi) * cos_int (2 * n) t"
  have "?U t0 \<le> ?U 0"
  proof (rule DERIV_nonpos_imp_nonincreasing[of 0 t0 ?U])
    show "0 \<le> t0" by (rule t0)
  next
    fix t assume t: "0 \<le> t" "t \<le> t0"
    have "- (pi / 2) < t" using t(1) pi_gt_zero by linarith
    moreover have "t < pi / 2" using t(2) t0(2) by linarith
    ultimately have "0 < cos t" by (rule cos_gt_zero_pi)
    then show "\<exists>y. DERIV ?U t :> y \<and> y \<le> 0" by (rule gauss_upper_step[OF c])
  qed
  then have le: "norm_cdf (c * tan t0) - c / sqrt (2 * pi) * cos_int (2 * n) t0
                 \<le> norm_cdf (c * tan 0) - c / sqrt (2 * pi) * cos_int (2 * n) 0" .
  have xt: "c * tan t0 = x" using c(1) by (simp add: t0_def tan_arctan)
  from le have "norm_cdf x - c / sqrt (2 * pi) * cos_int (2 * n) t0 \<le> 1 / 2 - c / sqrt (2 * pi) * 0"
    unfolding xt by (simp only: tan_zero mult_zero_right norm_cdf_0 cos_int_0)
  then have 1: "norm_cdf x - 1 / 2 \<le> c / sqrt (2 * pi) * cos_int (2 * n) t0" by simp
  have "cos_int (2 * n) t0 \<le> cos_int (2 * n) (pi / 2)"
    by (rule cos_int_even_mono) (use t0 in simp)
  then have "c / sqrt (2 * pi) * cos_int (2 * n) t0 \<le> c / sqrt (2 * pi) * wallis (2 * n)"
    unfolding wallis_def using c(1) by (intro mult_left_mono) simp_all
  with 1 show ?thesis unfolding c_def by linarith
qed

lemma gauss_upper_square:
  assumes "0 \<le> x"
  shows "(norm_cdf x - 1 / 2) * (norm_cdf x - 1 / 2) \<le> 1 / 4 + inverse (real (Suc k)) / 4"
proof -
  define z where "z = norm_cdf x - 1 / 2"
  define c where "c = sqrt (2 * real (Suc (Suc k)))"
  define s where "s = sqrt (2 * pi)"
  define w where "w = wallis (2 * Suc k)"
  have z0: "0 \<le> z" using norm_cdf_mono[OF assms] by (simp add: z_def norm_cdf_0)
  have cc: "c * c = 2 * real (Suc (Suc k))" by (simp add: c_def)
  have ss: "s * s = 2 * pi" by (simp add: s_def)
  have s0: "0 < s" by (simp add: s_def)
  have "2 * Suc k = Suc (2 * k + 1)" by simp
  then have ww: "w * w \<le> pi / (2 * real (Suc (2 * k + 1)))"
    unfolding w_def using wallis_square_le[of "2 * k + 1"] by simp
  have b: "z \<le> c / s * w" unfolding z_def c_def s_def w_def by (rule gauss_upper_n[OF assms])
  have "z * z \<le> (c / s * w) * (c / s * w)" using b z0 by (intro mult_mono) simp_all
  also have "(c / s * w) * (c / s * w) = (c * c) / (s * s) * (w * w)" by simp
  also have "\<dots> = (2 * real (Suc (Suc k))) / (2 * pi) * (w * w)" by (simp only: cc ss)
  also have "\<dots> = real (Suc (Suc k)) / pi * (w * w)"
    by (simp only: mult_divide_mult_cancel_left[of 2, simplified])
  also have "\<dots> \<le> real (Suc (Suc k)) / pi * (pi / (2 * real (Suc (2 * k + 1))))"
    using ww by (intro mult_left_mono) simp_all
  also have "\<dots> = real (Suc (Suc k)) / (4 * real (Suc k))" by simp
  also have "\<dots> = 1 / 4 + inverse (real (Suc k)) / 4"
    by (simp add: field_simps)
  finally show ?thesis unfolding z_def .
qed

lemma norm_cdf_le_1: "norm_cdf x \<le> 1"
proof (cases "0 \<le> x")
  case True
  define z where "z = norm_cdf x - 1 / 2"
  have z0: "0 \<le> z" using norm_cdf_mono[OF True] by (simp add: z_def norm_cdf_0)
  have "z \<le> 1 / 2"
  proof (rule ccontr)
    assume "\<not> z \<le> 1 / 2"
    then have h: "1 / 2 < z" by simp
    have "(1 / 2) * (1 / 2) < z * z" using h by (intro mult_strict_mono) simp_all
    then have "0 < z * z - 1 / 4" by simp
    then obtain k where k: "inverse (real (Suc k)) < z * z - 1 / 4"
      using reals_Archimedean by blast
    have "z * z \<le> 1 / 4 + inverse (real (Suc k)) / 4"
      unfolding z_def by (rule gauss_upper_square[OF True])
    moreover have "0 < inverse (real (Suc k))" by simp
    ultimately show False using k by linarith
  qed
  then show ?thesis by (simp add: z_def)
next
  case False
  then have "x \<le> 0" by simp
  from norm_cdf_mono[OF this] show ?thesis by (simp add: norm_cdf_0)
qed

lemma norm_cdf_nonneg: "0 \<le> norm_cdf x"
  using norm_cdf_le_1[of "- x"] by (simp add: norm_cdf_minus)

lemma cos_power_le_exp:
  "(cos t * cos t) ^ N \<le> exp (- (real N * (sin t * sin t)))"
proof -
  have s2: "cos t * cos t = 1 + - (sin t * sin t)"
    using sin_cos_squared_add[of t] by (simp add: power2_eq_square)
  have "1 + - (sin t * sin t) \<le> exp (- (sin t * sin t))" by (rule exp_ge_add_one_self)
  then have e1: "cos t * cos t \<le> exp (- (sin t * sin t))" unfolding s2 .
  have "(cos t * cos t) ^ N \<le> exp (- (sin t * sin t)) ^ N"
    using e1 by (intro power_mono) simp_all
  also have "\<dots> = exp (real N * (- (sin t * sin t)))" by (rule exp_of_nat_mult[symmetric])
  finally show ?thesis by simp
qed

lemma gauss_lower_step:
  assumes c: "0 < c" "c * c = 2 * real n" and t: "0 \<le> cos t"
  shows "\<exists>D. DERIV (\<lambda>t. norm_cdf (c * sin t) - c / sqrt (2 * pi) * cos_int (Suc (2 * n)) t) t :> D
             \<and> 0 \<le> D"
proof -
  have d1: "DERIV (\<lambda>t. c * sin t) t :> c * cos t"
    by (rule DERIV_cmult[OF DERIV_sin])
  have d2: "DERIV (\<lambda>t. norm_cdf (c * sin t)) t :> norm_pdf (c * sin t) * (c * cos t)"
    by (rule DERIV_chain'[OF d1 norm_cdf_deriv])
  have d3: "DERIV (\<lambda>t. c / sqrt (2 * pi) * cos_int (Suc (2 * n)) t) t
              :> c / sqrt (2 * pi) * cos t ^ Suc (2 * n)"
    by (rule DERIV_cmult[OF cos_int_deriv])
  have d: "DERIV (\<lambda>t. norm_cdf (c * sin t) - c / sqrt (2 * pi) * cos_int (Suc (2 * n)) t) t
             :> norm_pdf (c * sin t) * (c * cos t) - c / sqrt (2 * pi) * cos t ^ Suc (2 * n)"
    by (rule DERIV_diff[OF d2 d3])
  have "c * sin t * (c * sin t) = (c * c) * (sin t * sin t)" by (simp only: mult_ac)
  also have "\<dots> = 2 * real n * (sin t * sin t)" by (simp only: c(2))
  finally have sqr: "c * sin t * (c * sin t) = 2 * real n * (sin t * sin t)" .
  have "c * sin t * (c * sin t) / 2 = real n * (sin t * sin t)"
    unfolding sqr by simp
  then have pdf: "norm_pdf (c * sin t) = exp (- (real n * (sin t * sin t))) / sqrt (2 * pi)"
    unfolding norm_pdf_def by simp
  have a: "(cos t * cos t) ^ n / sqrt (2 * pi) \<le> norm_pdf (c * sin t)"
    unfolding pdf using cos_power_le_exp[of t n] by (intro divide_right_mono) simp_all
  have i0: "0 \<le> c * cos t" using c(1) t by simp
  have b: "(cos t * cos t) ^ n / sqrt (2 * pi) * (c * cos t) \<le> norm_pdf (c * sin t) * (c * cos t)"
    using a i0 by (rule mult_right_mono)
  have p: "(cos t * cos t) ^ n * cos t = cos t ^ Suc (2 * n)"
  proof -
    have "cos t ^ (2 * n) = (cos t * cos t) ^ n" by (simp add: power_mult power2_eq_square)
    then show ?thesis by simp
  qed
  have r1: "A / s * (c * I) = c / s * (A * I)" for A s I :: real by simp
  from b have "c / sqrt (2 * pi) * cos t ^ Suc (2 * n) \<le> norm_pdf (c * sin t) * (c * cos t)"
    unfolding r1 p .
  then have "0 \<le> norm_pdf (c * sin t) * (c * cos t) - c / sqrt (2 * pi) * cos t ^ Suc (2 * n)"
    by (simp only: diff_ge_0_iff_ge)
  with d show ?thesis by blast
qed

lemma gauss_lower_n:
  assumes "0 < n"
  shows "sqrt (2 * real n) / sqrt (2 * pi) * wallis (Suc (2 * n))
         \<le> norm_cdf (sqrt (2 * real n)) - 1 / 2"
proof -
  define c where "c = sqrt (2 * real n)"
  have c: "0 < c" "c * c = 2 * real n" using assms by (simp_all add: c_def)
  let ?V = "\<lambda>t. norm_cdf (c * sin t) - c / sqrt (2 * pi) * cos_int (Suc (2 * n)) t"
  have "?V 0 \<le> ?V (pi / 2)"
  proof (rule DERIV_nonneg_imp_nondecreasing[of 0 "pi / 2" ?V])
    show "0 \<le> pi / 2" by simp
  next
    fix t :: real assume t: "0 \<le> t" "t \<le> pi / 2"
    have "0 \<le> cos t" using t by (intro cos_ge_zero) simp_all
    then show "\<exists>y. DERIV ?V t :> y \<and> 0 \<le> y" by (rule gauss_lower_step[OF c])
  qed
  then have le: "norm_cdf (c * sin 0) - c / sqrt (2 * pi) * cos_int (Suc (2 * n)) 0
                 \<le> norm_cdf (c * sin (pi / 2)) - c / sqrt (2 * pi) * cos_int (Suc (2 * n)) (pi / 2)" .
  from le have "1 / 2 - c / sqrt (2 * pi) * 0
                \<le> norm_cdf (c * 1) - c / sqrt (2 * pi) * wallis (Suc (2 * n))"
    unfolding wallis_def by (simp only: sin_zero sin_pi_half mult_zero_right norm_cdf_0 cos_int_0)
  then show ?thesis unfolding c_def by simp
qed

lemma norm_cdf_tail:
  "1 - norm_cdf (sqrt (2 * real (Suc k))) \<le> inverse (real (Suc k)) / 2"
proof -
  define x where "x = sqrt (2 * real (Suc k))"
  define z where "z = norm_cdf x - 1 / 2"
  define s where "s = sqrt (2 * pi)"
  define w where "w = wallis (Suc (2 * Suc k))"
  define e where "e = inverse (real (Suc k)) / 4"
  have xx: "x * x = 2 * real (Suc k)" by (simp add: x_def)
  have ss: "s * s = 2 * pi" by (simp add: s_def)
  have x0: "0 \<le> x" by (simp add: x_def)
  have w0: "0 < w" unfolding w_def by (rule wallis_pos)
  have z_hi: "z \<le> 1 / 2" using norm_cdf_le_1[of x] by (simp add: z_def)
  have b: "x / s * w \<le> z"
    unfolding z_def x_def s_def w_def by (rule gauss_lower_n) simp
  have b0: "0 \<le> x / s * w" using x0 w0 by (simp add: s_def)
  have ww: "pi / (2 * real (Suc (Suc (2 * Suc k)))) \<le> w * w"
    unfolding w_def by (rule wallis_square_ge)
  have "real (Suc k) / pi * (pi / (2 * real (Suc (Suc (2 * Suc k))))) \<le> real (Suc k) / pi * (w * w)"
    using ww by (intro mult_left_mono) simp_all
  also have "\<dots> = (2 * real (Suc k)) / (2 * pi) * (w * w)"
    by (simp only: mult_divide_mult_cancel_left[of 2, simplified])
  also have "\<dots> = (x * x) / (s * s) * (w * w)" by (simp only: xx ss)
  also have "\<dots> = (x / s * w) * (x / s * w)" by simp
  also have "\<dots> \<le> z * z" using b b0 by (intro mult_mono) simp_all
  finally have lo: "real (Suc k) / pi * (pi / (2 * real (Suc (Suc (2 * Suc k))))) \<le> z * z" .
  have "real (Suc k) / pi * (pi / (2 * real (Suc (Suc (2 * Suc k)))))
        = real (Suc k) / (4 * real (Suc (Suc k)))"
    by simp
  also have "\<dots> = 1 / 4 - inverse (real (Suc (Suc k))) / 4"
    by (simp add: field_simps)
  finally have "1 / 4 - inverse (real (Suc (Suc k))) / 4 \<le> z * z" using lo by simp
  moreover have "inverse (real (Suc (Suc k))) \<le> inverse (real (Suc k))"
    by (intro le_imp_inverse_le) simp_all
  ultimately have zz: "1 / 4 - e \<le> z * z" unfolding e_def by linarith
  have z0: "0 \<le> z" using b b0 by linarith
  have "(1 / 2 - z) * (1 / 2) \<le> (1 / 2 - z) * (1 / 2 + z)"
    using z_hi z0 by (intro mult_left_mono) simp_all
  also have "\<dots> = 1 / 4 - z * z" by (simp add: algebra_simps)
  also have "\<dots> \<le> e" using zz by simp
  finally have "1 / 2 - z \<le> 2 * e" by simp
  then show ?thesis unfolding z_def e_def x_def by simp
qed

lemma norm_pdf_deriv: "DERIV norm_pdf x :> - x * norm_pdf x"
proof -
  have sq: "DERIV (\<lambda>x. x * x) x :> 1 * x + 1 * x"
    by (rule DERIV_mult[OF DERIV_ident DERIV_ident])
  have m: "DERIV (\<lambda>x. - (x * x)) x :> - (1 * x + 1 * x)" by (rule DERIV_minus[OF sq])
  have h: "DERIV (\<lambda>x. - (x * x) / 2) x :> - (1 * x + 1 * x) / 2" by (rule DERIV_cdivide[OF m])
  have e: "DERIV (\<lambda>x. exp (- (x * x) / 2)) x :> exp (- (x * x) / 2) * (- (1 * x + 1 * x) / 2)"
    by (rule DERIV_chain'[OF h DERIV_exp])
  have f: "DERIV (\<lambda>x. exp (- (x * x) / 2) / sqrt (2 * pi)) x
             :> exp (- (x * x) / 2) * (- (1 * x + 1 * x) / 2) / sqrt (2 * pi)"
    by (rule DERIV_cdivide[OF e])
  have g: "norm_pdf = (\<lambda>x. exp (- (x * x) / 2) / sqrt (2 * pi))"
    by (rule ext) (simp add: norm_pdf_def)
  have eq: "exp (- (x * x) / 2) * (- (1 * x + 1 * x) / 2) / sqrt (2 * pi)
            = - x * (exp (- (x * x) / 2) / sqrt (2 * pi))"
    by simp
  have f': "DERIV (\<lambda>x. exp (- (x * x) / 2) / sqrt (2 * pi)) x
              :> - x * (exp (- (x * x) / 2) / sqrt (2 * pi))"
    using f unfolding eq .
  show ?thesis unfolding g by (rule f')
qed

lemma mills_step:
  assumes "0 < u"
  shows "\<exists>D. DERIV (\<lambda>u. norm_pdf u / u - (1 - norm_cdf u)) u :> D \<and> D \<le> 0"
proof -
  have nz: "u \<noteq> 0" using assms by simp
  have q: "DERIV (\<lambda>u. norm_pdf u / u) u :> (- u * norm_pdf u * u - norm_pdf u * 1) / (u * u)"
    by (rule DERIV_divide[OF norm_pdf_deriv DERIV_ident nz])
  have c: "DERIV (\<lambda>u. 1 - norm_cdf u) u :> 0 - norm_pdf u"
    by (rule DERIV_diff[OF DERIV_const norm_cdf_deriv])
  have d: "DERIV (\<lambda>u. norm_pdf u / u - (1 - norm_cdf u)) u
             :> (- u * norm_pdf u * u - norm_pdf u * 1) / (u * u) - (0 - norm_pdf u)"
    by (rule DERIV_diff[OF q c])
  have "(- u * norm_pdf u * u - norm_pdf u * 1) / (u * u) - (0 - norm_pdf u)
        = - (norm_pdf u / (u * u))"
    using nz by (simp add: field_simps)
  moreover have "0 \<le> norm_pdf u / (u * u)"
    using norm_pdf_pos[of u] by (intro divide_nonneg_nonneg) simp_all
  ultimately have "(- u * norm_pdf u * u - norm_pdf u * 1) / (u * u) - (0 - norm_pdf u) \<le> 0"
    by simp
  with d show ?thesis by blast
qed

lemma mills_ratio:
  assumes "0 < y"
  shows "1 - norm_cdf y \<le> norm_pdf y / y"
proof (rule ccontr)
  assume "\<not> 1 - norm_cdf y \<le> norm_pdf y / y"
  then have "0 < (1 - norm_cdf y) - norm_pdf y / y" by simp
  then obtain k where k: "inverse (real (Suc k)) < (1 - norm_cdf y) - norm_pdf y / y"
    using reals_Archimedean by blast
  define Y where "Y = max y (sqrt (2 * real (Suc k)))"
  have yY: "y \<le> Y" by (simp add: Y_def)
  have Y0: "0 < Y" using assms yY by linarith
  let ?q = "\<lambda>u. norm_pdf u / u - (1 - norm_cdf u)"
  have "?q Y \<le> ?q y"
  proof (rule DERIV_nonpos_imp_nonincreasing[of y Y ?q])
    show "y \<le> Y" by (rule yY)
  next
    fix u assume "y \<le> u" "u \<le> Y"
    then have "0 < u" using assms by linarith
    then show "\<exists>D. DERIV ?q u :> D \<and> D \<le> 0" by (rule mills_step)
  qed
  then have le: "norm_pdf Y / Y - (1 - norm_cdf Y) \<le> norm_pdf y / y - (1 - norm_cdf y)" .
  have "norm_cdf (sqrt (2 * real (Suc k))) \<le> norm_cdf Y"
    by (rule norm_cdf_mono) (simp add: Y_def)
  with norm_cdf_tail[of k] have tail: "1 - norm_cdf Y \<le> inverse (real (Suc k)) / 2" by linarith
  have "0 \<le> norm_pdf Y / Y" using norm_pdf_pos[of Y] Y0 by (intro divide_nonneg_nonneg) simp_all
  moreover have "0 < inverse (real (Suc k))" by simp
  ultimately show False using le tail k by linarith
qed

lemma norm_pdf_even: "norm_pdf (- x) = norm_pdf x"
  by (simp add: norm_pdf_def)

lemma norm_pdf_plus_x_cdf_nonneg: "0 \<le> norm_pdf x + x * norm_cdf x"
proof (cases "0 \<le> x")
  case True
  have "0 \<le> x * norm_cdf x" using True norm_cdf_nonneg[of x] by (rule mult_nonneg_nonneg)
  with norm_pdf_pos[of x] show ?thesis by linarith
next
  case False
  then have y: "0 < - x" by simp
  from mills_ratio[OF y] have "norm_cdf x \<le> norm_pdf x / (- x)"
    by (simp add: norm_cdf_minus norm_pdf_even)
  then have "norm_cdf x * (- x) \<le> norm_pdf x / (- x) * (- x)"
    using y by (intro mult_right_mono) simp_all
  also have "\<dots> = norm_pdf x" using y by simp
  finally show ?thesis by (simp add: algebra_simps)
qed

lemma cdf_pdf_ratio_mono:
  assumes "x2 \<le> x1"
  shows "norm_cdf x2 * norm_pdf x1 \<le> norm_cdf x1 * norm_pdf x2"
proof -
  let ?R = "\<lambda>x. norm_cdf x * exp (x * x / 2)"
  have "?R x2 \<le> ?R x1"
  proof (rule DERIV_nonneg_imp_nondecreasing[of x2 x1 ?R])
    show "x2 \<le> x1" by (rule assms)
  next
    fix x :: real
    have sq: "DERIV (\<lambda>x. x * x) x :> 1 * x + 1 * x"
      by (rule DERIV_mult[OF DERIV_ident DERIV_ident])
    have h: "DERIV (\<lambda>x. x * x / 2) x :> (1 * x + 1 * x) / 2" by (rule DERIV_cdivide[OF sq])
    have e: "DERIV (\<lambda>x. exp (x * x / 2)) x :> exp (x * x / 2) * ((1 * x + 1 * x) / 2)"
      by (rule DERIV_chain'[OF h DERIV_exp])
    have d: "DERIV ?R x :> norm_pdf x * exp (x * x / 2)
                            + exp (x * x / 2) * ((1 * x + 1 * x) / 2) * norm_cdf x"
      by (rule DERIV_mult[OF norm_cdf_deriv e])
    have "norm_pdf x * exp (x * x / 2) + exp (x * x / 2) * ((1 * x + 1 * x) / 2) * norm_cdf x
          = exp (x * x / 2) * (norm_pdf x + x * norm_cdf x)"
      by (simp add: algebra_simps)
    moreover have "0 \<le> exp (x * x / 2) * (norm_pdf x + x * norm_cdf x)"
      using norm_pdf_plus_x_cdf_nonneg[of x] by (intro mult_nonneg_nonneg) simp_all
    ultimately have "0 \<le> norm_pdf x * exp (x * x / 2)
                        + exp (x * x / 2) * ((1 * x + 1 * x) / 2) * norm_cdf x"
      by simp
    with d show "\<exists>D. DERIV ?R x :> D \<and> 0 \<le> D" by blast
  qed
  then have le: "norm_cdf x2 * exp (x2 * x2 / 2) \<le> norm_cdf x1 * exp (x1 * x1 / 2)" .
  have p: "norm_pdf x * exp (x * x / 2) = 1 / sqrt (2 * pi)" for x
  proof -
    have "exp (- (x * x) / 2) * exp (x * x / 2) = exp (- (x * x) / 2 + x * x / 2)"
      by (rule exp_add[symmetric])
    also have "\<dots> = 1" by simp
    finally show ?thesis by (simp add: norm_pdf_def)
  qed
  have "norm_cdf x2 * exp (x2 * x2 / 2) * (norm_pdf x1 * norm_pdf x2)
        \<le> norm_cdf x1 * exp (x1 * x1 / 2) * (norm_pdf x1 * norm_pdf x2)"
    using le norm_pdf_pos[of x1] norm_pdf_pos[of x2] by (intro mult_right_mono) simp_all
  moreover have "norm_cdf x2 * exp (x2 * x2 / 2) * (norm_pdf x1 * norm_pdf x2)
                 = norm_cdf x2 * norm_pdf x1 * (norm_pdf x2 * exp (x2 * x2 / 2))"
    by (simp only: mult_ac)
  moreover have "norm_cdf x1 * exp (x1 * x1 / 2) * (norm_pdf x1 * norm_pdf x2)
                 = norm_cdf x1 * norm_pdf x2 * (norm_pdf x1 * exp (x1 * x1 / 2))"
    by (simp only: mult_ac)
  ultimately have "norm_cdf x2 * norm_pdf x1 * (1 / sqrt (2 * pi))
                   \<le> norm_cdf x1 * norm_pdf x2 * (1 / sqrt (2 * pi))"
    unfolding p by simp
  moreover have "0 < 1 / sqrt (2 * pi)" by simp
  ultimately show ?thesis by (simp only: mult_le_cancel_right_pos)
qed

subsection \<open>The price as a function of the time to expiry\<close>

text \<open>
  For \<open>T > 0\<close> and positive \<open>S\<close>, \<open>K\<close>, \<open>sigma\<close> the pricer returns the floored
  Black-Scholes value; the value of the put is that of the call plus
  \<open>K * exp (- r * T) - S\<close>. The derivative of the call value in \<open>T\<close> is
  \<open>K * exp (- r * T) * (norm_pdf d2 * sigma / (2 * sqrt T) + r * norm_cdf d2)\<close>. The call
  value is at least \<open>0\<close> and at least \<open>S - K * exp (- r * T)\<close>.
\<close>

lemma black_scholes_pdf_identity:
  fixes S K r sigma T :: real
  defines "d1 \<equiv> (ln (S / K) + (r + 0.5 * sigma ^ 2) * T) / (sigma * sqrt T)"
  assumes S: "0 < S" and K: "0 < K" and sg: "0 < sigma" and T: "0 < T"
  shows "S * norm_pdf d1 = K * exp (- r * T) * norm_pdf (d1 - sigma * sqrt T)"
proof -
  have sT: "0 < sqrt T" using T by simp
  have sq: "sqrt T * sqrt T = T" using T by simp
  have "(r + 0.5 * sigma ^ 2) * T = r * T + sigma * sqrt T * (sigma * sqrt T) / 2"
  proof -
    have "sigma * sqrt T * (sigma * sqrt T) = sigma ^ 2 * (sqrt T * sqrt T)"
      by (simp add: power2_eq_square)
    then show ?thesis unfolding sq by (simp add: algebra_simps)
  qed
  then have d1: "d1 = (ln (S / K) + r * T + sigma * sqrt T * (sigma * sqrt T) / 2)
                      / (sigma * sqrt T)"
    unfolding d1_def by (simp only: add.assoc)
  have b0: "0 < sigma * sqrt T" using sg sT by simp
  show ?thesis unfolding d1 by (rule norm_pdf_ratio[OF S K b0])
qed


lemma call_value_nondecreasing:
  fixes S K r sigma :: real
  defines "d1 \<equiv> \<lambda>T. (ln (S / K) + (r + 0.5 * sigma ^ 2) * T) / (sigma * sqrt T)"
  defines "f \<equiv> \<lambda>T. S * norm_cdf (d1 T) - K * exp (- r * T) * norm_cdf (d1 T - sigma * sqrt T)"
  assumes S: "0 < S" and K: "0 < K" and sg: "0 < sigma" and T1: "0 < T1" and le: "T1 \<le> T2"
      and nn: "\<And>x. 0 \<le> r * norm_cdf x"
  shows "f T1 \<le> f T2"
proof (rule DERIV_nonneg_imp_nondecreasing[of T1 T2 f])
  show "T1 \<le> T2" by (rule le)
next
  fix T assume "T1 \<le> T" "T \<le> T2"
  then have T: "0 < T" using T1 by simp
  have sT: "0 < sqrt T" using T by simp
  have l1: "DERIV (\<lambda>T. ln (S / K) + (r + 0.5 * sigma ^ 2) * T) T
              :> 0 + (r + 0.5 * sigma ^ 2) * 1"
    by (rule DERIV_add[OF DERIV_const DERIV_cmult[OF DERIV_ident]])
  have l2: "DERIV (\<lambda>T. sigma * sqrt T) T :> sigma * (inverse (sqrt T) / 2)"
    by (rule DERIV_cmult[OF DERIV_real_sqrt[OF T]])
  have nz: "sigma * sqrt T \<noteq> 0" using sg sT by simp
  have l3: "DERIV d1 T
              :> ((0 + (r + 0.5 * sigma ^ 2) * 1) * (sigma * sqrt T)
                  - (ln (S / K) + (r + 0.5 * sigma ^ 2) * T) * (sigma * (inverse (sqrt T) / 2)))
                 / (sigma * sqrt T * (sigma * sqrt T))"
    unfolding d1_def by (rule DERIV_divide[OF l1 l2 nz])
  have idn: "S * norm_pdf (d1 T) = K * exp (- r * T) * norm_pdf (d1 T - sigma * sqrt T)"
    unfolding d1_def by (rule black_scholes_pdf_identity[OF S K sg T])
  have der: "DERIV f T :> K * exp (- r * T)
               * (norm_pdf (d1 T - sigma * sqrt T) * (sigma * (inverse (sqrt T) / 2))
                  + r * norm_cdf (d1 T - sigma * sqrt T))"
    unfolding f_def by (rule call_value_deriv[OF l3 l2 idn])
  have "0 \<le> norm_pdf (d1 T - sigma * sqrt T) * (sigma * (inverse (sqrt T) / 2))"
    using norm_pdf_pos[of "d1 T - sigma * sqrt T"] sg sT by simp
  then have "0 \<le> norm_pdf (d1 T - sigma * sqrt T) * (sigma * (inverse (sqrt T) / 2))
                  + r * norm_cdf (d1 T - sigma * sqrt T)"
    using nn[of "d1 T - sigma * sqrt T"] by linarith
  then have "0 \<le> K * exp (- r * T)
               * (norm_pdf (d1 T - sigma * sqrt T) * (sigma * (inverse (sqrt T) / 2))
                  + r * norm_cdf (d1 T - sigma * sqrt T))"
    using K by (intro mult_nonneg_nonneg) simp_all
  with der show "\<exists>D. DERIV f T :> D \<and> 0 \<le> D" by blast
qed

lemma black_scholes_price_positive_time:
  assumes "0 < S" and "0 < K" and "0 < sigma" and "0 < T"
  shows "black_scholes_price S K T r sigma CALL
         = Inr (max (S * norm_cdf ((ln (S / K) + (r + 0.5 * sigma ^ 2) * T) / (sigma * sqrt T))
                     - K * exp (- r * T)
                       * norm_cdf ((ln (S / K) + (r + 0.5 * sigma ^ 2) * T) / (sigma * sqrt T)
                                   - sigma * sqrt T)) 0.01)"
    and "black_scholes_price S K T r sigma PUT
         = Inr (max (S * norm_cdf ((ln (S / K) + (r + 0.5 * sigma ^ 2) * T) / (sigma * sqrt T))
                     - K * exp (- r * T)
                       * norm_cdf ((ln (S / K) + (r + 0.5 * sigma ^ 2) * T) / (sigma * sqrt T)
                                   - sigma * sqrt T)
                     + (K * exp (- r * T) - S)) 0.01)"
proof -
  have c1: "\<not> T \<le> 0" using assms by simp
  have c2: "K \<noteq> 0" using assms by simp
  have "0 < S / K" using assms by simp
  then have c3: "\<not> S / K \<le> 0" by simp
  have "0 < sqrt T" using assms by simp
  then have c4: "sigma * sqrt T \<noteq> 0" using assms by simp
  show "black_scholes_price S K T r sigma CALL
         = Inr (max (S * norm_cdf ((ln (S / K) + (r + 0.5 * sigma ^ 2) * T) / (sigma * sqrt T))
                     - K * exp (- r * T)
                       * norm_cdf ((ln (S / K) + (r + 0.5 * sigma ^ 2) * T) / (sigma * sqrt T)
                                   - sigma * sqrt T)) 0.01)"
    unfolding black_scholes_price_def Let_def if_not_P[OF c1] if_not_P[OF c3] if_not_P[OF c4]
    using c2 by simp
  have e: "K * exp (- r * T) * (1 - a) - S * (1 - b) = S * b - K * exp (- r * T) * a
             + (K * exp (- r * T) - S)" for a b
    by (simp add: algebra_simps)
  show "black_scholes_price S K T r sigma PUT
         = Inr (max (S * norm_cdf ((ln (S / K) + (r + 0.5 * sigma ^ 2) * T) / (sigma * sqrt T))
                     - K * exp (- r * T)
                       * norm_cdf ((ln (S / K) + (r + 0.5 * sigma ^ 2) * T) / (sigma * sqrt T)
                                   - sigma * sqrt T)
                     + (K * exp (- r * T) - S)) 0.01)"
    unfolding black_scholes_price_def Let_def if_not_P[OF c1] if_not_P[OF c3] if_not_P[OF c4]
      norm_cdf_minus e
    using c2 by simp
qed


lemma call_value_bounds:
  fixes S K r sigma T :: real
  defines "d1 \<equiv> (ln (S / K) + (r + 0.5 * sigma ^ 2) * T) / (sigma * sqrt T)"
  assumes S: "0 < S" and K: "0 < K" and sg: "0 < sigma" and T: "0 < T"
  shows "0 \<le> S * norm_cdf d1 - K * exp (- r * T) * norm_cdf (d1 - sigma * sqrt T)"
    and "S - K * exp (- r * T)
         \<le> S * norm_cdf d1 - K * exp (- r * T) * norm_cdf (d1 - sigma * sqrt T)"
proof -
  define d2 where "d2 = d1 - sigma * sqrt T"
  define Kd where "Kd = K * exp (- r * T)"
  have Kd: "0 < Kd" using K by (simp add: Kd_def)
  have idn: "S * norm_pdf d1 = Kd * norm_pdf d2"
    unfolding d1_def d2_def Kd_def by (rule black_scholes_pdf_identity[OF S K sg T])
  have "0 < sqrt T" using T by simp
  then have "0 < sigma * sqrt T" using sg by simp
  then have le: "d2 \<le> d1" by (simp add: d2_def)
  have p1: "0 < norm_pdf d1" and p2: "0 < norm_pdf d2" by (rule norm_pdf_pos)+
  have "Kd * (norm_cdf d2 * norm_pdf d1) \<le> Kd * (norm_cdf d1 * norm_pdf d2)"
    using cdf_pdf_ratio_mono[OF le] Kd by (intro mult_left_mono) simp_all
  also have "\<dots> = norm_cdf d1 * (Kd * norm_pdf d2)" by (simp only: mult_ac)
  also have "\<dots> = norm_cdf d1 * (S * norm_pdf d1)" by (simp only: idn)
  finally have "(Kd * norm_cdf d2) * norm_pdf d1 \<le> (S * norm_cdf d1) * norm_pdf d1"
    by (simp only: mult_ac)
  then have a: "Kd * norm_cdf d2 \<le> S * norm_cdf d1"
    using p1 by (simp only: mult_le_cancel_right_pos)
  have le': "- d1 \<le> - d2" using le by simp
  have "S * (norm_cdf (- d1) * norm_pdf (- d2)) \<le> S * (norm_cdf (- d2) * norm_pdf (- d1))"
    using cdf_pdf_ratio_mono[OF le'] S by (intro mult_left_mono) simp_all
  then have "S * ((1 - norm_cdf d1) * norm_pdf d2) \<le> S * ((1 - norm_cdf d2) * norm_pdf d1)"
    by (simp only: norm_cdf_minus norm_pdf_even)
  also have "\<dots> = (1 - norm_cdf d2) * (S * norm_pdf d1)" by (simp only: mult_ac)
  also have "\<dots> = (1 - norm_cdf d2) * (Kd * norm_pdf d2)" by (simp only: idn)
  finally have "(S * (1 - norm_cdf d1)) * norm_pdf d2 \<le> (Kd * (1 - norm_cdf d2)) * norm_pdf d2"
    by (simp only: mult_ac)
  then have b: "S * (1 - norm_cdf d1) \<le> Kd * (1 - norm_cdf d2)"
    using p2 by (simp only: mult_le_cancel_right_pos)
  show "0 \<le> S * norm_cdf d1 - K * exp (- r * T) * norm_cdf (d1 - sigma * sqrt T)"
    using a unfolding Kd_def d2_def by simp
  have "S - Kd \<le> S * norm_cdf d1 - Kd * norm_cdf d2"
    using b by (simp add: algebra_simps)
  then show "S - K * exp (- r * T)
         \<le> S * norm_cdf d1 - K * exp (- r * T) * norm_cdf (d1 - sigma * sqrt T)"
    unfolding Kd_def d2_def .
qed

lemma black_scholes_price_expired_value:
  assumes "T \<le> 0"
  shows "black_scholes_price S K T r sigma CALL = Inr (max (S - K) 0)"
    and "black_scholes_price S K T r sigma PUT = Inr (max (K - S) 0)"
  using assms by (simp_all add: black_scholes_price_def)


subsection \<open>A put deep in the money under a positive rate\<close>

lemma ln_2_bounds: "1 / 2 \<le> ln (2::real)" "ln (2::real) \<le> 1"
proof -
  have "ln (1 / 2 :: real) \<le> 1 / 2 - 1" by (rule ln_le_minus_one) simp
  moreover have "ln (1 / 2 :: real) = - ln 2" by (simp add: ln_div)
  ultimately show "1 / 2 \<le> ln (2::real)" by simp
  have "ln (2::real) \<le> 2 - 1" by (rule ln_le_minus_one) simp
  then show "ln (2::real) \<le> 1" by simp
qed

lemma sqrt_25: "sqrt 25 = 5"
proof -
  have "sqrt 25 = sqrt (5 ^ 2)" by simp
  also have "\<dots> = 5" by (simp only: real_sqrt_abs abs_numeral)
  finally show ?thesis .
qed

lemma exp_minus_1_le: "exp (- 1 :: real) \<le> 2 / 5"
proof -
  have "1 + (1::real) + 1\<^sup>2 / 2 \<le> exp 1" by (rule exp_lower_Taylor_quadratic) simp
  then have e: "5 / 2 \<le> exp (1::real)" by simp
  have "exp (- 1 :: real) = 1 / exp 1" by (simp add: exp_minus field_simps)
  also have "\<dots> \<le> 1 / (5 / 2)" using e by (intro divide_left_mono) simp_all
  finally show ?thesis by simp
qed

lemma norm_cdf_unit_interval:
  assumes "\<bar>x\<bar> \<le> 1"
  shows "1 / 2 + x / sqrt (2 * pi) - \<bar>x\<bar> * (x * x) / 4 \<le> norm_cdf x"
    and "norm_cdf x \<le> 1 / 2 + x / sqrt (2 * pi) + \<bar>x\<bar> * (x * x) / 4"
  using norm_cdf_near_half[OF assms] by linarith+

lemma put_concrete:
  "black_scholes_price 100 200 25 (1 / 25) (1 / 5) PUT =
     Inr (max (200 * exp (- 1) * norm_cdf (ln 2 - 1 / 2) - 100 * norm_cdf (ln 2 - 3 / 2)) (1 / 100))"
proof -
  have d1: "(ln (100 / 200) + (1 / 25 + 0.5 * (1 / 5) ^ 2) * 25) / (1 / 5 * sqrt 25) = 3 / 2 - ln (2::real)"
    by (simp add: sqrt_25 ln_div power2_eq_square)
  have d2: "3 / 2 - ln (2::real) - 1 / 5 * sqrt 25 = 1 / 2 - ln 2" by (simp add: sqrt_25)
  have c1: "\<not> (25 :: real) \<le> 0" by simp
  have c2: "(200::real) \<noteq> 0" by simp
  have c3: "\<not> (100 / 200 :: real) \<le> 0" by simp
  have c4: "1 / 5 * sqrt 25 \<noteq> 0" by (simp add: sqrt_25)
  have e: "exp (- (1 / 25) * 25 :: real) = exp (- 1)" by simp
  have n1: "- (1 / 2 - ln (2::real)) = ln 2 - 1 / 2" by simp
  have n2: "- (3 / 2 - ln (2::real)) = ln 2 - 3 / 2" by simp
  show ?thesis
    unfolding black_scholes_price_def Let_def
    unfolding d1 d2 if_not_P[OF c1] if_not_P[OF c2] if_not_P[OF c3] if_not_P[OF c4] e n1 n2
    by simp
qed

lemma put_price_bound:
  "200 * exp (- 1) * norm_cdf (ln 2 - 1 / 2) - 100 * norm_cdf (ln 2 - 3 / 2) \<le> 90"
proof -
  define x where "x = ln (2::real) - 1 / 2"
  define y where "y = ln (2::real) - 3 / 2"
  define s where "s = sqrt (2 * pi)"
  have s: "2 \<le> s" "s \<le> 3" using sqrt_2pi_bounds by (simp_all add: s_def)
  have x: "0 \<le> x" "x \<le> 1 / 2" using ln_2_bounds by (simp_all add: x_def)
  have y: "- 1 \<le> y" "y \<le> - (1 / 2)" using ln_2_bounds by (simp_all add: y_def)
  have xs: "x / s \<le> x / 2" using x s by (intro divide_left_mono) simp_all
  have "x * x \<le> (1 / 2) * (1 / 2)" using x by (intro mult_mono) simp_all
  then have "x * (x * x) \<le> (1 / 2) * ((1 / 2) * (1 / 2))" using x by (intro mult_mono) simp_all
  then have xc: "\<bar>x\<bar> * (x * x) / 4 \<le> 1 / 32" using x by simp
  have "norm_cdf x \<le> 1 / 2 + x / s + \<bar>x\<bar> * (x * x) / 4"
    unfolding s_def by (rule norm_cdf_unit_interval) (use x in simp)
  with xs xc x have nx: "norm_cdf x \<le> 4 / 5" by linarith
  have "(- y) / s \<le> (- y) / 2" using y s by (intro divide_left_mono) simp_all
  then have ys: "y / 2 \<le> y / s" by simp
  have "(- y) * (- y) \<le> 1 * 1" using y by (intro mult_mono) simp_all
  then have "(- y) * ((- y) * (- y)) \<le> 1 * (1 * 1)" using y by (intro mult_mono) simp_all
  then have yc: "\<bar>y\<bar> * (y * y) / 4 \<le> 1 / 4" using y by simp
  have "1 / 2 + y / s - \<bar>y\<bar> * (y * y) / 4 \<le> norm_cdf y"
    unfolding s_def by (rule norm_cdf_unit_interval) (use y in simp)
  with ys yc y have ny: "- (1 / 4) \<le> norm_cdf y" by linarith
  have e0: "0 \<le> exp (- 1 :: real)" by simp
  have "exp (- 1) * norm_cdf x \<le> (2 / 5) * (4 / 5)"
  proof (cases "0 \<le> norm_cdf x")
    case True
    then show ?thesis using exp_minus_1_le nx by (intro mult_mono) simp_all
  next
    case False
    then have "exp (- 1) * norm_cdf x \<le> 0" using e0 by (simp add: mult_le_0_iff)
    then show ?thesis by simp
  qed
  then have "200 * (exp (- 1) * norm_cdf x) \<le> 200 * ((2 / 5) * (4 / 5))"
    by (intro mult_left_mono) simp_all
  then have a: "200 * exp (- 1) * norm_cdf x \<le> 64" by (simp only: mult.assoc)
  from a ny show ?thesis unfolding x_def y_def by linarith
qed


text \<open>
  C4, counterexample. With \<open>S = 100\<close>, \<open>K = 200\<close>, \<open>r = 0.04\<close> and \<open>sigma = 0.2\<close> the put
  is priced at its intrinsic value 100 at \<open>T = 0\<close> and at no more than 90 at \<open>T = 25\<close>:
  the strike is discounted by \<open>exp (- 1)\<close>. The price decreases from \<open>T = 0\<close> to
  \<open>T = 25\<close>.
\<close>

theorem C4_discounted_put_counterexample:
  "black_scholes_price 100 200 0 (1 / 25) (1 / 5) PUT = Inr 100
   \<and> \<not> isl (black_scholes_price 100 200 25 (1 / 25) (1 / 5) PUT)
   \<and> projr (black_scholes_price 100 200 25 (1 / 25) (1 / 5) PUT) \<le> 90"
proof -
  have a: "black_scholes_price 100 200 0 (1 / 25) (1 / 5) PUT = Inr 100"
    by (simp add: black_scholes_price_def)
  have b: "max (200 * exp (- 1) * norm_cdf (ln 2 - 1 / 2) - 100 * norm_cdf (ln 2 - 3 / 2)) (1 / 100)
           \<le> (90::real)"
    using put_price_bound by simp
  from a b show ?thesis unfolding put_concrete by simp
qed

text \<open>
  C4 (as amended). For positive \<open>S\<close>, \<open>K\<close> and \<open>sigma\<close> and a rate \<open>r \<ge> 0\<close>, the pricer
  returns a price at every \<open>T\<close>, and the price of a call is non-decreasing in \<open>T\<close>; so
  is the price of a put when \<open>r = 0\<close>. This covers \<open>T \<le> 0\<close>, where the price is the
  intrinsic value, the step from \<open>T \<le> 0\<close> to \<open>T > 0\<close>, and \<open>T > 0\<close>.
\<close>

theorem C4_price_nondecreasing_in_time:
  assumes S: "0 < S" and K: "0 < K" and sg: "0 < sigma" and r: "0 \<le> r" and le: "T1 \<le> T2"
      and put: "kind = CALL \<or> r = 0"
  shows "\<exists>p1 p2. black_scholes_price S K T1 r sigma kind = Inr p1
                 \<and> black_scholes_price S K T2 r sigma kind = Inr p2 \<and> p1 \<le> p2"
proof -
  define v where "v = (\<lambda>T. S * norm_cdf ((ln (S / K) + (r + 0.5 * sigma ^ 2) * T) / (sigma * sqrt T))
             - K * exp (- r * T)
               * norm_cdf ((ln (S / K) + (r + 0.5 * sigma ^ 2) * T) / (sigma * sqrt T)
                           - sigma * sqrt T))"
  have call: "black_scholes_price S K T r sigma CALL = Inr (max (v T) 0.01)" if "0 < T" for T
    unfolding v_def by (rule black_scholes_price_positive_time(1)[OF S K sg that])
  have putv: "black_scholes_price S K T r sigma PUT
              = Inr (max (v T + (K * exp (- r * T) - S)) 0.01)" if "0 < T" for T
    unfolding v_def by (rule black_scholes_price_positive_time(2)[OF S K sg that])
  have v0: "0 \<le> v T" if "0 < T" for T
    unfolding v_def by (rule call_value_bounds(1)[OF S K sg that])
  have v1: "S - K * exp (- r * T) \<le> v T" if "0 < T" for T
    unfolding v_def by (rule call_value_bounds(2)[OF S K sg that])
  have mono: "v Ta \<le> v Tb" if "0 < Ta" "Ta \<le> Tb" for Ta Tb
    unfolding v_def
  proof (rule call_value_nondecreasing[OF S K sg that])
    fix x show "0 \<le> r * norm_cdf x" using r norm_cdf_nonneg[of x] by (rule mult_nonneg_nonneg)
  qed
  consider (expired) "T2 \<le> 0" | (boundary) "T1 \<le> 0" "0 < T2" | (live) "0 < T1"
    by linarith
  then show ?thesis
  proof cases
    case expired
    then have T1: "T1 \<le> 0" using le by simp
    show ?thesis
    proof (cases kind)
      case CALL
      show ?thesis
        unfolding CALL black_scholes_price_expired_value(1)[OF T1]
          black_scholes_price_expired_value(1)[OF expired]
        by blast
    next
      case PUT
      show ?thesis
        unfolding PUT black_scholes_price_expired_value(2)[OF T1]
          black_scholes_price_expired_value(2)[OF expired]
        by blast
    qed
  next
    case boundary
    show ?thesis
    proof (cases kind)
      case CALL
      have "0 \<le> r * T2" using r boundary(2) by simp
      then have "exp (- r * T2) \<le> 1" by simp
      then have "K * exp (- r * T2) \<le> K * 1" using K by (intro mult_left_mono) simp_all
      with v1[OF boundary(2)] have "S - K \<le> v T2" by simp
      then have "max (S - K) 0 \<le> max (v T2) 0.01" by (simp add: max_def)
      then show ?thesis
        unfolding CALL black_scholes_price_expired_value(1)[OF boundary(1)] call[OF boundary(2)]
        by blast
    next
      case PUT
      then have r0: "r = 0" using put by simp
      have Kd: "K * exp (- r * T2) = K" by (simp add: r0)
      have "K - S \<le> v T2 + (K - S)" using v0[OF boundary(2)] by simp
      then have "K - S \<le> v T2 + (K * exp (- r * T2) - S)" unfolding Kd .
      then have "max (K - S) 0 \<le> max (v T2 + (K * exp (- r * T2) - S)) 0.01"
        by (simp add: max_def)
      then show ?thesis
        unfolding PUT black_scholes_price_expired_value(2)[OF boundary(1)] putv[OF boundary(2)]
        by blast
    qed
  next
    case live
    then have T2: "0 < T2" using le by simp
    have m: "v T1 \<le> v T2" by (rule mono[OF live le])
    show ?thesis
    proof (cases kind)
      case CALL
      have "max (v T1) 0.01 \<le> max (v T2) 0.01" using m by (intro max.mono) simp_all
      then show ?thesis unfolding CALL call[OF live] call[OF T2] by blast
    next
      case PUT
      then have r0: "r = 0" using put by simp
      have Kd: "K * exp (- r * T1) - S = K * exp (- r * T2) - S" by (simp add: r0)
      have "v T1 + (K * exp (- r * T2) - S) \<le> v T2 + (K * exp (- r * T2) - S)"
        using m by simp
      then have "v T1 + (K * exp (- r * T1) - S) \<le> v T2 + (K * exp (- r * T2) - S)"
        unfolding Kd .
      then have "max (v T1 + (K * exp (- r * T1) - S)) 0.01
                 \<le> max (v T2 + (K * exp (- r * T2) - S)) 0.01"
        by (intro max.mono) simp_all
      then show ?thesis unfolding PUT putv[OF live] putv[OF T2] by blast
    qed
  qed
qed

theorem C4_price_nondecreasing_in_time_witness:
  "(0::real) < 450 \<and> (0::real) < 3 / 8 \<and> (0::real) \<le> 1 / 20 \<and> (0::real) \<le> 1 / 252
   \<and> (\<exists>p1 p2. black_scholes_price 450 450 0 (1 / 20) (3 / 8) CALL = Inr p1
                 \<and> black_scholes_price 450 450 (1 / 252) (1 / 20) (3 / 8) CALL = Inr p2
                 \<and> p1 \<le> p2)"
  using C4_price_nondecreasing_in_time[of 450 450 "3 / 8" "1 / 20" 0 "1 / 252" CALL] by simp
end
